(* ===== verification/Values.thy ===== *)
theory Values
  imports Prelude
begin

text \<open>
  The dynamic values the packages pass around: Go's \<open>any\<close> as \<open>encoding/json\<close> produces it (nil, bool,
  float64, string, \<open>[]any\<close>, \<open>map[string]any\<close>) with the \<open>int\<close> and \<open>[]string\<close> values the code tests
  for, float64 numbers as the rationals they denote, instants of time, and the library functions
  whose result is outside this repository (regular expressions, the time-zone database, number and
  time layouts) collected in a record that the definitions take as an argument.
\<close>

section \<open>Dynamic values\<close>

datatype any =
    ANil
  | ABool bool
  | ANum rat
  | AInt int
  | AStr string
  | AStrs "string list"
  | AList "any list"
  | AObj "(string \<times> any) list"

type_synonym attrs = "(string \<times> any) list"

text \<open>The comma-ok type assertion \<open>v.(string)\<close> and its zero value when the assertion fails.\<close>

definition as_string :: "any \<Rightarrow> string option" where
  "as_string v = (case v of AStr s \<Rightarrow> Some s | _ \<Rightarrow> None)"

definition str_or_empty :: "any \<Rightarrow> string" where
  "str_or_empty v = (case v of AStr s \<Rightarrow> s | _ \<Rightarrow> [])"

text \<open>Assignment \<open>m[k] = v\<close> on a Go map, kept as an association list without duplicate keys.\<close>

fun put :: "(string \<times> 'v) list \<Rightarrow> string \<Rightarrow> 'v \<Rightarrow> (string \<times> 'v) list" where
  "put [] k v = [(k, v)]"
| "put ((k', v') # m) k v = (if k' = k then (k, v) # m else (k', v') # put m k v)"

definition del :: "(string \<times> 'v) list \<Rightarrow> string \<Rightarrow> (string \<times> 'v) list" where
  "del m k = filter (\<lambda>kv. fst kv \<noteq> k) m"

section \<open>Float64\<close>

text \<open>
  A finite float64 is the rational it denotes.  \<open>round64\<close> is IEEE-754 round-to-nearest-even to a
  53-bit significand with the least exponent -1074.
\<close>

fun bits :: "nat \<Rightarrow> nat" where
  "bits n = (if n = 0 then 0 else Suc (bits (n div 2)))"

declare bits.simps [simp del]

definition pow2 :: "int \<Rightarrow> rat" where
  "pow2 e = (if 0 \<le> e then of_nat (2 ^ nat e) else 1 / of_nat (2 ^ nat (- e)))"

definition ilog2 :: "rat \<Rightarrow> int" where
  "ilog2 x =
     (let (p, q) = quotient_of x; k = int (bits (nat p)) - int (bits (nat q))
      in if pow2 k \<le> x then k else k - 1)"

definition round_even :: "rat \<Rightarrow> int" where
  "round_even x =
     (let n = \<lfloor>x\<rfloor>; r = x - of_int n
      in if r < 1 / 2 then n else if 1 / 2 < r then n + 1 else if even n then n else n + 1)"

definition round64 :: "rat \<Rightarrow> rat" where
  "round64 x =
     (if x = 0 then 0
      else let e = max (- 1074) (ilog2 \<bar>x\<bar> - 52)
           in sgn x * of_int (round_even (\<bar>x\<bar> / pow2 e)) * pow2 e)"

definition float64 :: "int \<Rightarrow> rat" where
  "float64 n = round64 (of_int n)"

section \<open>The surrounding library\<close>

record golib =
  regexp_match :: "string \<Rightarrow> string \<Rightarrow> bool option"
    \<comment> \<open>\<open>regexp.Compile\<close> then \<open>MatchString\<close>; \<open>None\<close> when the pattern does not compile\<close>
  load_location :: "string \<Rightarrow> (int \<Rightarrow> int) option"
    \<comment> \<open>\<open>time.LoadLocation\<close>: the zone's offset from UTC in seconds at an instant\<close>
  fmt_float :: "rat \<Rightarrow> string"
    \<comment> \<open>the \<open>%v\<close> layout of a float64\<close>
  fmt_time :: "int \<Rightarrow> string"
    \<comment> \<open>\<open>Time.Format("2006-01-02T15:04:05Z07:00")\<close>\<close>
  parse_ipv6 :: "string \<Rightarrow> byte list option"
    \<comment> \<open>\<open>netip.ParseAddr\<close> on text whose first separator is a colon; 16 bytes, no zone\<close>

text \<open>\<open>fmt.Sprintf("%v", x)\<close>; maps print with their keys sorted.\<close>

fun sprintf_v :: "golib \<Rightarrow> any \<Rightarrow> string" where
  "sprintf_v L ANil = ''<nil>''"
| "sprintf_v L (ABool b) = (if b then ''true'' else ''false'')"
| "sprintf_v L (ANum x) = fmt_float L x"
| "sprintf_v L (AInt i) = show_int i"
| "sprintf_v L (AStr s) = s"
| "sprintf_v L (AStrs ss) = ''['' @ Join ss '' '' @ '']''"
| "sprintf_v L (AList vs) = ''['' @ Join (map (sprintf_v L) vs) '' '' @ '']''"
| "sprintf_v L (AObj kvs) =
     ''map['' @ Join (map (\<lambda>kv. fst kv @ '':'' @ snd kv)
                       (sort_key fst (map (\<lambda>kv. (fst kv, sprintf_v L (snd kv))) kvs))) '' ''
     @ '']''"

section \<open>Through JSON and back\<close>

text \<open>
  What a value is after \<open>json.Marshal\<close> into a column and \<open>json.Unmarshal\<close> out of it: a nil
  \<open>[]string\<close> is written as null, a non-empty one comes back as \<open>[]any\<close>, an int as float64.
\<close>

fun json_norm :: "any \<Rightarrow> any" where
  "json_norm (AInt n) = ANum (float64 n)"
| "json_norm (AStrs ss) = (if ss = [] then ANil else AList (map AStr ss))"
| "json_norm (AList vs) = AList (map json_norm vs)"
| "json_norm (AObj kvs) = AObj (map (\<lambda>kv. (fst kv, json_norm (snd kv))) kvs)"
| "json_norm v = v"

definition json_attrs :: "attrs \<Rightarrow> attrs" where
  "json_attrs m = map (\<lambda>kv. (fst kv, json_norm (snd kv))) m"

section \<open>Instants\<close>

text \<open>
  A \<open>time.Time\<close> is its instant in nanoseconds since the Unix epoch.  The store writes instants with
  the layout RFC3339Nano in UTC and compares that text.  Date and time of day have a fixed width
  there (four-digit years), so the text orders like the second followed by the text of the
  fraction, from which trailing zeros are dropped, and the zone letter.
\<close>

type_synonym instant = int

definition seconds :: "int \<Rightarrow> int" where
  "seconds n = n * 1000000000"

definition minutes :: "int \<Rightarrow> int" where
  "minutes n = seconds (60 * n)"

definition hours :: "int \<Rightarrow> int" where
  "hours n = minutes (60 * n)"

definition frac_digits :: "nat \<Rightarrow> string" where
  "frac_digits n = map (\<lambda>k. digit_char (n div 10 ^ k mod 10)) [8, 7, 6, 5, 4, 3, 2, 1, 0]"

definition frac_text :: "nat \<Rightarrow> string" where
  "frac_text n =
     (if n = 0 then []
      else CHR ''.'' # rev (dropWhile (\<lambda>c. c = CHR ''0'') (rev (frac_digits n))))"

definition time_text :: "instant \<Rightarrow> int \<times> string" where
  "time_text t = (t div 1000000000, frac_text (nat (t mod 1000000000)) @ ''Z'')"

section \<open>Facts\<close>

lemma map_of_put: "map_of (put m k v) = (map_of m)(k \<mapsto> v)"
  by (induction m k v rule: put.induct) auto

lemma fst_set_put: "fst ` set (put m k v) = insert k (fst ` set m)"
  by (induction m k v rule: put.induct) auto

lemma distinct_put: "distinct (map fst m) \<Longrightarrow> distinct (map fst (put m k v))"
proof (induction m k v rule: put.induct)
  case (2 k' v' m k v)
  then show ?case using fst_set_put [of m k v] by (auto simp: image_iff)
qed simp

lemma map_of_del: "map_of (del m k) = (map_of m)(k := None)"
proof (rule ext)
  fix x
  show "map_of (del m k) x = ((map_of m)(k := None)) x"
    by (induction m) (auto simp: del_def)
qed

lemma map_of_map_snd: "map_of (map (\<lambda>kv. (fst kv, f (snd kv))) m) k = map_option f (map_of m k)"
  by (induction m) auto

lemma map_of_json_attrs: "map_of (json_attrs m) k = map_option json_norm (map_of m k)"
  by (simp add: json_attrs_def map_of_map_snd)

text \<open>An earlier second gives an earlier text, whatever the fractions are.\<close>

lemma time_text_less_second: "s div 1000000000 < t div 1000000000 \<Longrightarrow> time_text s < time_text t"
  by (simp add: time_text_def less_prod_def')

lemma time_text_less_imp: "time_text s < time_text t \<Longrightarrow> s div 1000000000 \<le> t div 1000000000"
  by (auto simp: time_text_def less_prod_def')

end
