(* ===== verification/Net.thy ===== *)
theory Net
  imports Values
begin

text \<open>
  The part of Go's \<open>net\<close> and \<open>net/netip\<close> that the policy engine calls: textual IPv4 addresses, CIDR
  blocks and membership.  Addresses are byte lists of length 4 or 16; the textual IPv6 form is the
  library parameter \<open>parse_ipv6\<close>.  The lemmas characterise membership in a block by the leading
  bits of the address.
\<close>

section \<open>Addresses\<close>

fun parseIPv4Fields :: "string \<Rightarrow> nat \<Rightarrow> nat \<Rightarrow> byte list \<Rightarrow> byte list option" where
  "parseIPv4Fields [] val digLen octets =
     (if length octets < 3 then None else Some (octets @ [word_of_nat val]))"
| "parseIPv4Fields (c # cs) val digLen octets =
     (if is_digit c then
        if digLen = 1 \<and> val = 0 then None
        else let v = val * 10 + (code_of c - 48)
             in if 255 < v then None else parseIPv4Fields cs v (Suc digLen) octets
      else if c = CHR ''.'' then
        if digLen = 0 \<or> cs = [] then None
        else if length octets = 3 then None
        else parseIPv4Fields cs 0 0 (octets @ [word_of_nat val])
      else None)"

definition ParseAddr :: "golib \<Rightarrow> string \<Rightarrow> byte list option" where
  "ParseAddr L s =
     (case find (\<lambda>c. c = CHR ''.'' \<or> c = CHR '':'' \<or> c = CHR ''%'') s of
        None \<Rightarrow> None
      | Some c \<Rightarrow> if c = CHR ''.'' then parseIPv4Fields s 0 0 []
                   else if c = CHR '':'' then parse_ipv6 L s
                   else None)"

definition v4InV6Prefix :: "byte list" where
  "v4InV6Prefix = [0, 0, 0, 0, 0, 0, 0, 0, 0, 0, 255, 255]"

definition As16 :: "byte list \<Rightarrow> byte list" where
  "As16 a = (if length a = 4 then v4InV6Prefix @ a else a)"

definition To4 :: "byte list \<Rightarrow> byte list option" where
  "To4 ip =
     (if length ip = 4 then Some ip
      else if length ip = 16 \<and> take 12 ip = v4InV6Prefix then Some (drop 12 ip)
      else None)"

definition ParseIP :: "golib \<Rightarrow> string \<Rightarrow> byte list option" where
  "ParseIP L s = map_option As16 (ParseAddr L s)"

section \<open>CIDR blocks\<close>

record ipnet =
  net_ip :: "byte list"
  net_mask :: "byte list"

fun CIDRMask :: "nat \<Rightarrow> nat \<Rightarrow> byte list" where
  "CIDRMask n 0 = []"
| "CIDRMask n (Suc l) =
     (if 8 \<le> n then 255 # CIDRMask (n - 8) l else NOT (drop_bit n 255) # CIDRMask 0 l)"

definition dtoi :: "string \<Rightarrow> nat option" where
  "dtoi s = (if s \<noteq> [] \<and> list_all is_digit s
             then Some (foldl (\<lambda>n c. n * 10 + (code_of c - 48)) 0 s) else None)"

definition ip_mask :: "byte list \<Rightarrow> byte list \<Rightarrow> byte list" where
  "ip_mask ip msk =
     (let ip' = (if length msk = 4 \<and> length ip = 16 \<and> take 12 ip = v4InV6Prefix
                 then drop 12 ip else ip)
      in if length ip' = length msk then map2 (AND) ip' msk else [])"

definition ParseCIDR :: "golib \<Rightarrow> string \<Rightarrow> ipnet option" where
  "ParseCIDR L s =
     (case Cut s (CHR ''/'') of
        None \<Rightarrow> None
      | Some (addr, msk) \<Rightarrow>
          (case ParseAddr L addr of
             None \<Rightarrow> None
           | Some a \<Rightarrow>
               (case dtoi msk of
                  None \<Rightarrow> None
                | Some n \<Rightarrow>
                    if 8 * length a < n then None
                    else let m = CIDRMask n (length a)
                         in Some \<lparr>net_ip = ip_mask (As16 a) m, net_mask = m\<rparr>)))"

definition network_number_mask :: "ipnet \<Rightarrow> (byte list \<times> byte list) option" where
  "network_number_mask n =
     (let ip = (case To4 (net_ip n) of Some x \<Rightarrow> x | None \<Rightarrow> net_ip n); m = net_mask n
      in if length ip \<noteq> 4 \<and> length ip \<noteq> 16 then None
         else if length m = 4 then (if length ip = 4 then Some (ip, m) else None)
         else if length m = 16 then Some (ip, if length ip = 4 then drop 12 m else m)
         else None)"

definition net_contains :: "ipnet \<Rightarrow> byte list \<Rightarrow> bool" where
  "net_contains n ip =
     (let ip' = (case To4 ip of Some x \<Rightarrow> x | None \<Rightarrow> ip)
      in case network_number_mask n of
           None \<Rightarrow> ip' = []
         | Some (nn, m) \<Rightarrow> length ip' = length nn \<and> map2 (AND) nn m = map2 (AND) ip' m)"

section \<open>Leading bits\<close>

text \<open>The bits of an address, most significant first.\<close>

definition byte_bits :: "byte \<Rightarrow> bool list" where
  "byte_bits w = map (bit w) [7, 6, 5, 4, 3, 2, 1, 0]"

definition addr_bits :: "byte list \<Rightarrow> bool list" where
  "addr_bits a = concat (map byte_bits a)"

lemma length_byte_bits [simp]: "length (byte_bits w) = 8"
  by (simp add: byte_bits_def)

lemma addr_bits_Cons: "addr_bits (w # ws) = byte_bits w @ addr_bits ws"
  by (simp add: addr_bits_def)

lemma byte_eq_bits: "a = b \<longleftrightarrow> byte_bits a = byte_bits (b :: byte)"
proof
  assume h: "byte_bits a = byte_bits b"
  show "a = b"
  proof (rule bit_word_eqI)
    fix n :: nat
    assume "n < LENGTH(8)"
    then have "n < 8" by simp
    then have "n = 0 \<or> n = 1 \<or> n = 2 \<or> n = 3 \<or> n = 4 \<or> n = 5 \<or> n = 6 \<or> n = 7" by linarith
    with h show "bit a n = bit b n" by (auto simp: byte_bits_def)
  qed
qed simp

lemma mask_bit: "n \<le> 8 \<Longrightarrow> k < 8 \<Longrightarrow> bit (NOT (drop_bit n 255) :: byte) k = (8 \<le> n + k)"
proof -
  assume "n \<le> 8" and k: "k < 8"
  have m: "(255 :: byte) = mask 8" by (simp add: mask_eq_exp_minus_1)
  have "bit (NOT (drop_bit n 255) :: byte) k = (\<not> bit (255 :: byte) (n + k))"
    using k by (simp add: bit_not_iff bit_drop_bit_eq)
  also have "\<dots> = (8 \<le> n + k)"
    unfolding m by (simp add: bit_mask_iff not_less)
  finally show ?thesis .
qed

lemma and_mask_eq_iff:
  fixes a b :: byte
  assumes n: "n < 8"
  shows "a AND NOT (drop_bit n 255) = b AND NOT (drop_bit n 255)
         \<longleftrightarrow> take n (byte_bits a) = take n (byte_bits b)"
proof -
  have bits: "a AND NOT (drop_bit n 255) = b AND NOT (drop_bit n 255)
      \<longleftrightarrow> (\<forall>k<8. 8 \<le> n + k \<longrightarrow> bit a k = bit b k)" (is "?l \<longleftrightarrow> ?r")
  proof
    assume h: ?l
    show ?r
    proof (intro allI impI)
      fix k :: nat
      assume k: "k < 8" and nk: "8 \<le> n + k"
      from h have "bit (a AND NOT (drop_bit n 255)) k = bit (b AND NOT (drop_bit n 255)) k" by simp
      then show "bit a k = bit b k"
        using mask_bit [of n k] n k nk by (simp only: bit_and_iff) simp
    qed
  next
    assume h: ?r
    show ?l
    proof (rule bit_word_eqI)
      fix k :: nat
      assume "k < LENGTH(8)"
      then have k: "k < 8" by simp
      show "bit (a AND NOT (drop_bit n 255)) k = bit (b AND NOT (drop_bit n 255)) k"
        using mask_bit [of n k] n k h by (simp only: bit_and_iff) auto
    qed
  qed
  have "n = 0 \<or> n = 1 \<or> n = 2 \<or> n = 3 \<or> n = 4 \<or> n = 5 \<or> n = 6 \<or> n = 7"
    using n by linarith
  moreover have "(\<forall>k<8. P k) \<longleftrightarrow> P 0 \<and> P 1 \<and> P 2 \<and> P 3 \<and> P 4 \<and> P 5 \<and> P 6 \<and> P (7::nat)" for P
    by (simp add: numeral_eq_Suc All_less_Suc) blast
  ultimately show ?thesis
    unfolding bits by (elim disjE) (simp_all add: byte_bits_def, blast+)
qed

lemma masked_eq_iff_prefix:
  assumes "length a = l" and "length b = l" and "n \<le> 8 * l"
  shows "map2 (AND) a (CIDRMask n l) = map2 (AND) b (CIDRMask n l)
         \<longleftrightarrow> take n (addr_bits a) = take n (addr_bits b)"
  using assms
proof (induction l arbitrary: a b n)
  case (Suc l)
  obtain x a' where a: "a = x # a'" using Suc.prems(1) by (cases a) auto
  obtain y b' where b: "b = y # b'" using Suc.prems(2) by (cases b) auto
  have len: "length a' = l" "length b' = l" using Suc.prems a b by auto
  show ?case
  proof (cases "8 \<le> n")
    case True
    have "(255 :: byte) = - 1" by simp
    then have ff: "(w AND 255) = w" for w :: byte
      by (metis and.right_neutral)
    show ?thesis
      using True Suc.IH [OF len, of "n - 8"] Suc.prems(3)
      by (simp add: a b addr_bits_Cons ff byte_eq_bits [of x y])
  next
    case False
    then have "n < 8" by simp
    then show ?thesis
      using Suc.IH [OF len, of 0]
      by (simp add: a b addr_bits_Cons and_mask_eq_iff)
  qed
qed simp


lemma length_CIDRMask [simp]: "length (CIDRMask n l) = l"
  by (induction n l rule: CIDRMask.induct) auto

lemma map2_and_idem:
  fixes a m :: "byte list"
  assumes "length a = length m"
  shows "map2 (AND) (map2 (AND) a m) m = map2 (AND) a m"
  using assms by (induction a m rule: list_induct2) (simp_all add: and.assoc)

text \<open>Membership of an IPv4 address in an IPv4 block is agreement on the leading bits.\<close>

lemma net_contains_v4:
  assumes a: "length a = 4" and b: "length b = 4" and n: "n \<le> 32"
  shows "net_contains \<lparr>net_ip = ip_mask (As16 b) (CIDRMask n 4), net_mask = CIDRMask n 4\<rparr> (As16 a)
         \<longleftrightarrow> take n (addr_bits a) = take n (addr_bits b)"
proof -
  let ?m = "CIDRMask n 4"
  have v: "length v4InV6Prefix = 12" by (simp add: v4InV6Prefix_def)
  have ip: "ip_mask (As16 b) ?m = map2 (AND) b ?m"
    using b v by (simp add: ip_mask_def As16_def)
  have to4: "To4 (As16 a) = Some a"
    using a v by (simp add: To4_def As16_def)
  have nn: "network_number_mask \<lparr>net_ip = map2 (AND) b ?m, net_mask = ?m\<rparr> = Some (map2 (AND) b ?m, ?m)"
    using b by (simp add: network_number_mask_def To4_def Let_def)
  have "net_contains \<lparr>net_ip = map2 (AND) b ?m, net_mask = ?m\<rparr> (As16 a)
        \<longleftrightarrow> map2 (AND) b ?m = map2 (AND) a ?m"
    using a b by (simp add: net_contains_def to4 nn map2_and_idem)
  also have "\<dots> \<longleftrightarrow> take n (addr_bits b) = take n (addr_bits a)"
    using masked_eq_iff_prefix [of b 4 a n] a b n by simp
  finally show ?thesis unfolding ip by auto
qed

lemma Cut_Some_Contains: "Cut s c = Some r \<Longrightarrow> Contains s [c]"
  by (induction s arbitrary: r) (auto split: if_splits)

lemma Cut_Some_iff: "Cut s c = Some (a, b) \<longleftrightarrow> s = a @ c # b \<and> c \<notin> set a"
proof (induction s arbitrary: a)
  case (Cons d s)
  then show ?case by (cases a) auto
qed simp

end
