(* ===== verification/Abac.thy ===== *)
theory Abac
  imports Net
begin

text \<open>
  The attribute-based access control engine, package \<open>internal/abac\<close>: policies and their validation
  (\<open>policy.go\<close>), the evaluation context (\<open>context.go\<close>) and the evaluator (\<open>evaluator.go\<close>).  The locale
  \<open>deny_overrides\<close> states what a combining algorithm promises its callers; \<open>Evaluate\<close> is shown to
  keep that promise.
\<close>

section \<open>Policies (policy.go)\<close>

type_synonym Effect = string

definition Allow :: Effect where
  "Allow = ''Allow''"

definition Deny :: Effect where
  "Deny = ''Deny''"

datatype Condition =
  Condition (cAll: "Condition list") (cAny: "Condition list") (cNot: "Condition option")
    (cAttr: string) (cOp: string) (cValue: any)

record Policy =
  pID :: string
  pEffect :: Effect
  pResource :: string
  pCondition :: Condition
  pReason :: string

datatype cond_error = MixesGroupAndLeaf | EmptyCondition | LeafNeedsAttrAndOp

datatype policy_error =
    BadJSON
  | BadEffect string string
  | NoResource string
  | BadCondition string cond_error

fun first_error :: "('a \<Rightarrow> 'e option) \<Rightarrow> 'a list \<Rightarrow> 'e option" where
  "first_error f [] = None"
| "first_error f (x # xs) = (case f x of Some e \<Rightarrow> Some e | None \<Rightarrow> first_error f xs)"

lemma first_error_cong [fundef_cong]:
  "xs = ys \<Longrightarrow> (\<And>x. x \<in> set ys \<Longrightarrow> f x = g x) \<Longrightarrow> first_error f xs = first_error g ys"
  by (induction xs arbitrary: ys) (auto split: option.split)

fun validateCondition :: "Condition \<Rightarrow> cond_error option" where
  "validateCondition (Condition al an nt attr op v) =
     (let groups = (if al \<noteq> [] then 1 else 0) + (if an \<noteq> [] then 1 else 0)
                   + (if nt \<noteq> None then 1 else (0::nat));
          isLeaf = (attr \<noteq> [] \<or> op \<noteq> [])
      in if 0 < groups \<and> isLeaf then Some MixesGroupAndLeaf
         else if groups = 0 \<and> \<not> isLeaf then Some EmptyCondition
         else if isLeaf \<and> (attr = [] \<or> op = []) then Some LeafNeedsAttrAndOp
         else (case first_error validateCondition al of
                 Some e \<Rightarrow> Some e
               | None \<Rightarrow>
                   (case first_error validateCondition an of
                      Some e \<Rightarrow> Some e
                    | None \<Rightarrow> (case nt of Some c \<Rightarrow> validateCondition c | None \<Rightarrow> None))))"

definition check_policy :: "Policy \<Rightarrow> policy_error option" where
  "check_policy p =
     (if pEffect p \<noteq> Allow \<and> pEffect p \<noteq> Deny then Some (BadEffect (pID p) (pEffect p))
      else if pResource p = [] then Some (NoResource (pID p))
      else map_option (BadCondition (pID p)) (validateCondition (pCondition p)))"

text \<open>\<open>unmarshal\<close> stands for \<open>json.Unmarshal\<close> into a \<open>PolicySet\<close>.\<close>

definition ParsePolicySet ::
    "(string \<Rightarrow> Policy list option) \<Rightarrow> string \<Rightarrow> policy_error + Policy list" where
  "ParsePolicySet unmarshal data =
     (case unmarshal data of
        None \<Rightarrow> Inl BadJSON
      | Some ps \<Rightarrow> (case first_error check_policy ps of Some e \<Rightarrow> Inl e | None \<Rightarrow> Inr ps))"

section \<open>Evaluation context (context.go)\<close>

record BusinessHours =
  Timezone :: string
  Days :: "int list"
  StartHour :: int
  EndHour :: int

record Environment =
  CIDRRanges :: "(string \<times> string) list"
  BusinessHoursOf :: BusinessHours

record Context =
  cxUser :: attrs
  cxRequest :: attrs
  cxResource :: attrs
  cxTime :: instant
  cxEnvironment :: Environment

definition NewContext :: "attrs \<Rightarrow> attrs \<Rightarrow> instant \<Rightarrow> Environment \<Rightarrow> Context" where
  "NewContext user request now env =
     \<lparr>cxUser = user, cxRequest = request, cxResource = [], cxTime = now, cxEnvironment = env\<rparr>"

section \<open>Evaluator (evaluator.go)\<close>

record Decision =
  dEffect :: Effect
  dPolicy :: string
  dReason :: string

definition reasonOr :: "string \<Rightarrow> string \<Rightarrow> string" where
  "reasonOr reason fallback = (if reason \<noteq> [] then reason else fallback)"

definition resourceMatches :: "string \<Rightarrow> string \<Rightarrow> bool" where
  "resourceMatches pattern resource =
     (if HasSuffix pattern ''*'' then HasPrefix resource (TrimSuffix pattern ''*'')
      else pattern = resource)"

definition toFloat :: "any \<Rightarrow> rat option" where
  "toFloat v = (case v of ANum x \<Rightarrow> Some x | AInt n \<Rightarrow> Some (float64 n) | _ \<Rightarrow> None)"

definition isEmpty :: "any \<Rightarrow> bool" where
  "isEmpty v = (case v of AStr s \<Rightarrow> s = [] | ANil \<Rightarrow> True | _ \<Rightarrow> False)"

definition valuesEqual :: "golib \<Rightarrow> any \<Rightarrow> any \<Rightarrow> bool" where
  "valuesEqual L a b =
     (case (as_string a, as_string b) of
        (Some s, Some t) \<Rightarrow> s = t
      | _ \<Rightarrow>
          (case (toFloat a, toFloat b) of
             (Some x, Some y) \<Rightarrow> x = y
           | _ \<Rightarrow>
               (case (a, b) of
                  (ABool p, ABool q) \<Rightarrow> p = q
                | _ \<Rightarrow> sprintf_v L a = sprintf_v L b)))"

definition numericCompare :: "any \<Rightarrow> string \<Rightarrow> any \<Rightarrow> bool" where
  "numericCompare actual op want =
     (case (toFloat actual, toFloat want) of
        (Some a, Some w) \<Rightarrow>
          if op = ''gt'' then a > w
          else if op = ''ge'' then a \<ge> w
          else if op = ''lt'' then a < w
          else if op = ''le'' then a \<le> w
          else False
      | _ \<Rightarrow> False)"

fun walk :: "any \<Rightarrow> string list \<Rightarrow> any option" where
  "walk cur [] = Some cur"
| "walk cur (seg # segs) =
     (case cur of
        AObj mm \<Rightarrow> (case map_of mm seg of None \<Rightarrow> None | Some v \<Rightarrow> walk v segs)
      | _ \<Rightarrow> None)"

definition lookupPath :: "attrs \<Rightarrow> string \<Rightarrow> any option" where
  "lookupPath m path = walk (AObj m) (Split path (CHR ''.''))"

definition resolveAttr :: "golib \<Rightarrow> Context \<Rightarrow> string \<Rightarrow> any option" where
  "resolveAttr L ctx path =
     (case Cut path (CHR ''.'') of
        None \<Rightarrow> None
      | Some (ns, rest) \<Rightarrow>
          if ns = ''user'' then lookupPath (cxUser ctx) rest
          else if ns = ''request'' then lookupPath (cxRequest ctx) rest
          else if ns = ''resource'' then lookupPath (cxResource ctx) rest
          else if ns = ''time'' then
            (if rest = ''Now'' \<or> rest = ''Now()'' \<or> rest = ''now''
             then Some (AStr (fmt_time L (cxTime ctx))) else None)
          else None)"

definition ipInNamedOrLiteralCIDR ::
    "golib \<Rightarrow> string \<Rightarrow> string \<Rightarrow> (string \<times> string) list \<Rightarrow> bool" where
  "ipInNamedOrLiteralCIDR L ip cidrOrName named =
     (case ParseIP L ip of
        None \<Rightarrow> False
      | Some parsedIP \<Rightarrow>
          let c = (if \<not> Contains cidrOrName ''/''
                   then (case map_of named cidrOrName of Some resolved \<Rightarrow> resolved | None \<Rightarrow> cidrOrName)
                   else cidrOrName)
          in (case ParseCIDR L c of None \<Rightarrow> False | Some network \<Rightarrow> net_contains network parsedIP))"

text \<open>\<open>Time.In(loc)\<close> followed by \<open>Weekday\<close> and \<open>Hour\<close>; the epoch was a Thursday.\<close>

definition weekday :: "int \<Rightarrow> int" where
  "weekday sec = (sec div 86400 + 4) mod 7"

definition hour_of :: "int \<Rightarrow> int" where
  "hour_of sec = sec mod 86400 div 3600"

definition local_seconds :: "golib \<Rightarrow> instant \<Rightarrow> string \<Rightarrow> int" where
  "local_seconds L t tz =
     (case load_location L tz of
        None \<Rightarrow> t div 1000000000
      | Some off \<Rightarrow> if tz = [] then t div 1000000000 else t div 1000000000 + off t)"

definition inBusinessHours :: "golib \<Rightarrow> instant \<Rightarrow> BusinessHours \<Rightarrow> bool" where
  "inBusinessHours L t bh =
     (let sec = local_seconds L t (Timezone bh);
          dayOK = (Days bh = [] \<or> weekday sec \<in> set (Days bh))
      in dayOK \<and> StartHour bh \<le> hour_of sec \<and> hour_of sec < EndHour bh)"

definition evalLeaf :: "golib \<Rightarrow> string \<Rightarrow> string \<Rightarrow> any \<Rightarrow> Context \<Rightarrow> bool" where
  "evalLeaf L attr op v ctx =
     (if op = ''is'' then
        str_or_empty v = ''Business_Hours''
        \<and> inBusinessHours L (cxTime ctx) (BusinessHoursOf (cxEnvironment ctx))
      else
        let actual = resolveAttr L ctx attr in
        if op = ''pr'' \<or> op = ''exists'' then
          (case actual of None \<Rightarrow> False | Some a \<Rightarrow> \<not> isEmpty a)
        else if op = ''matches'' then
          (case actual of
             Some (AStr ip) \<Rightarrow>
               ipInNamedOrLiteralCIDR L ip (str_or_empty v) (CIDRRanges (cxEnvironment ctx))
           | _ \<Rightarrow> False)
        else if op = ''regex'' then
          (case (actual, v) of
             (Some (AStr s), AStr pattern) \<Rightarrow> regexp_match L pattern s = Some True
           | _ \<Rightarrow> False)
        else if op = ''in'' then
          (case (actual, v) of
             (Some a, AList vs) \<Rightarrow> list_ex (valuesEqual L a) vs
           | _ \<Rightarrow> False)
        else if op = ''contains'' then
          (case actual of
             Some (AStr a) \<Rightarrow> Contains a (str_or_empty v)
           | Some (AList as) \<Rightarrow> list_ex (\<lambda>a. valuesEqual L a v) as
           | Some (AStrs as) \<Rightarrow> list_ex (\<lambda>a. as_string v = Some a) as
           | _ \<Rightarrow> False)
        else if op = ''eq'' \<or> op = ''=='' then
          (case actual of None \<Rightarrow> False | Some a \<Rightarrow> valuesEqual L a v)
        else if op = ''ne'' \<or> op = ''!='' then
          (case actual of None \<Rightarrow> True | Some a \<Rightarrow> \<not> valuesEqual L a v)
        else if op = ''gt'' \<or> op = ''ge'' \<or> op = ''lt'' \<or> op = ''le'' then
          (case actual of None \<Rightarrow> False | Some a \<Rightarrow> numericCompare a op v)
        else False)"

fun evalCondition :: "golib \<Rightarrow> Condition \<Rightarrow> Context \<Rightarrow> bool" where
  "evalCondition L (Condition al an nt attr op v) ctx =
     (if al \<noteq> [] then list_all (\<lambda>c. evalCondition L c ctx) al
      else if an \<noteq> [] then list_ex (\<lambda>c. evalCondition L c ctx) an
      else (case nt of
              Some c \<Rightarrow> \<not> evalCondition L c ctx
            | None \<Rightarrow> evalLeaf L attr op v ctx))"

definition policy_applies :: "golib \<Rightarrow> string \<Rightarrow> Context \<Rightarrow> Policy \<Rightarrow> bool" where
  "policy_applies L resource ctx p =
     (resourceMatches (pResource p) resource \<and> evalCondition L (pCondition p) ctx)"

text \<open>The loop of \<open>Evaluate\<close>; the accumulator is the first allow policy seen.\<close>

fun evaluate_loop ::
    "golib \<Rightarrow> Policy list \<Rightarrow> string \<Rightarrow> Context \<Rightarrow> Policy option \<Rightarrow> Decision" where
  "evaluate_loop L [] resource ctx sawAllow =
     (case sawAllow of
        Some p \<Rightarrow> \<lparr>dEffect = Allow, dPolicy = pID p,
                    dReason = reasonOr (pReason p) ''allow policy matched''\<rparr>
      | None \<Rightarrow> \<lparr>dEffect = Deny, dPolicy = [],
                  dReason = ''no policy granted access (default deny)''\<rparr>)"
| "evaluate_loop L (p # ps) resource ctx sawAllow =
     (if \<not> resourceMatches (pResource p) resource then evaluate_loop L ps resource ctx sawAllow
      else if \<not> evalCondition L (pCondition p) ctx then evaluate_loop L ps resource ctx sawAllow
      else if pEffect p = Deny then
        \<lparr>dEffect = Deny, dPolicy = pID p,
         dReason = reasonOr (pReason p) ''explicit deny policy matched''\<rparr>
      else evaluate_loop L ps resource ctx (if sawAllow = None then Some p else sawAllow))"

definition Evaluate :: "golib \<Rightarrow> Policy list \<Rightarrow> string \<Rightarrow> Context \<Rightarrow> Decision" where
  "Evaluate L ps resource ctx = evaluate_loop L ps resource ctx None"


section \<open>The contract of a combining algorithm\<close>

text \<open>
  What the enforcement point relies on: a decision is Allow only through an applicable policy that
  is not a Deny, an applicable Deny always wins, and there is no third outcome.
\<close>

locale deny_overrides =
  fixes decide :: "'p list \<Rightarrow> 'd"
    and outcome :: "'d \<Rightarrow> bool"
    and applies :: "'p \<Rightarrow> bool"
    and denies :: "'p \<Rightarrow> bool"
  assumes outcome_iff:
    "outcome (decide ps) \<longleftrightarrow>
       (\<exists>p\<in>set ps. applies p \<and> \<not> denies p) \<and> \<not> (\<exists>p\<in>set ps. applies p \<and> denies p)"
begin

lemma empty_denied: "\<not> outcome (decide [])"
  by (simp add: outcome_iff)

lemma order_independent: "set ps = set qs \<Longrightarrow> outcome (decide ps) = outcome (decide qs)"
  by (simp add: outcome_iff)

lemma deny_wins: "p \<in> set ps \<Longrightarrow> applies p \<Longrightarrow> denies p \<Longrightarrow> \<not> outcome (decide ps)"
  by (auto simp: outcome_iff)

lemma adding_deny_never_grants:
  "denies p \<Longrightarrow> outcome (decide (xs @ p # ys)) \<Longrightarrow> outcome (decide (xs @ ys))"
  by (auto simp: outcome_iff)

lemma inapplicable_irrelevant: "outcome (decide ps) = outcome (decide (filter applies ps))"
  by (auto simp: outcome_iff)

end

section \<open>Evaluate keeps the contract\<close>

lemma first_error_None: "first_error f xs = None \<longleftrightarrow> (\<forall>x\<in>set xs. f x = None)"
  by (induction xs) (auto split: option.split)

lemma evaluate_loop_effect:
  "dEffect (evaluate_loop L ps resource ctx acc) = Allow \<longleftrightarrow>
     (acc \<noteq> None \<or> (\<exists>p\<in>set ps. policy_applies L resource ctx p \<and> pEffect p \<noteq> Deny))
     \<and> \<not> (\<exists>p\<in>set ps. policy_applies L resource ctx p \<and> pEffect p = Deny)"
proof (induction ps arbitrary: acc)
  case Nil
  then show ?case by (auto simp: Allow_def Deny_def split: option.split)
next
  case (Cons p ps)
  have ne: "Deny \<noteq> Allow" by (simp add: Allow_def Deny_def)
  show ?case
  proof (cases "policy_applies L resource ctx p")
    case False
    then have "evaluate_loop L (p # ps) resource ctx acc = evaluate_loop L ps resource ctx acc"
      by (auto simp: policy_applies_def)
    with False Cons.IH show ?thesis by auto
  next
    case True
    then have m: "resourceMatches (pResource p) resource" "evalCondition L (pCondition p) ctx"
      by (simp_all add: policy_applies_def)
    show ?thesis
    proof (cases "pEffect p = Deny")
      case True
      with m ne \<open>policy_applies L resource ctx p\<close> show ?thesis by auto
    next
      case False
      with m have "evaluate_loop L (p # ps) resource ctx acc
          = evaluate_loop L ps resource ctx (if acc = None then Some p else acc)"
        by simp
      with False Cons.IH [of "if acc = None then Some p else acc"] \<open>policy_applies L resource ctx p\<close>
      show ?thesis by auto
    qed
  qed
qed

interpretation abac: deny_overrides
  "\<lambda>ps. Evaluate L ps resource ctx" "\<lambda>d. dEffect d = Allow"
  "policy_applies L resource ctx" "\<lambda>p. pEffect p = Deny"
  for L resource ctx
  by unfold_locales (simp add: Evaluate_def evaluate_loop_effect)

lemma evaluate_two_outcomes:
  "dEffect (Evaluate L ps resource ctx) = Allow \<or> dEffect (Evaluate L ps resource ctx) = Deny"
proof -
  have "dEffect (evaluate_loop L ps resource ctx acc) = Allow
        \<or> dEffect (evaluate_loop L ps resource ctx acc) = Deny" for acc
    by (induction ps arbitrary: acc) (auto split: option.split)
  then show ?thesis by (simp add: Evaluate_def)
qed

text \<open>Which policy a decision names: the first applicable Deny, else the first applicable policy.\<close>

lemma evaluate_loop_names:
  "evaluate_loop L ps resource ctx acc =
     (case find (\<lambda>p. policy_applies L resource ctx p \<and> pEffect p = Deny) ps of
        Some p \<Rightarrow> \<lparr>dEffect = Deny, dPolicy = pID p,
                    dReason = reasonOr (pReason p) ''explicit deny policy matched''\<rparr>
      | None \<Rightarrow>
          (case (case acc of Some p \<Rightarrow> Some p | None \<Rightarrow> find (policy_applies L resource ctx) ps) of
             Some p \<Rightarrow> \<lparr>dEffect = Allow, dPolicy = pID p,
                         dReason = reasonOr (pReason p) ''allow policy matched''\<rparr>
           | None \<Rightarrow> \<lparr>dEffect = Deny, dPolicy = [],
                       dReason = ''no policy granted access (default deny)''\<rparr>))"
  by (induction ps arbitrary: acc) (auto simp: policy_applies_def split: option.split)

section \<open>Sample data\<close>

text \<open>A library whose open functions are trivial, and the policies of the package's tests.\<close>

definition plain_lib :: golib where
  "plain_lib = \<lparr>regexp_match = (\<lambda>p s. None), load_location = (\<lambda>tz. None),
     fmt_float = (\<lambda>x. ''0''), fmt_time = (\<lambda>t. []), parse_ipv6 = (\<lambda>s. None)\<rparr>"

definition leaf :: "string \<Rightarrow> string \<Rightarrow> any \<Rightarrow> Condition" where
  "leaf attr op v = Condition [] [] None attr op v"

definition eng_allow :: Policy where
  "eng_allow = \<lparr>pID = ''allow-all-eng'', pEffect = ''Allow'', pResource = ''DB'',
     pCondition = leaf ''user.Department'' ''eq'' (AStr ''Engineering''), pReason = []\<rparr>"

definition contractor_deny :: Policy where
  "contractor_deny = \<lparr>pID = ''deny-contractors'', pEffect = ''Deny'', pResource = ''DB'',
     pCondition = leaf ''user.EmploymentType'' ''eq'' (AStr ''Contractor''), pReason = []\<rparr>"

definition no_hours :: Environment where
  "no_hours = \<lparr>CIDRRanges = [], BusinessHoursOf =
     \<lparr>Timezone = [], Days = [], StartHour = 0, EndHour = 0\<rparr>\<rparr>"

definition user_context :: "attrs \<Rightarrow> Context" where
  "user_context user = NewContext user [] 0 no_hours"

section \<open>Properties of the evaluator\<close>

text \<open>
  C4: Access is granted exactly when some policy that applies to the resource and the context is
  not a Deny and no applicable policy is a Deny; every other request, one that no policy matches
  included, is denied.
\<close>

theorem evaluate_grants_iff:
  "dEffect (Evaluate L ps resource ctx) =
     (if (\<exists>p\<in>set ps. policy_applies L resource ctx p \<and> pEffect p \<noteq> Deny)
         \<and> \<not> (\<exists>p\<in>set ps. policy_applies L resource ctx p \<and> pEffect p = Deny)
      then Allow else Deny)"
  using abac.outcome_iff [of L ps resource ctx] evaluate_two_outcomes [of L ps resource ctx]
  by auto

text \<open>
  C34: The decision does not depend on the order of the policy file: any rearrangement of the
  policies gives the same effect.
\<close>

theorem evaluate_order_independent:
  assumes "mset ps = mset qs"
  shows "dEffect (Evaluate L ps resource ctx) = dEffect (Evaluate L qs resource ctx)"
proof -
  have "set ps = set qs" using assms by (rule mset_eq_setD)
  then have "(dEffect (Evaluate L ps resource ctx) = Allow) = (dEffect (Evaluate L qs resource ctx) = Allow)"
    by (rule abac.order_independent)
  then show ?thesis
    using evaluate_two_outcomes [of L ps resource ctx] evaluate_two_outcomes [of L qs resource ctx] by auto
qed

theorem evaluate_order_independent_witness:
  "dEffect (Evaluate plain_lib [eng_allow, contractor_deny] ''DB'' (user_context [])) =
   dEffect (Evaluate plain_lib [contractor_deny, eng_allow] ''DB'' (user_context []))"
  by (rule evaluate_order_independent) simp

text \<open>
  The decision names the policy it rests on: the first applicable Deny of the file if there is
  one, otherwise the first applicable policy, otherwise none with the default-deny reason.
\<close>

theorem evaluate_names_policy:
  "dPolicy (Evaluate L ps resource ctx) =
     (case find (\<lambda>p. policy_applies L resource ctx p \<and> pEffect p = Deny) ps of
        Some p \<Rightarrow> pID p
      | None \<Rightarrow> (case find (policy_applies L resource ctx) ps of Some p \<Rightarrow> pID p | None \<Rightarrow> []))"
  by (simp add: Evaluate_def evaluate_loop_names split: option.split)


fun well_formed_condition :: "Condition \<Rightarrow> bool" where
  "well_formed_condition (Condition al an nt attr op v) =
     (if al = [] \<and> an = [] \<and> nt = None then attr \<noteq> [] \<and> op \<noteq> []
      else attr = [] \<and> op = [] \<and> list_all well_formed_condition al
           \<and> list_all well_formed_condition an
           \<and> (case nt of None \<Rightarrow> True | Some c \<Rightarrow> well_formed_condition c))"

lemma validateCondition_None: "validateCondition c = None \<longleftrightarrow> well_formed_condition c"
proof (induction c)
  case (Condition al an nt attr op v)
  have al: "first_error validateCondition al = None \<longleftrightarrow> list_all well_formed_condition al"
    and an: "first_error validateCondition an = None \<longleftrightarrow> list_all well_formed_condition an"
    using Condition.IH(1,2) by (simp_all add: first_error_None list_all_iff)
  have nt: "\<And>c. nt = Some c \<Longrightarrow> validateCondition c = None \<longleftrightarrow> well_formed_condition c"
    using Condition.IH(3) by simp
  show ?case
    using al an nt
    by (cases "first_error validateCondition al"; cases "first_error validateCondition an";
        cases nt; cases "attr = []"; cases "op = []") (auto simp: Let_def)
qed


text \<open>
  C36: An IPv4 source address matches a literal IPv4 CIDR block exactly when the two addresses agree
  on the leading bits that the block's prefix length gives.
\<close>

theorem ipInCIDR_leading_bits:
  assumes "ParseAddr L ip = Some a" and "length a = 4"
    and "Cut cidr (CHR ''/'') = Some (addr, len)"
    and "ParseAddr L addr = Some b" and "length b = 4"
    and "dtoi len = Some n" and "n \<le> 32"
  shows "ipInNamedOrLiteralCIDR L ip cidr named
         \<longleftrightarrow> take n (addr_bits a) = take n (addr_bits b)"
proof -
  have "Contains cidr ''/''" using assms(3) by (rule Cut_Some_Contains)
  moreover have "ParseCIDR L cidr =
      Some \<lparr>net_ip = ip_mask (As16 b) (CIDRMask n 4), net_mask = CIDRMask n 4\<rparr>"
    using assms by (simp add: ParseCIDR_def Let_def)
  ultimately show ?thesis
    using assms net_contains_v4 [of a b n]
    by (simp add: ipInNamedOrLiteralCIDR_def ParseIP_def)
qed

theorem ipInCIDR_leading_bits_witness:
  "ipInNamedOrLiteralCIDR plain_lib ''10.0.5.9'' ''10.0.0.0/16'' []"
proof -
  have ip: "ParseAddr plain_lib ''10.0.5.9'' = Some [10, 0, 5, 9]"
    and addr: "ParseAddr plain_lib ''10.0.0.0'' = Some [10, 0, 0, 0]"
    and cut: "Cut ''10.0.0.0/16'' (CHR ''/'') = Some (''10.0.0.0'', ''16'')"
    and len: "dtoi ''16'' = Some 16"
    by code_simp+
  have "take 16 (addr_bits [10, 0, 5, 9]) = take 16 (addr_bits [10, 0, 0, 0])"
    by (simp add: addr_bits_def byte_bits_def)
  then show ?thesis
    using ipInCIDR_leading_bits [OF ip _ cut addr _ len, of "[]"] by simp
qed



text \<open>
  A leaf over an attribute that the context does not have never holds, except for the
  inequality operators and for the predicate \<open>is\<close>, which does not read the attribute.
\<close>

theorem missing_attribute_fails_closed:
  assumes "resolveAttr L ctx attr = None" and "evalLeaf L attr op v ctx"
  shows "op = ''is'' \<or> op = ''ne'' \<or> op = ''!=''"
  using assms by (auto simp: evalLeaf_def Let_def split: if_splits)

theorem missing_attribute_fails_closed_witness:
  "resolveAttr plain_lib (user_context []) ''user.Department'' = None
   \<and> evalLeaf plain_lib ''user.Department'' ''ne'' (AStr ''Sales'') (user_context [])
   \<and> (''ne'' = ''is'' \<or> ''ne'' = ''ne'' \<or> ''ne'' = ''!='')"
proof -
  have n: "resolveAttr plain_lib (user_context []) ''user.Department'' = None"
    and e: "evalLeaf plain_lib ''user.Department'' ''ne'' (AStr ''Sales'') (user_context [])"
    by code_simp+
  show ?thesis using n e missing_attribute_fails_closed [OF n e] by blast
qed

section \<open>The shipped policy file (policies/policies.json)\<close>

definition shipped_policies :: "Policy list" where
  "shipped_policies =
     [\<lparr>pID = ''allow-prod-db-engineering-vpc-hours'', pEffect = ''Allow'',
       pResource = ''Production_DB'',
       pCondition = Condition
         [leaf ''user.Department'' ''eq'' (AStr ''Engineering''),
          leaf ''request.Source_IP'' ''matches'' (AStr ''Vpc_Range''),
          leaf ''time.Now'' ''is'' (AStr ''Business_Hours'')] [] None [] [] ANil,
       pReason = ''Engineering may query the production database from the corporate VPC during business hours''\<rparr>,
      \<lparr>pID = ''allow-reports-all-employees'', pEffect = ''Allow'', pResource = ''Reports'',
       pCondition = leaf ''request.Source_IP'' ''matches'' (AStr ''Vpc_Range''),
       pReason = ''Any authenticated employee may view reports from the corporate VPC''\<rparr>,
      \<lparr>pID = ''deny-inactive-department'', pEffect = ''Deny'', pResource = ''*'',
       pCondition = Condition [] [] (Some (leaf ''user.Department'' ''pr'' ANil)) [] [] ANil,
       pReason = ''Explicit deny for anyone missing a Department attribute (e.g. an account SCIM has not fully provisioned yet)''\<rparr>]"

lemma NewContext_sel [simp]:
  "cxUser (NewContext u r t e) = u" "cxRequest (NewContext u r t e) = r"
  "cxTime (NewContext u r t e) = t" "cxEnvironment (NewContext u r t e) = e"
  by (simp_all add: NewContext_def)

lemma resolve_Department:
  "resolveAttr L ctx ''user.Department'' = map_of (cxUser ctx) ''Department''"
  by (simp add: resolveAttr_def lookupPath_def split: option.split)

lemma resolve_Source_IP:
  "resolveAttr L ctx ''request.Source_IP'' = map_of (cxRequest ctx) ''Source_IP''"
  by (simp add: resolveAttr_def lookupPath_def split: option.split)

lemma shipped_matches:
  "resourceMatches ''Production_DB'' ''Production_DB''" "\<not> resourceMatches ''Reports'' ''Production_DB''"
  "resourceMatches ''*'' r"
  by (simp_all add: resourceMatches_def HasSuffix_def HasPrefix_def TrimSuffix_def suffix_def)

text \<open>
  The shipped policies open \<open>Production_DB\<close> to a user whose Department is a string exactly when
  that string is Engineering, the source address lies in \<open>Vpc_Range\<close> and the moment is in business
  hours, as the motivating rule of the package says.
\<close>

theorem shipped_production_db:
  assumes "map_of user ''Department'' = Some (AStr dept)"
    and "map_of request ''Source_IP'' = Some (AStr ip)"
  shows "dEffect (Evaluate L shipped_policies ''Production_DB'' (NewContext user request now env)) = Allow
    \<longleftrightarrow> dept = ''Engineering''
        \<and> ipInNamedOrLiteralCIDR L ip ''Vpc_Range'' (CIDRRanges env)
        \<and> inBusinessHours L now (BusinessHoursOf env)"
proof -
  let ?ctx = "NewContext user request now env"
  have dep: "resolveAttr L ?ctx ''user.Department'' = Some (AStr dept)"
    and src: "resolveAttr L ?ctx ''request.Source_IP'' = Some (AStr ip)"
    using assms by (simp_all add: resolve_Department resolve_Source_IP)
  have "evalLeaf L ''user.Department'' ''eq'' (AStr ''Engineering'') ?ctx = (dept = ''Engineering'')"
    and "evalLeaf L ''user.Department'' ''pr'' ANil ?ctx = (dept \<noteq> [])"
    by (simp_all add: evalLeaf_def Let_def dep valuesEqual_def as_string_def isEmpty_def)
  moreover have "evalLeaf L ''request.Source_IP'' ''matches'' (AStr ''Vpc_Range'') ?ctx =
      ipInNamedOrLiteralCIDR L ip ''Vpc_Range'' (CIDRRanges env)"
    by (simp add: evalLeaf_def Let_def src str_or_empty_def)
  moreover have "evalLeaf L ''time.Now'' ''is'' (AStr ''Business_Hours'') ?ctx =
      inBusinessHours L now (BusinessHoursOf env)"
    by (simp add: evalLeaf_def str_or_empty_def)
  ultimately show ?thesis
    unfolding evaluate_grants_iff shipped_policies_def
    by (auto simp: policy_applies_def shipped_matches leaf_def Allow_def Deny_def)
qed

theorem shipped_production_db_witness:
  "\<not> dEffect (Evaluate plain_lib shipped_policies ''Production_DB''
      (NewContext [(''Department'', AStr ''Sales'')] [(''Source_IP'', AStr ''10.0.5.9'')] 0 no_hours)) = Allow"
proof -
  have d: "map_of [(''Department'', AStr ''Sales'')] ''Department'' = Some (AStr ''Sales'')"
    and i: "map_of [(''Source_IP'', AStr ''10.0.5.9'')] ''Source_IP'' = Some (AStr ''10.0.5.9'')"
    by simp_all
  show ?thesis using shipped_production_db [OF d i, of plain_lib 0 no_hours] by simp
qed

text \<open>
  Validation accepts a condition that sets both \<open>all\<close> and \<open>any\<close>, and evaluation then ignores the
  \<open>any\<close> group: such a condition can hold although none of its \<open>any\<close> alternatives does.
\<close>

theorem mixed_groups_ignore_any:
  "\<exists>c ctx. validateCondition c = None \<and> cAny c \<noteq> []
           \<and> evalCondition plain_lib c ctx \<and> \<not> list_ex (\<lambda>a. evalCondition plain_lib a ctx) (cAny c)"
proof (intro exI conjI)
  let ?c = "Condition [leaf ''user.Department'' ''eq'' (AStr ''Sales'')]
                      [leaf ''user.Level'' ''eq'' (AStr ''Senior'')] None [] [] ANil"
  let ?ctx = "user_context [(''Department'', AStr ''Sales'')]"
  show "validateCondition ?c = None" by code_simp
  show "cAny ?c \<noteq> []" by simp
  show "evalCondition plain_lib ?c ?ctx" by code_simp
  show "\<not> list_ex (\<lambda>a. evalCondition plain_lib a ?ctx) (cAny ?c)" by code_simp
qed

end
