(* ===== verification/Store.thy ===== *)
theory Store
  imports Values
begin

text \<open>
  The persistence layer, package \<open>internal/store\<close>: the tables of the SQLite schema (\<open>store.go\<close>) as
  lists of rows in the order of insertion, with the operations of \<open>users.go\<close>, \<open>groups.go\<close> and
  \<open>sessions.go\<close> on them.  A statement that would break a PRIMARY KEY or UNIQUE constraint fails as the
  driver reports it; \<open>time.Now\<close>, \<open>uuid.NewString\<close> and the random identifiers are arguments.  Other
  failures of the database (I/O errors) are not modelled.  Operations that write return their result
  together with the new state of the database.
\<close>

section \<open>Records (users.go, groups.go, sessions.go)\<close>

datatype store_error = ErrNotFound | ErrConflict | ErrSQL | ErrRand

record User =
  uID :: string
  uTenantID :: string
  uExternalID :: string
  uUserName :: string
  uGivenName :: string
  uFamilyName :: string
  uDisplayName :: string
  uEmail :: string
  uDepartment :: string
  uActive :: bool
  uAttributes :: attrs
  uVersion :: int
  uCreatedAt :: instant
  uUpdatedAt :: instant

record Group =
  gID :: string
  gTenantID :: string
  gExternalID :: string
  gDisplayName :: string
  gMembers :: "string list"
  gVersion :: int
  gCreatedAt :: instant
  gUpdatedAt :: instant

record Session =
  sID :: string
  sTenantID :: string
  sUserID :: string
  sSubject :: string
  sAttributes :: attrs
  sAuthMethod :: string
  sCreatedAt :: instant
  sExpiresAt :: instant

record OIDCRequest =
  oState :: string
  oTenantID :: string
  oNonce :: string
  oPKCEVerifier :: string
  oRelayState :: string

section \<open>Tables (the schema of store.go)\<close>

record user_row =
  ur_id :: string
  ur_tenant_id :: string
  ur_external_id :: "string option"
  ur_user_name :: string
  ur_given_name :: "string option"
  ur_family_name :: "string option"
  ur_display_name :: "string option"
  ur_email :: "string option"
  ur_department :: "string option"
  ur_active :: int
  ur_attributes :: attrs
  ur_version :: int
  ur_created_at :: instant
  ur_updated_at :: instant

record group_row =
  gr_id :: string
  gr_tenant_id :: string
  gr_external_id :: "string option"
  gr_display_name :: string
  gr_version :: int
  gr_created_at :: instant
  gr_updated_at :: instant

record saml_request =
  sr_request_id :: string
  sr_tenant_id :: string
  sr_relay_state :: string
  sr_created_at :: instant
  sr_expires_at :: instant

record oidc_request_row =
  or_request :: OIDCRequest
  or_created_at :: instant
  or_expires_at :: instant

record used_assertion =
  ua_assertion_id :: string
  ua_tenant_id :: string
  ua_expires_at :: instant

record Store =
  users :: "user_row list"
  groups :: "group_row list"
  group_members :: "(string \<times> string) list"
  sessions :: "Session list"
  saml_requests :: "saml_request list"
  oidc_requests :: "oidc_request_row list"
  used_saml_assertions :: "used_assertion list"

definition empty_store :: Store where
  "empty_store = \<lparr>users = [], groups = [], group_members = [], sessions = [], saml_requests = [],
     oidc_requests = [], used_saml_assertions = []\<rparr>"

definition user_clash :: "user_row \<Rightarrow> user_row \<Rightarrow> bool" where
  "user_clash r s = (ur_id r = ur_id s
     \<or> (ur_tenant_id r = ur_tenant_id s \<and> ur_user_name r = ur_user_name s))"

definition group_clash :: "group_row \<Rightarrow> group_row \<Rightarrow> bool" where
  "group_clash r s = (gr_id r = gr_id s
     \<or> (gr_tenant_id r = gr_tenant_id s \<and> gr_display_name r = gr_display_name s))"

text \<open>INSERT of a row: \<open>None\<close> is the driver's UNIQUE constraint failure.\<close>

definition insert_row :: "('r \<Rightarrow> 'r \<Rightarrow> bool) \<Rightarrow> 'r \<Rightarrow> 'r list \<Rightarrow> 'r list option" where
  "insert_row clash r rows = (if list_ex (clash r) rows then None else Some (rows @ [r]))"

section \<open>Users (users.go)\<close>

definition nullable :: "string \<Rightarrow> string option" where
  "nullable s = (if s = [] then None else Some s)"

definition null_string :: "string option \<Rightarrow> string" where
  "null_string c = (case c of None \<Rightarrow> [] | Some s \<Rightarrow> s)"

definition boolInt :: "bool \<Rightarrow> int" where
  "boolInt b = (if b then 1 else 0)"

definition scanUser :: "user_row \<Rightarrow> User" where
  "scanUser r = \<lparr>uID = ur_id r, uTenantID = ur_tenant_id r, uExternalID = null_string (ur_external_id r),
     uUserName = ur_user_name r, uGivenName = null_string (ur_given_name r),
     uFamilyName = null_string (ur_family_name r), uDisplayName = null_string (ur_display_name r),
     uEmail = null_string (ur_email r), uDepartment = null_string (ur_department r),
     uActive = (ur_active r \<noteq> 0), uAttributes = ur_attributes r, uVersion = ur_version r,
     uCreatedAt = ur_created_at r, uUpdatedAt = ur_updated_at r\<rparr>"

definition user_row_of :: "User \<Rightarrow> user_row" where
  "user_row_of u = \<lparr>ur_id = uID u, ur_tenant_id = uTenantID u, ur_external_id = nullable (uExternalID u),
     ur_user_name = uUserName u, ur_given_name = nullable (uGivenName u),
     ur_family_name = nullable (uFamilyName u), ur_display_name = nullable (uDisplayName u),
     ur_email = nullable (uEmail u), ur_department = nullable (uDepartment u),
     ur_active = boolInt (uActive u), ur_attributes = json_attrs (uAttributes u),
     ur_version = uVersion u, ur_created_at = uCreatedAt u, ur_updated_at = uUpdatedAt u\<rparr>"

definition CreateUser :: "Store \<Rightarrow> string \<Rightarrow> instant \<Rightarrow> User \<Rightarrow> (store_error + User) \<times> Store" where
  "CreateUser st uuid now u =
     (let u = (if uID u = [] then u\<lparr>uID := uuid\<rparr> else u);
          u = u\<lparr>uCreatedAt := now, uUpdatedAt := now, uVersion := 1\<rparr>
      in case insert_row user_clash (user_row_of u) (users st) of
           None \<Rightarrow> (Inl ErrConflict, st)
         | Some rows \<Rightarrow> (Inr u, st\<lparr>users := rows\<rparr>))"

definition GetUser :: "Store \<Rightarrow> string \<Rightarrow> string \<Rightarrow> store_error + User" where
  "GetUser st tenantID rid =
     (case find (\<lambda>r. ur_tenant_id r = tenantID \<and> ur_id r = rid) (users st) of
        None \<Rightarrow> Inl ErrNotFound | Some r \<Rightarrow> Inr (scanUser r))"

definition FindUserByUserName :: "Store \<Rightarrow> string \<Rightarrow> string \<Rightarrow> store_error + User" where
  "FindUserByUserName st tenantID userName =
     (case find (\<lambda>r. ur_tenant_id r = tenantID \<and> ur_user_name r = userName) (users st) of
        None \<Rightarrow> Inl ErrNotFound | Some r \<Rightarrow> Inr (scanUser r))"

definition FindUserByExternalID :: "Store \<Rightarrow> string \<Rightarrow> string \<Rightarrow> store_error + User" where
  "FindUserByExternalID st tenantID externalID =
     (case find (\<lambda>r. ur_tenant_id r = tenantID \<and> ur_external_id r = Some externalID) (users st) of
        None \<Rightarrow> Inl ErrNotFound | Some r \<Rightarrow> Inr (scanUser r))"

definition ListUsers :: "Store \<Rightarrow> string \<Rightarrow> User list" where
  "ListUsers st tenantID =
     map scanUser (sort_key (\<lambda>r. (time_text (ur_created_at r), ur_id r))
                     (filter (\<lambda>r. ur_tenant_id r = tenantID) (users st)))"

text \<open>
  The UPDATE of \<open>ReplaceUser\<close>: it selects by tenant and id (at most one row) and fails when another
  row of the tenant has the new user name.
\<close>

definition update_user_row :: "user_row \<Rightarrow> User \<Rightarrow> user_row" where
  "update_user_row r u = (user_row_of u)\<lparr>ur_id := ur_id r, ur_tenant_id := ur_tenant_id r,
     ur_created_at := ur_created_at r\<rparr>"

definition ReplaceUser :: "Store \<Rightarrow> instant \<Rightarrow> User \<Rightarrow> (store_error + User) \<times> Store" where
  "ReplaceUser st now u =
     (let u = u\<lparr>uUpdatedAt := now, uVersion := uVersion u + 1\<rparr>;
          hit = (\<lambda>r. ur_tenant_id r = uTenantID u \<and> ur_id r = uID u)
      in if \<not> list_ex hit (users st) then (Inl ErrNotFound, st)
         else if list_ex (\<lambda>r. \<not> hit r \<and> ur_tenant_id r = uTenantID u \<and> ur_user_name r = uUserName u)
                   (users st)
         then (Inl ErrConflict, st)
         else (Inr u, st\<lparr>users := map (\<lambda>r. if hit r then update_user_row r u else r) (users st)\<rparr>))"

definition DeleteUser :: "Store \<Rightarrow> string \<Rightarrow> string \<Rightarrow> (store_error + unit) \<times> Store" where
  "DeleteUser st tenantID rid =
     (let hit = (\<lambda>r. ur_tenant_id r = tenantID \<and> ur_id r = rid);
          st' = st\<lparr>users := filter (\<lambda>r. \<not> hit r) (users st),
                   group_members := filter (\<lambda>m. snd m \<noteq> rid) (group_members st)\<rparr>
      in (if list_ex hit (users st) then Inr () else Inl ErrNotFound, st'))"

section \<open>Groups (groups.go)\<close>

definition scanGroup :: "group_row \<Rightarrow> Group" where
  "scanGroup r = \<lparr>gID = gr_id r, gTenantID = gr_tenant_id r, gExternalID = null_string (gr_external_id r),
     gDisplayName = gr_display_name r, gMembers = [], gVersion = gr_version r,
     gCreatedAt = gr_created_at r, gUpdatedAt = gr_updated_at r\<rparr>"

definition group_row_of :: "Group \<Rightarrow> group_row" where
  "group_row_of g = \<lparr>gr_id = gID g, gr_tenant_id = gTenantID g, gr_external_id = nullable (gExternalID g),
     gr_display_name = gDisplayName g, gr_version = gVersion g,
     gr_created_at = gCreatedAt g, gr_updated_at = gUpdatedAt g\<rparr>"

definition loadMembers :: "Store \<Rightarrow> string \<Rightarrow> string list" where
  "loadMembers st groupID = sort (map snd (filter (\<lambda>m. fst m = groupID) (group_members st)))"

definition insert_or_ignore :: "(string \<times> string) list \<Rightarrow> string \<times> string \<Rightarrow> (string \<times> string) list" where
  "insert_or_ignore rows m = (if m \<in> set rows then rows else rows @ [m])"

definition replaceMembersTx ::
    "(string \<times> string) list \<Rightarrow> string \<Rightarrow> string list \<Rightarrow> (string \<times> string) list" where
  "replaceMembersTx rows groupID members =
     foldl (\<lambda>rs m. insert_or_ignore rs (groupID, m)) (filter (\<lambda>m. fst m \<noteq> groupID) rows) members"

definition CreateGroup :: "Store \<Rightarrow> string \<Rightarrow> instant \<Rightarrow> Group \<Rightarrow> (store_error + Group) \<times> Store" where
  "CreateGroup st uuid now g =
     (let g = (if gID g = [] then g\<lparr>gID := uuid\<rparr> else g);
          g = g\<lparr>gCreatedAt := now, gUpdatedAt := now, gVersion := 1\<rparr>
      in case insert_row group_clash (group_row_of g) (groups st) of
           None \<Rightarrow> (Inl ErrConflict, st)
         | Some rows \<Rightarrow>
             (Inr g, st\<lparr>groups := rows,
                        group_members := replaceMembersTx (group_members st) (gID g) (gMembers g)\<rparr>))"

definition GetGroup :: "Store \<Rightarrow> string \<Rightarrow> string \<Rightarrow> store_error + Group" where
  "GetGroup st tenantID rid =
     (case find (\<lambda>r. gr_tenant_id r = tenantID \<and> gr_id r = rid) (groups st) of
        None \<Rightarrow> Inl ErrNotFound
      | Some r \<Rightarrow> Inr ((scanGroup r)\<lparr>gMembers := loadMembers st (gr_id r)\<rparr>))"

definition FindGroupByExternalID :: "Store \<Rightarrow> string \<Rightarrow> string \<Rightarrow> store_error + Group" where
  "FindGroupByExternalID st tenantID externalID =
     (case find (\<lambda>r. gr_tenant_id r = tenantID \<and> gr_external_id r = Some externalID) (groups st) of
        None \<Rightarrow> Inl ErrNotFound
      | Some r \<Rightarrow> Inr ((scanGroup r)\<lparr>gMembers := loadMembers st (gr_id r)\<rparr>))"

definition ListGroups :: "Store \<Rightarrow> string \<Rightarrow> Group list" where
  "ListGroups st tenantID =
     map (\<lambda>r. (scanGroup r)\<lparr>gMembers := loadMembers st (gr_id r)\<rparr>)
       (sort_key (\<lambda>r. (time_text (gr_created_at r), gr_id r))
          (filter (\<lambda>r. gr_tenant_id r = tenantID) (groups st)))"

definition update_group_row :: "group_row \<Rightarrow> Group \<Rightarrow> group_row" where
  "update_group_row r g = r\<lparr>gr_external_id := nullable (gExternalID g),
     gr_display_name := gDisplayName g, gr_version := gVersion g, gr_updated_at := gUpdatedAt g\<rparr>"

definition ReplaceGroup :: "Store \<Rightarrow> instant \<Rightarrow> Group \<Rightarrow> (store_error + Group) \<times> Store" where
  "ReplaceGroup st now g =
     (let g = g\<lparr>gUpdatedAt := now, gVersion := gVersion g + 1\<rparr>;
          hit = (\<lambda>r. gr_tenant_id r = gTenantID g \<and> gr_id r = gID g)
      in if \<not> list_ex hit (groups st) then (Inl ErrNotFound, st)
         else if list_ex (\<lambda>r. \<not> hit r \<and> gr_tenant_id r = gTenantID g \<and> gr_display_name r = gDisplayName g)
                   (groups st)
         then (Inl ErrConflict, st)
         else (Inr g,
               st\<lparr>groups := map (\<lambda>r. if hit r then update_group_row r g else r) (groups st),
                  group_members := replaceMembersTx (group_members st) (gID g) (gMembers g)\<rparr>))"

definition DeleteGroup :: "Store \<Rightarrow> string \<Rightarrow> string \<Rightarrow> (store_error + unit) \<times> Store" where
  "DeleteGroup st tenantID rid =
     (let hit = (\<lambda>r. gr_tenant_id r = tenantID \<and> gr_id r = rid);
          st' = st\<lparr>groups := filter (\<lambda>r. \<not> hit r) (groups st),
                   group_members := filter (\<lambda>m. fst m \<noteq> rid) (group_members st)\<rparr>
      in (if list_ex hit (groups st) then Inr () else Inl ErrNotFound, st'))"

definition GroupsForUser :: "Store \<Rightarrow> string \<Rightarrow> string \<Rightarrow> string list" where
  "GroupsForUser st tenantID userID =
     map gr_id (filter (\<lambda>r. gr_tenant_id r = tenantID \<and> (gr_id r, userID) \<in> set (group_members st))
                  (groups st))"

section \<open>Sessions and login requests (sessions.go)\<close>

text \<open>\<open>rnd\<close> is the result of \<open>randomID(32)\<close>, \<open>None\<close> when the random source fails.\<close>

definition CreateSession ::
    "Store \<Rightarrow> string option \<Rightarrow> instant \<Rightarrow> Session \<Rightarrow> int \<Rightarrow> (store_error + Session) \<times> Store" where
  "CreateSession st rnd now sess ttl =
     (case rnd of
        None \<Rightarrow> (Inl ErrRand, st)
      | Some rid \<Rightarrow>
          let sess = sess\<lparr>sID := rid, sCreatedAt := now, sExpiresAt := now + ttl\<rparr>
          in case insert_row (\<lambda>a b. sID a = sID b)
                   (sess\<lparr>sAttributes := json_attrs (sAttributes sess)\<rparr>) (sessions st) of
               None \<Rightarrow> (Inl ErrSQL, st)
             | Some rows \<Rightarrow> (Inr sess, st\<lparr>sessions := rows\<rparr>))"

definition DeleteSession :: "Store \<Rightarrow> string \<Rightarrow> Store" where
  "DeleteSession st rid = st\<lparr>sessions := filter (\<lambda>s. sID s \<noteq> rid) (sessions st)\<rparr>"

definition GetSession :: "Store \<Rightarrow> instant \<Rightarrow> string \<Rightarrow> (store_error + Session) \<times> Store" where
  "GetSession st now rid =
     (case find (\<lambda>s. sID s = rid) (sessions st) of
        None \<Rightarrow> (Inl ErrNotFound, st)
      | Some sess \<Rightarrow>
          if now > sExpiresAt sess then (Inl ErrNotFound, DeleteSession st rid)
          else (Inr sess, st))"

definition MarkAssertionUsed ::
    "Store \<Rightarrow> instant \<Rightarrow> string \<Rightarrow> string \<Rightarrow> instant \<Rightarrow> bool \<times> Store" where
  "MarkAssertionUsed st now tenantID assertionID expiresAt =
     (let st = st\<lparr>used_saml_assertions :=
                   filter (\<lambda>r. \<not> time_text (ua_expires_at r) < time_text now)
                     (used_saml_assertions st)\<rparr>
      in case insert_row (\<lambda>a b. ua_tenant_id a = ua_tenant_id b \<and> ua_assertion_id a = ua_assertion_id b)
               \<lparr>ua_assertion_id = assertionID, ua_tenant_id = tenantID, ua_expires_at = expiresAt\<rparr>
               (used_saml_assertions st) of
           None \<Rightarrow> (True, st)
         | Some rows \<Rightarrow> (False, st\<lparr>used_saml_assertions := rows\<rparr>))"

definition PutSAMLRequest ::
    "Store \<Rightarrow> instant \<Rightarrow> string \<Rightarrow> string \<Rightarrow> string \<Rightarrow> int \<Rightarrow> (store_error + unit) \<times> Store" where
  "PutSAMLRequest st now requestID tenantID relayState ttl =
     (case insert_row (\<lambda>a b. sr_request_id a = sr_request_id b)
             \<lparr>sr_request_id = requestID, sr_tenant_id = tenantID, sr_relay_state = relayState,
              sr_created_at = now, sr_expires_at = now + ttl\<rparr> (saml_requests st) of
        None \<Rightarrow> (Inl ErrSQL, st)
      | Some rows \<Rightarrow> (Inr (), st\<lparr>saml_requests := rows\<rparr>))"

definition TakeSAMLRequest :: "Store \<Rightarrow> instant \<Rightarrow> string \<Rightarrow> string \<Rightarrow> string option \<times> Store" where
  "TakeSAMLRequest st now requestID tenantID =
     (case find (\<lambda>r. sr_request_id r = requestID \<and> sr_tenant_id r = tenantID) (saml_requests st) of
        None \<Rightarrow> (None, st)
      | Some r \<Rightarrow>
          let st' = st\<lparr>saml_requests := filter (\<lambda>r. sr_request_id r \<noteq> requestID) (saml_requests st)\<rparr>
          in (if now > sr_expires_at r then None else Some (sr_relay_state r), st'))"

definition PutOIDCRequest ::
    "Store \<Rightarrow> instant \<Rightarrow> OIDCRequest \<Rightarrow> int \<Rightarrow> (store_error + unit) \<times> Store" where
  "PutOIDCRequest st now r ttl =
     (case insert_row (\<lambda>a b. oState (or_request a) = oState (or_request b))
             \<lparr>or_request = r, or_created_at = now, or_expires_at = now + ttl\<rparr> (oidc_requests st) of
        None \<Rightarrow> (Inl ErrSQL, st)
      | Some rows \<Rightarrow> (Inr (), st\<lparr>oidc_requests := rows\<rparr>))"

definition TakeOIDCRequest :: "Store \<Rightarrow> instant \<Rightarrow> string \<Rightarrow> OIDCRequest option \<times> Store" where
  "TakeOIDCRequest st now state =
     (case find (\<lambda>r. oState (or_request r) = state) (oidc_requests st) of
        None \<Rightarrow> (None, st)
      | Some r \<Rightarrow>
          let st' = st\<lparr>oidc_requests := filter (\<lambda>r. oState (or_request r) \<noteq> state) (oidc_requests st)\<rparr>
          in (if now > or_expires_at r then None else Some (or_request r), st'))"

end
