(* ===== verification/StoreLaws.thy ===== *)
theory StoreLaws
  imports Store
begin

text \<open>
  Laws of the persistence layer.  The invariant collects the keys and UNIQUE constraints of the
  schema; every operation keeps it, so it holds in every reachable state of the database.  Two
  interfaces are stated as locales and discharged for the model: \<open>single_use\<close>, what the login flows
  rely on when they consume a pending request, and \<open>directory\<close>, the create/read/replace/delete
  contract of the provisioning server.
\<close>

section \<open>The invariant of the schema\<close>

definition user_name_key :: "user_row \<Rightarrow> string \<times> string" where
  "user_name_key r = (ur_tenant_id r, ur_user_name r)"

definition group_name_key :: "group_row \<Rightarrow> string \<times> string" where
  "group_name_key r = (gr_tenant_id r, gr_display_name r)"

definition assertion_key :: "used_assertion \<Rightarrow> string \<times> string" where
  "assertion_key r = (ua_tenant_id r, ua_assertion_id r)"

definition oidc_key :: "oidc_request_row \<Rightarrow> string" where
  "oidc_key r = oState (or_request r)"

definition store_inv :: "Store \<Rightarrow> bool" where
  "store_inv st \<longleftrightarrow>
     distinct (map ur_id (users st)) \<and> distinct (map user_name_key (users st))
     \<and> distinct (map gr_id (groups st)) \<and> distinct (map group_name_key (groups st))
     \<and> distinct (group_members st) \<and> distinct (map sID (sessions st))
     \<and> distinct (map sr_request_id (saml_requests st))
     \<and> distinct (map oidc_key (oidc_requests st))
     \<and> distinct (map assertion_key (used_saml_assertions st))"

lemma store_inv_empty: "store_inv empty_store"
  by (simp add: store_inv_def empty_store_def)

lemma insert_row_distinct:
  assumes "insert_row clash r rows = Some rows'" and "\<And>s. k r = k s \<Longrightarrow> clash r s"
    and "distinct (map k rows)"
  shows "distinct (map k rows')"
  using assms by (fastforce simp: insert_row_def list_ex_iff split: if_splits)

lemma insert_row_Some: "insert_row clash r rows = Some rows' \<Longrightarrow> rows' = rows @ [r] \<and> \<not> list_ex (clash r) rows"
  by (auto simp: insert_row_def split: if_splits)

lemma distinct_insert_or_ignore [simp]: "distinct rows \<Longrightarrow> distinct (insert_or_ignore rows m)"
  by (simp add: insert_or_ignore_def)

lemma distinct_fold_members:
  "distinct rows \<Longrightarrow> distinct (foldl (\<lambda>rs m. insert_or_ignore rs (g, m)) rows ms)"
  by (induction ms arbitrary: rows) simp_all

lemma distinct_replaceMembersTx [simp]:
  "distinct rows \<Longrightarrow> distinct (replaceMembersTx rows g ms)"
  by (simp add: replaceMembersTx_def distinct_fold_members)

lemma CreateUser_inv: "store_inv st \<Longrightarrow> store_inv (snd (CreateUser st uuid now u))"
  by (auto simp: CreateUser_def store_inv_def Let_def user_clash_def user_name_key_def
      split: option.splits elim!: insert_row_distinct)

lemma CreateGroup_inv: "store_inv st \<Longrightarrow> store_inv (snd (CreateGroup st uuid now g))"
  by (auto simp: CreateGroup_def store_inv_def Let_def group_clash_def group_name_key_def
      split: option.splits elim!: insert_row_distinct)

text \<open>Rewriting the one row with a given id keeps ids distinct, and names if the new name is free.\<close>

lemma map_update_ids:
  "(\<And>r. k (f r) = k r) \<Longrightarrow> map k (map (\<lambda>r. if P r then f r else r) rows) = map k rows"
  by (induction rows) auto

lemma map_update_distinct:
  assumes "distinct (map ident rows)" and "distinct (map k rows)"
    and "\<And>r. P r \<Longrightarrow> ident r = x"
    and "\<And>r. P r \<Longrightarrow> k (f r) = n"
    and "\<And>r. r \<in> set rows \<Longrightarrow> \<not> P r \<Longrightarrow> k r \<noteq> n"
  shows "distinct (map k (map (\<lambda>r. if P r then f r else r) rows))"
  using assms
proof (induction rows)
  case (Cons r rows)
  have tl: "distinct (map k (map (\<lambda>r. if P r then f r else r) rows))"
    by (rule Cons.IH) (use Cons.prems in auto)
  show ?case
  proof (cases "P r")
    case True
    then have "\<forall>s\<in>set rows. \<not> P s" using Cons.prems(1,3) by (auto simp: image_iff)
    then have "\<forall>s\<in>set rows. k (if P s then f s else s) \<noteq> k (f r)"
      using Cons.prems(4) [OF True] Cons.prems(5) by auto
    then show ?thesis using tl True by auto
  next
    case False
    have "k r \<noteq> n" using Cons.prems(5) [of r] False by simp
    then have "\<forall>s\<in>set rows. k (if P s then f s else s) \<noteq> k r"
      using Cons.prems(2,4) by (auto simp: image_iff)
    then show ?thesis using tl False by auto
  qed
qed simp

lemma ReplaceUser_inv:
  assumes "store_inv st"
  shows "store_inv (snd (ReplaceUser st now u))"
proof -
  let ?u = "u\<lparr>uUpdatedAt := now, uVersion := uVersion u + 1\<rparr>"
  let ?hit = "\<lambda>r. ur_tenant_id r = uTenantID u \<and> ur_id r = uID u"
  let ?rows = "map (\<lambda>r. if ?hit r then update_user_row r ?u else r) (users st)"
  have ids: "map ur_id ?rows = map ur_id (users st)"
    by (rule map_update_ids) (simp add: update_user_row_def)
  have names: "distinct (map user_name_key ?rows)"
    if "\<not> list_ex (\<lambda>r. \<not> ?hit r \<and> ur_tenant_id r = uTenantID u \<and> ur_user_name r = uUserName u) (users st)"
    using that assms
    by (intro map_update_distinct [where ident = ur_id and x = "uID u" and n = "(uTenantID u, uUserName u)"])
       (auto simp: store_inv_def user_name_key_def update_user_row_def user_row_of_def list_ex_iff)
  show ?thesis
    using assms names ids unfolding ReplaceUser_def store_inv_def
    by (simp add: Let_def cong: map_cong)
qed

lemma ReplaceGroup_inv:
  assumes "store_inv st"
  shows "store_inv (snd (ReplaceGroup st now g))"
proof -
  let ?g = "g\<lparr>gUpdatedAt := now, gVersion := gVersion g + 1\<rparr>"
  let ?hit = "\<lambda>r. gr_tenant_id r = gTenantID g \<and> gr_id r = gID g"
  let ?rows = "map (\<lambda>r. if ?hit r then update_group_row r ?g else r) (groups st)"
  have ids: "map gr_id ?rows = map gr_id (groups st)"
    by (rule map_update_ids) (simp add: update_group_row_def)
  have names: "distinct (map group_name_key ?rows)"
    if "\<not> list_ex (\<lambda>r. \<not> ?hit r \<and> gr_tenant_id r = gTenantID g \<and> gr_display_name r = gDisplayName g) (groups st)"
    using that assms
    by (intro map_update_distinct [where ident = gr_id and x = "gID g" and n = "(gTenantID g, gDisplayName g)"])
       (auto simp: store_inv_def group_name_key_def update_group_row_def list_ex_iff)
  show ?thesis
    using assms names ids unfolding ReplaceGroup_def store_inv_def
    by (simp add: Let_def cong: map_cong)
qed

lemma delete_inv:
  assumes "store_inv st"
  shows "store_inv (snd (DeleteUser st t i))" "store_inv (snd (DeleteGroup st t i))"
    "store_inv (DeleteSession st i)"
  using assms
  by (simp_all add: store_inv_def DeleteUser_def DeleteGroup_def DeleteSession_def Let_def
      distinct_map_filterI)

lemma session_inv:
  assumes "store_inv st"
  shows "store_inv (snd (CreateSession st rnd now sess ttl))" "store_inv (snd (GetSession st now i))"
  using assms delete_inv(3) [OF assms, of i]
  by (auto simp: store_inv_def CreateSession_def GetSession_def Let_def
      split: option.splits elim!: insert_row_distinct)

lemma MarkAssertionUsed_inv:
  "store_inv st \<Longrightarrow> store_inv (snd (MarkAssertionUsed st now t a e))"
  by (auto simp: store_inv_def MarkAssertionUsed_def Let_def assertion_key_def distinct_map_filterI
      split: option.splits elim!: insert_row_distinct)

lemma request_inv:
  assumes "store_inv st"
  shows "store_inv (snd (PutSAMLRequest st now i t rs ttl))" "store_inv (snd (TakeSAMLRequest st now i t))"
    "store_inv (snd (PutOIDCRequest st now r ttl))" "store_inv (snd (TakeOIDCRequest st now i))"
  using assms
  by (auto simp: store_inv_def PutSAMLRequest_def TakeSAMLRequest_def PutOIDCRequest_def
      TakeOIDCRequest_def Let_def oidc_key_def distinct_map_filterI
      split: option.splits elim!: insert_row_distinct)

lemmas store_op_inv = CreateUser_inv CreateGroup_inv ReplaceUser_inv ReplaceGroup_inv delete_inv
  session_inv MarkAssertionUsed_inv request_inv

section \<open>Reachable databases\<close>

text \<open>One step is one call of an operation that writes.\<close>

inductive store_step :: "Store \<Rightarrow> Store \<Rightarrow> bool" where
  create_user: "store_step st (snd (CreateUser st uuid now u))"
| replace_user: "store_step st (snd (ReplaceUser st now u))"
| delete_user: "store_step st (snd (DeleteUser st t i))"
| create_group: "store_step st (snd (CreateGroup st uuid now g))"
| replace_group: "store_step st (snd (ReplaceGroup st now g))"
| delete_group: "store_step st (snd (DeleteGroup st t i))"
| create_session: "store_step st (snd (CreateSession st rnd now sess ttl))"
| get_session: "store_step st (snd (GetSession st now i))"
| delete_session: "store_step st (DeleteSession st i)"
| mark_assertion: "store_step st (snd (MarkAssertionUsed st now t a e))"
| put_saml: "store_step st (snd (PutSAMLRequest st now i t rs ttl))"
| take_saml: "store_step st (snd (TakeSAMLRequest st now i t))"
| put_oidc: "store_step st (snd (PutOIDCRequest st now r ttl))"
| take_oidc: "store_step st (snd (TakeOIDCRequest st now i))"

inductive reachable_store :: "Store \<Rightarrow> bool" where
  opened: "reachable_store empty_store"
| stepped: "reachable_store st \<Longrightarrow> store_step st st' \<Longrightarrow> reachable_store st'"

lemma store_step_inv: "store_step st st' \<Longrightarrow> store_inv st \<Longrightarrow> store_inv st'"
  by (induction rule: store_step.induct) (auto intro: store_op_inv)



definition blank_user :: User where
  "blank_user = \<lparr>uID = [], uTenantID = [], uExternalID = [], uUserName = [], uGivenName = [],
     uFamilyName = [], uDisplayName = [], uEmail = [], uDepartment = [], uActive = False,
     uAttributes = [], uVersion = 0, uCreatedAt = 0, uUpdatedAt = 0\<rparr>"


section \<open>Single-use tickets\<close>

text \<open>
  What a login flow relies on when it parks a request and later consumes it: a parked ticket can be
  taken while it has not expired, taking removes it, and other tickets are untouched.
\<close>

datatype ('k, 'v) ticket_op = PutOp instant 'k 'v int | TakeOp instant 'k

text \<open>Successful puts and takes of one ticket in a sequence of calls.\<close>

fun ticket_run ::
    "('st \<Rightarrow> instant \<Rightarrow> 'k \<Rightarrow> 'v \<Rightarrow> int \<Rightarrow> bool \<times> 'st) \<Rightarrow> ('st \<Rightarrow> instant \<Rightarrow> 'k \<Rightarrow> 'v option \<times> 'st)
     \<Rightarrow> 'k \<Rightarrow> 'st \<Rightarrow> ('k, 'v) ticket_op list \<Rightarrow> nat \<times> nat" where
  "ticket_run park claim k st [] = (0, 0)"
| "ticket_run park claim k st (PutOp now k' v ttl # ops) =
     (case park st now k' v ttl of (ok, st') \<Rightarrow>
        (case ticket_run park claim k st' ops of (p, t) \<Rightarrow> (if ok \<and> k' = k then Suc p else p, t)))"
| "ticket_run park claim k st (TakeOp now k' # ops) =
     (case claim st now k' of (r, st') \<Rightarrow>
        (case ticket_run park claim k st' ops of (p, t) \<Rightarrow> (p, if r \<noteq> None \<and> k' = k then Suc t else t)))"

locale single_use =
  fixes inv :: "'st \<Rightarrow> bool"
    and park :: "'st \<Rightarrow> instant \<Rightarrow> 'k \<Rightarrow> 'v \<Rightarrow> int \<Rightarrow> bool \<times> 'st"
    and claim :: "'st \<Rightarrow> instant \<Rightarrow> 'k \<Rightarrow> 'v option \<times> 'st"
    and pending :: "'st \<Rightarrow> 'k \<Rightarrow> ('v \<times> instant) option"
  assumes inv_put: "inv st \<Longrightarrow> inv (snd (park st now k v ttl))"
    and inv_take: "inv st \<Longrightarrow> inv (snd (claim st now k))"
    and pending_put: "inv st \<Longrightarrow> park st now k v ttl = (True, st') \<Longrightarrow>
          pending st k = None \<and> pending st' = (pending st)(k \<mapsto> (v, now + ttl))"
    and put_refused: "park st now k v ttl = (False, st') \<Longrightarrow> st' = st"
    and take_value: "inv st \<Longrightarrow> fst (claim st now k) =
          (case pending st k of None \<Rightarrow> None | Some (v, e) \<Rightarrow> if e < now then None else Some v)"
    and pending_take: "inv st \<Longrightarrow> pending (snd (claim st now k)) = (pending st)(k := None)"
begin

lemma put_then_take:
  assumes "inv st" and "park st now k v ttl = (True, st')" and "now' \<le> now + ttl"
  shows "fst (claim st' now' k) = Some v"
proof -
  have "inv st'" using inv_put [OF assms(1), of now k v ttl] assms(2) by simp
  then show ?thesis using pending_put [OF assms(1,2)] assms(3) by (simp add: take_value)
qed

lemma expired_take: "inv st \<Longrightarrow> pending st k = Some (v, e) \<Longrightarrow> e < now \<Longrightarrow> fst (claim st now k) = None"
  by (simp add: take_value)

lemma take_again: "inv st \<Longrightarrow> fst (claim (snd (claim st now k)) now' k) = None"
  by (simp add: take_value inv_take pending_take)

lemma takes_bounded_by_puts:
  assumes "inv st"
  shows "snd (ticket_run park claim k st ops)
         \<le> fst (ticket_run park claim k st ops) + (if pending st k = None then 0 else 1)"
  using assms
proof (induction ops arbitrary: st)
  case (Cons op ops)
  show ?case
  proof (cases op)
    case (PutOp now k' v ttl)
    obtain ok st' where p: "park st now k' v ttl = (ok, st')" by fastforce
    obtain a b where r: "ticket_run park claim k st' ops = (a, b)" by fastforce
    have "inv st'" using inv_put [OF Cons.prems, of now k' v ttl] p by simp
    then have IH: "b \<le> a + (if pending st' k = None then 0 else 1)"
      using Cons.IH [of st'] r by simp
    show ?thesis
    proof (cases ok)
      case True
      then have "pending st k' = None" "pending st' = (pending st)(k' \<mapsto> (v, now + ttl))"
        using pending_put [OF Cons.prems] p by auto
      then show ?thesis using IH p r True PutOp by (auto split: if_splits)
    next
      case False
      then have "st' = st" using put_refused [of st now k' v ttl st'] p by simp
      then show ?thesis using IH p r False PutOp by auto
    qed
  next
    case (TakeOp now k')
    obtain v st' where p: "claim st now k' = (v, st')" by fastforce
    obtain a b where r: "ticket_run park claim k st' ops = (a, b)" by fastforce
    have i: "inv st'" using inv_take [OF Cons.prems, of now k'] p by simp
    have pend: "pending st' = (pending st)(k' := None)" and val: "v \<noteq> None \<Longrightarrow> pending st k' \<noteq> None"
      using pending_take [OF Cons.prems, of now k'] take_value [OF Cons.prems, of now k'] p
      by (auto split: option.splits)
    have "b \<le> a + (if pending st' k = None then 0 else 1)"
      using Cons.IH [OF i] r by simp
    then show ?thesis using p r TakeOp pend val by (auto split: if_splits)
  qed
qed simp

end

definition saml_put :: "Store \<Rightarrow> instant \<Rightarrow> string \<times> string \<Rightarrow> string \<Rightarrow> int \<Rightarrow> bool \<times> Store" where
  "saml_put st now k relay ttl =
     (let r = PutSAMLRequest st now (fst k) (snd k) relay ttl in (fst r = Inr (), snd r))"

definition saml_take :: "Store \<Rightarrow> instant \<Rightarrow> string \<times> string \<Rightarrow> string option \<times> Store" where
  "saml_take st now k = TakeSAMLRequest st now (fst k) (snd k)"

definition saml_pending :: "Store \<Rightarrow> string \<times> string \<Rightarrow> (string \<times> instant) option" where
  "saml_pending st k =
     map_option (\<lambda>r. (sr_relay_state r, sr_expires_at r))
       (find (\<lambda>r. sr_request_id r = fst k \<and> sr_tenant_id r = snd k) (saml_requests st))"

lemma find_same_id:
  assumes "distinct (map f xs)" and "find (\<lambda>x. f x = i \<and> P x) xs = Some y"
  shows "find (\<lambda>x. f x = j \<and> Q x) (filter (\<lambda>x. f x \<noteq> i) xs)
         = (if j = i then None else find (\<lambda>x. f x = j \<and> Q x) xs)"
  by (induction xs) auto

interpretation saml: single_use store_inv saml_put saml_take saml_pending
proof
  fix st now k v ttl st'
  show "store_inv st \<Longrightarrow> store_inv (snd (saml_put st now k v ttl))"
    using request_inv(1) [of st now "fst k" "snd k" v ttl]
    by (simp add: saml_put_def Let_def)
  show "store_inv st \<Longrightarrow> store_inv (snd (saml_take st now k))"
    by (simp add: saml_take_def request_inv)
  show "saml_put st now k v ttl = (False, st') \<Longrightarrow> st' = st"
    by (auto simp: saml_put_def PutSAMLRequest_def Let_def split: option.splits)
  show "fst (saml_take st now k) =
      (case saml_pending st k of None \<Rightarrow> None | Some (v, e) \<Rightarrow> if e < now then None else Some v)"
    by (simp add: saml_take_def saml_pending_def TakeSAMLRequest_def Let_def split: option.splits)
  assume inv: "store_inv st"
  show "saml_pending st k = None \<and> saml_pending st' = (saml_pending st)(k \<mapsto> (v, now + ttl))"
    if "saml_put st now k v ttl = (True, st')"
  proof -
    have none: "\<forall>r\<in>set (saml_requests st). sr_request_id r \<noteq> fst k"
      and st': "saml_requests st' = saml_requests st @
         [\<lparr>sr_request_id = fst k, sr_tenant_id = snd k, sr_relay_state = v,
           sr_created_at = now, sr_expires_at = now + ttl\<rparr>]"
      using that
      by (auto simp: saml_put_def PutSAMLRequest_def insert_row_def list_ex_iff Let_def split: if_splits)
    have "find (\<lambda>r. sr_request_id r = fst k \<and> P r) (saml_requests st) = None" for P
      using none by (simp add: find_None_iff_ball)
    then show ?thesis
      using st' by (auto simp: saml_pending_def fun_eq_iff find_append split: option.splits)
  qed
  show "saml_pending (snd (saml_take st now k)) = (saml_pending st)(k := None)"
  proof (cases "find (\<lambda>r. sr_request_id r = fst k \<and> sr_tenant_id r = snd k) (saml_requests st)")
    case None
    then show ?thesis
      by (auto simp: saml_take_def TakeSAMLRequest_def saml_pending_def fun_eq_iff)
  next
    case (Some r)
    then have "saml_requests (snd (saml_take st now k)) =
        filter (\<lambda>r. sr_request_id r \<noteq> fst k) (saml_requests st)"
      by (simp add: saml_take_def TakeSAMLRequest_def Let_def)
    moreover have "saml_pending st k' = None" if "fst k' = fst k" "k' \<noteq> k" for k'
    proof -
      have "sr_tenant_id x \<noteq> snd k'" if "x \<in> set (saml_requests st)" "sr_request_id x = fst k" for x
      proof -
        have "x = r"
          using find_SomeD [OF Some] that inv by (auto simp: store_inv_def distinct_map inj_on_def)
        then show ?thesis using find_SomeD [OF Some] \<open>k' \<noteq> k\<close> \<open>fst k' = fst k\<close>
          by (metis prod.collapse)
      qed
      then show ?thesis using that by (auto simp: saml_pending_def find_None_iff_ball)
    qed
    ultimately show ?thesis
      using inv Some
      by (auto simp: saml_pending_def fun_eq_iff store_inv_def find_same_id)
  qed
qed


type_synonym oidc_ticket = "string \<times> string \<times> string \<times> string"

definition oidc_request_of :: "string \<Rightarrow> oidc_ticket \<Rightarrow> OIDCRequest" where
  "oidc_request_of state v =
     (case v of (tenant, nonce, verifier, relay) \<Rightarrow>
        \<lparr>oState = state, oTenantID = tenant, oNonce = nonce, oPKCEVerifier = verifier, oRelayState = relay\<rparr>)"

definition oidc_ticket_of :: "OIDCRequest \<Rightarrow> oidc_ticket" where
  "oidc_ticket_of r = (oTenantID r, oNonce r, oPKCEVerifier r, oRelayState r)"

definition oidc_put :: "Store \<Rightarrow> instant \<Rightarrow> string \<Rightarrow> oidc_ticket \<Rightarrow> int \<Rightarrow> bool \<times> Store" where
  "oidc_put st now state v ttl =
     (let r = PutOIDCRequest st now (oidc_request_of state v) ttl in (fst r = Inr (), snd r))"

definition oidc_take :: "Store \<Rightarrow> instant \<Rightarrow> string \<Rightarrow> oidc_ticket option \<times> Store" where
  "oidc_take st now state =
     (let r = TakeOIDCRequest st now state in (map_option oidc_ticket_of (fst r), snd r))"

definition oidc_pending :: "Store \<Rightarrow> string \<Rightarrow> (oidc_ticket \<times> instant) option" where
  "oidc_pending st state =
     map_option (\<lambda>r. (oidc_ticket_of (or_request r), or_expires_at r))
       (find (\<lambda>r. oState (or_request r) = state) (oidc_requests st))"

lemma oidc_ticket_roundtrip [simp]:
  "oidc_ticket_of (oidc_request_of state v) = v" "oState (oidc_request_of state v) = state"
  by (cases v; simp add: oidc_request_of_def oidc_ticket_of_def)+

interpretation oidc: single_use store_inv oidc_put oidc_take oidc_pending
proof
  fix st now k v ttl st'
  show "store_inv st \<Longrightarrow> store_inv (snd (oidc_put st now k v ttl))"
    and "store_inv st \<Longrightarrow> store_inv (snd (oidc_take st now k))"
    by (simp_all add: oidc_put_def oidc_take_def request_inv Let_def)
  show "oidc_put st now k v ttl = (False, st') \<Longrightarrow> st' = st"
    by (auto simp: oidc_put_def PutOIDCRequest_def Let_def split: option.splits)
  show "fst (oidc_take st now k) =
      (case oidc_pending st k of None \<Rightarrow> None | Some (v, e) \<Rightarrow> if e < now then None else Some v)"
    by (simp add: oidc_take_def oidc_pending_def TakeOIDCRequest_def Let_def split: option.splits)
  show "oidc_pending (snd (oidc_take st now k)) = (oidc_pending st)(k := None)"
  proof
    fix k'
    show "oidc_pending (snd (oidc_take st now k)) k' = ((oidc_pending st)(k := None)) k'"
      by (cases "k' = k")
         (simp_all add: oidc_take_def oidc_pending_def TakeOIDCRequest_def Let_def find_filter_key
          split: option.splits)
  qed
  assume "oidc_put st now k v ttl = (True, st')"
  then have none: "\<forall>r\<in>set (oidc_requests st). oState (or_request r) \<noteq> k"
    and st': "oidc_requests st' = oidc_requests st @
       [\<lparr>or_request = oidc_request_of k v, or_created_at = now, or_expires_at = now + ttl\<rparr>]"
    by (auto simp: oidc_put_def PutOIDCRequest_def insert_row_def list_ex_iff Let_def split: if_splits)
  have "find (\<lambda>r. oState (or_request r) = k) (oidc_requests st) = None"
    using none by (simp add: find_None_iff_ball)
  then show "oidc_pending st k = None \<and> oidc_pending st' = (oidc_pending st)(k \<mapsto> (v, now + ttl))"
    using st' by (auto simp: oidc_pending_def fun_eq_iff find_append split: option.splits)
qed

text \<open>
  A SAML request that was recorded can be taken by its tenant until it expires, gives back the
  relay state it was recorded with, and is gone afterwards: a second take, at any time, finds
  nothing.
\<close>

theorem saml_request_taken_once:
  assumes "store_inv st" and "PutSAMLRequest st now requestID tenantID relay ttl = (Inr (), st1)"
    and "now1 \<le> now + ttl"
  shows "fst (TakeSAMLRequest st1 now1 requestID tenantID) = Some relay
    \<and> fst (TakeSAMLRequest (snd (TakeSAMLRequest st1 now1 requestID tenantID)) now2 requestID tenantID) = None"
proof -
  have p: "saml_put st now (requestID, tenantID) relay ttl = (True, st1)"
    using assms(2) by (simp add: saml_put_def)
  have "store_inv st1"
    using saml.inv_put [OF assms(1), of now "(requestID, tenantID)" relay ttl] p by simp
  then show ?thesis
    using saml.put_then_take [OF assms(1) p assms(3)] saml.take_again [of st1 now1 "(requestID, tenantID)" now2]
    by (simp add: saml_take_def)
qed

theorem saml_request_taken_once_witness:
  "\<exists>st1. fst (TakeSAMLRequest st1 5 ''_r1'' ''acme'') = Some ''/home''
    \<and> fst (TakeSAMLRequest (snd (TakeSAMLRequest st1 5 ''_r1'' ''acme'')) 6 ''_r1'' ''acme'') = None"
proof -
  have "fst (PutSAMLRequest empty_store 0 ''_r1'' ''acme'' ''/home'' 10) = Inr ()"
    by (simp add: PutSAMLRequest_def insert_row_def empty_store_def)
  then obtain st1 where "PutSAMLRequest empty_store 0 ''_r1'' ''acme'' ''/home'' 10 = (Inr (), st1)"
    by (metis prod.collapse)
  then show ?thesis
    using saml_request_taken_once [OF store_inv_empty, of 0 "''_r1''" "''acme''" "''/home''" 10 st1 5 6]
    by auto
qed

text \<open>
  In any sequence of calls that record and take OIDC requests, each whole before the next, over any state values, a
  state is taken successfully at most as often as it was recorded successfully (counting a request
  already pending at the start): no authorization response is accepted twice for one login.
\<close>

theorem oidc_state_single_use:
  assumes "store_inv st"
  shows "snd (ticket_run oidc_put oidc_take state st ops)
         \<le> fst (ticket_run oidc_put oidc_take state st ops) + (if oidc_pending st state = None then 0 else 1)"
  by (rule oidc.takes_bounded_by_puts [OF assms])

theorem oidc_state_single_use_witness:
  "ticket_run oidc_put oidc_take ''s'' empty_store
     [PutOp 0 ''s'' (''acme'', ''n'', ''v'', ''/'') 10, TakeOp 1 ''s'', TakeOp 2 ''s''] = (1, 1)
   \<and> (1::nat) \<le> 1 + (if oidc_pending empty_store ''s'' = None then 0 else 1)"
proof -
  have "ticket_run oidc_put oidc_take ''s'' empty_store
     [PutOp 0 ''s'' (''acme'', ''n'', ''v'', ''/'') 10, TakeOp 1 ''s'', TakeOp 2 ''s''] = (1, 1)"
    by code_simp
  then show ?thesis
    using oidc_state_single_use [OF store_inv_empty, of "''s''"
      "[PutOp 0 ''s'' (''acme'', ''n'', ''v'', ''/'') 10, TakeOp 1 ''s'', TakeOp 2 ''s'']"]
    by simp
qed

section \<open>Used assertions\<close>

text \<open>A call of \<open>MarkAssertionUsed\<close>: its time, tenant, assertion id and expiry.\<close>

type_synonym mark_call = "instant \<times> string \<times> string \<times> instant"

text \<open>How often an assertion was accepted as new in a sequence of calls.\<close>

fun accepted_count :: "string \<Rightarrow> string \<Rightarrow> Store \<Rightarrow> mark_call list \<Rightarrow> nat" where
  "accepted_count t a st [] = 0"
| "accepted_count t a st ((now, t', a', e) # calls) =
     (case MarkAssertionUsed st now t' a' e of (used, st') \<Rightarrow>
        (if \<not> used \<and> t' = t \<and> a' = a then 1 else 0) + accepted_count t a st' calls)"

definition has_assertion :: "Store \<Rightarrow> string \<Rightarrow> string \<Rightarrow> instant \<Rightarrow> bool" where
  "has_assertion st t a e =
     list_ex (\<lambda>r. ua_tenant_id r = t \<and> ua_assertion_id r = a \<and> ua_expires_at r = e) (used_saml_assertions st)"

text \<open>An expiry on a whole second is not before any moment of its own second in the stored text.\<close>

lemma frac_text_Z_ge: "\<not> (''Z'' :: string) < frac_text n @ ''Z''"
proof (cases "n = 0")
  case False
  then obtain r where "frac_text n @ ''Z'' = CHR ''.'' # r" by (simp add: frac_text_def)
  moreover have "\<not> (CHR ''Z'' < CHR ''.'')" by (simp add: less_char_def)
  ultimately show ?thesis by (simp add: less_char_def)
qed (simp add: frac_text_def)

lemma whole_second_not_purged:
  assumes "e mod 1000000000 = 0" and "now div 1000000000 \<le> e div 1000000000"
  shows "\<not> time_text e < time_text now"
proof
  assume "time_text e < time_text now"
  with assms(2) have "e div 1000000000 = now div 1000000000"
    and "''Z'' < frac_text (nat (now mod 1000000000)) @ ''Z''"
    using assms(1) by (auto simp: time_text_def less_prod_def' frac_text_def)
  then show False using frac_text_Z_ge by blast
qed

lemma has_assertion_step:
  assumes "has_assertion st t a e" and "\<not> time_text e < time_text now"
  shows "has_assertion (snd (MarkAssertionUsed st now t' a' e')) t a e"
  using assms
  by (auto simp: has_assertion_def MarkAssertionUsed_def Let_def insert_row_def list_ex_iff
      split: option.splits if_splits)

lemma has_assertion_used:
  assumes "has_assertion st t a e" and "\<not> time_text e < time_text now"
  shows "fst (MarkAssertionUsed st now t a e')"
  using assms
  by (auto simp: has_assertion_def MarkAssertionUsed_def Let_def insert_row_def list_ex_iff
      split: option.splits if_splits)

lemma accepted_has_assertion:
  "\<not> fst (MarkAssertionUsed st now t a e) \<Longrightarrow> has_assertion (snd (MarkAssertionUsed st now t a e)) t a e"
  by (auto simp: has_assertion_def MarkAssertionUsed_def Let_def insert_row_def list_ex_iff
      split: option.splits if_splits)

lemma accepted_count_zero:
  assumes "has_assertion st t a e"
    and "\<forall>c\<in>set calls. \<not> time_text e < time_text (fst c)"
  shows "accepted_count t a st calls = 0"
  using assms
proof (induction calls arbitrary: st)
  case (Cons c calls)
  obtain now t' a' e' where c: "c = (now, t', a', e')" by (cases c)
  have "has_assertion (snd (MarkAssertionUsed st now t' a' e')) t a e"
    using has_assertion_step Cons.prems c by auto
  moreover have "t' = t \<and> a' = a \<longrightarrow> fst (MarkAssertionUsed st now t' a' e')"
    using has_assertion_used Cons.prems c by auto
  ultimately show ?case
    using Cons.IH Cons.prems(2) c by (auto split: prod.splits)
qed simp

lemma accepted_at_most_once:
  assumes "\<forall>c\<in>set calls. \<not> time_text e < time_text (fst c)"
    and "\<forall>c\<in>set calls. fst (snd c) = t \<and> fst (snd (snd c)) = a \<longrightarrow> snd (snd (snd c)) = e"
  shows "accepted_count t a st calls \<le> 1"
  using assms
proof (induction calls arbitrary: st)
  case (Cons c calls)
  obtain now t' a' e' where c: "c = (now, t', a', e')" by (cases c)
  let ?m = "MarkAssertionUsed st now t' a' e'"
  show ?case
  proof (cases "\<not> fst ?m \<and> t' = t \<and> a' = a")
    case True
    then have "e' = e" using Cons.prems(2) c by auto
    then have "has_assertion (snd ?m) t a e"
      using True accepted_has_assertion by blast
    then have "accepted_count t a (snd ?m) calls = 0"
      using accepted_count_zero Cons.prems(1) c by auto
    then show ?thesis using c by (auto split: prod.splits)
  next
    case False
    then have "accepted_count t a st (c # calls) = accepted_count t a (snd ?m) calls"
      using c by (auto split: prod.splits)
    then show ?thesis using Cons.IH Cons.prems by auto
  qed
qed simp

text \<open>
  An assertion whose expiry falls on a whole second is accepted at most once in any sequence
  of calls, for any tenants and assertions, that all happen no later than the second in which it
  expires.
\<close>

theorem assertion_accepted_once:
  assumes "e mod 1000000000 = 0"
    and "\<forall>c\<in>set calls. fst c div 1000000000 \<le> e div 1000000000"
    and "\<forall>c\<in>set calls. fst (snd c) = t \<and> fst (snd (snd c)) = a \<longrightarrow> snd (snd (snd c)) = e"
  shows "accepted_count t a st calls \<le> 1"
  using accepted_at_most_once [of calls e t a st] whole_second_not_purged [OF assms(1)] assms(2,3)
  by blast

theorem assertion_accepted_once_witness:
  "accepted_count ''acme'' ''_a'' empty_store
     [(1, ''acme'', ''_a'', 1000000000), (2, ''acme'', ''_a'', 1000000000)] \<le> 1"
  by (rule assertion_accepted_once [where e = 1000000000]) simp_all

text \<open>
  Once the clock is in a later second than the recorded expiry, the record no longer protects:
  an assertion that was accepted is accepted again.
\<close>

theorem assertion_reaccepted_after_expiry:
  assumes "store_inv st" and "\<not> fst (MarkAssertionUsed st now1 t a e)"
    and "e div 1000000000 < now2 div 1000000000"
  shows "\<not> fst (MarkAssertionUsed (snd (MarkAssertionUsed st now1 t a e)) now2 t a e)"
proof -
  let ?st1 = "snd (MarkAssertionUsed st now1 t a e)"
  have gone: "time_text e < time_text now2" using assms(3) by (rule time_text_less_second)
  have "distinct (map assertion_key (used_saml_assertions ?st1))"
    using MarkAssertionUsed_inv [OF assms(1), of now1 t a e] by (simp add: store_inv_def)
  moreover have "has_assertion ?st1 t a e" using assms(2) by (rule accepted_has_assertion)
  ultimately have "ua_expires_at r = e"
    if "r \<in> set (used_saml_assertions ?st1)" "ua_tenant_id r = t" "ua_assertion_id r = a" for r
    using that
    by (auto simp: has_assertion_def list_ex_iff distinct_map inj_on_def assertion_key_def)
  then show ?thesis
    using gone by (auto simp: MarkAssertionUsed_def [of ?st1] Let_def insert_row_def list_ex_iff)
qed

theorem assertion_reaccepted_after_expiry_witness:
  "\<not> fst (MarkAssertionUsed (snd (MarkAssertionUsed empty_store 2000000000 ''acme'' ''_a'' 1000000000))
            3000000000 ''acme'' ''_a'' 1000000000)"
  by (rule assertion_reaccepted_after_expiry [OF store_inv_empty])
     (simp_all add: MarkAssertionUsed_def empty_store_def insert_row_def)

end
