(* ===== verification/Directory.thy ===== *)
theory Directory
  imports StoreLaws
begin

text \<open>
  The create/read/replace/delete contract that the provisioning server and the login flows rely on,
  stated once as the locale \<open>directory\<close> over records that belong to a tenant and have an id, and
  discharged for the users and for the groups of the store.  \<open>isolated_directory\<close> adds that a
  deletion, successful or not, touches nothing else; the users satisfy it, the groups do not.
\<close>

section \<open>The interface\<close>

datatype ('x, 'r) directory_op =
    AddOp 'x 'r
  | ReplaceOp instant 'r
  | RemoveOp string string

text \<open>One call on a directory, given by its three writing operations, and the tenant that makes it.\<close>

fun dir_step ::
    "('st \<Rightarrow> 'x \<Rightarrow> 'r \<Rightarrow> (store_error + 'r) \<times> 'st) \<Rightarrow> ('st \<Rightarrow> instant \<Rightarrow> 'r \<Rightarrow> (store_error + 'r) \<times> 'st)
     \<Rightarrow> ('st \<Rightarrow> string \<Rightarrow> string \<Rightarrow> (store_error + unit) \<times> 'st) \<Rightarrow> 'st \<Rightarrow> ('x, 'r) directory_op \<Rightarrow> 'st" where
  "dir_step add replace remove st (AddOp x r) = snd (add st x r)"
| "dir_step add replace remove st (ReplaceOp now r) = snd (replace st now r)"
| "dir_step add replace remove st (RemoveOp t i) = snd (remove st t i)"

fun dir_tenant :: "('r \<Rightarrow> string) \<Rightarrow> ('x, 'r) directory_op \<Rightarrow> string" where
  "dir_tenant tenant (AddOp x r) = tenant r"
| "dir_tenant tenant (ReplaceOp now r) = tenant r"
| "dir_tenant tenant (RemoveOp t i) = t"

locale directory =
  fixes inv :: "'st \<Rightarrow> bool"
    and add :: "'st \<Rightarrow> 'x \<Rightarrow> 'r \<Rightarrow> (store_error + 'r) \<times> 'st"
    and fetch :: "'st \<Rightarrow> string \<Rightarrow> string \<Rightarrow> store_error + 'r"
    and replace :: "'st \<Rightarrow> instant \<Rightarrow> 'r \<Rightarrow> (store_error + 'r) \<times> 'st"
    and remove :: "'st \<Rightarrow> string \<Rightarrow> string \<Rightarrow> (store_error + unit) \<times> 'st"
    and tenant :: "'r \<Rightarrow> string"
    and ident :: "'r \<Rightarrow> string"
    and kept :: "'r \<Rightarrow> 'r \<Rightarrow> 'r"
  assumes inv_add: "inv st \<Longrightarrow> inv (snd (add st x r))"
    and inv_replace: "inv st \<Longrightarrow> inv (snd (replace st now r))"
    and inv_remove: "inv st \<Longrightarrow> inv (snd (remove st t i))"
    and add_refused: "add st x r = (Inl e, st') \<Longrightarrow> st' = st"
    and add_tenant: "add st x r = (Inr r', st') \<Longrightarrow> tenant r' = tenant r"
    and add_fetch: "inv st \<Longrightarrow> add st x r = (Inr r', st') \<Longrightarrow>
          fetch st' (tenant r') (ident r') = Inr (kept r' r')"
    and add_fresh: "inv st \<Longrightarrow> add st x r = (Inr r', st') \<Longrightarrow> fetch st t (ident r') = Inl ErrNotFound"
    and add_frame: "inv st \<Longrightarrow> add st x r = (Inr r', st') \<Longrightarrow> (t, i) \<noteq> (tenant r', ident r') \<Longrightarrow>
          fetch st' t i = fetch st t i"
    and replace_refused: "replace st now r = (Inl e, st') \<Longrightarrow> st' = st"
    and replace_key: "replace st now r = (Inr r', st') \<Longrightarrow> tenant r' = tenant r \<and> ident r' = ident r"
    and replace_fetch: "inv st \<Longrightarrow> replace st now r = (Inr r', st') \<Longrightarrow>
          \<exists>old. fetch st (tenant r) (ident r) = Inr old
            \<and> fetch st' (tenant r) (ident r) = Inr (kept old r')"
    and replace_frame: "inv st \<Longrightarrow> replace st now r = (Inr r', st') \<Longrightarrow> (t, i) \<noteq> (tenant r, ident r) \<Longrightarrow>
          fetch st' t i = fetch st t i"
    and remove_result: "inv st \<Longrightarrow> fst (remove st t i) =
          (case fetch st t i of Inl e \<Rightarrow> Inl ErrNotFound | Inr r \<Rightarrow> Inr ())"
    and remove_fetch: "fetch (snd (remove st t i)) t i = Inl ErrNotFound"
    and remove_frame: "inv st \<Longrightarrow> fst (remove st t i) = Inr () \<Longrightarrow> (t', i') \<noteq> (t, i) \<Longrightarrow>
          fetch (snd (remove st t i)) t' i' = fetch st t' i'"
begin

lemma inv_run_op: "inv st \<Longrightarrow> inv (dir_step add replace remove st op)"
  by (cases op) (simp_all add: inv_add inv_replace inv_remove)

lemma inv_run: "inv st \<Longrightarrow> inv (foldl (dir_step add replace remove) st ops)"
  by (induction ops arbitrary: st) (simp_all add: inv_run_op)

lemma removed_is_gone:
  assumes "inv st"
  shows "fst (remove (snd (remove st t i)) t i) = Inl ErrNotFound"
  using inv_remove [OF assms] by (simp add: remove_result remove_fetch)

lemma add_frame_always:
  assumes "inv st" and "t \<noteq> tenant r"
  shows "fetch (snd (add st x r)) t i = fetch st t i"
proof (cases "fst (add st x r)")
  case (Inl e)
  then have "snd (add st x r) = st" by (intro add_refused [of st x r e]) (simp add: prod_eq_iff)
  then show ?thesis by simp
next
  case (Inr r')
  then have a: "add st x r = (Inr r', snd (add st x r))" by (simp add: prod_eq_iff)
  have "(t, i) \<noteq> (tenant r', ident r')" using add_tenant [OF a] assms(2) by simp
  then show ?thesis by (rule add_frame [OF assms(1) a])
qed

lemma replace_frame_always:
  assumes "inv st" and "t \<noteq> tenant r"
  shows "fetch (snd (replace st now r)) t i = fetch st t i"
proof (cases "fst (replace st now r)")
  case (Inl e)
  then have "snd (replace st now r) = st"
    by (intro replace_refused [of st now r e]) (simp add: prod_eq_iff)
  then show ?thesis by simp
next
  case (Inr r')
  then have a: "replace st now r = (Inr r', snd (replace st now r))" by (simp add: prod_eq_iff)
  show ?thesis by (rule replace_frame [OF assms(1) a]) (use assms(2) in simp)
qed

end

locale isolated_directory = directory +
  assumes remove_frame_always: "(t', i') \<noteq> (t, i) \<Longrightarrow>
          fetch (snd (remove st t i)) t' i' = fetch st t' i'"
begin

lemma foreign_op_invisible:
  assumes "inv st" and "dir_tenant tenant op \<noteq> t"
  shows "fetch (dir_step add replace remove st op) t i = fetch st t i"
proof (cases op)
  case (AddOp x r)
  then show ?thesis using add_frame_always [OF assms(1), of t r x i] assms(2) by auto
next
  case (ReplaceOp now r)
  then show ?thesis using replace_frame_always [OF assms(1), of t r now i] assms(2) by auto
next
  case (RemoveOp t' i')
  then show ?thesis using remove_frame_always [of t i t' i' st] assms(2) by auto
qed

lemma foreign_ops_invisible:
  assumes "inv st" and "\<forall>op\<in>set ops. dir_tenant tenant op \<noteq> t"
  shows "fetch (foldl (dir_step add replace remove) st ops) t i = fetch st t i"
  using assms
proof (induction ops arbitrary: st)
  case (Cons op ops)
  then show ?case using inv_run_op [of st op] foreign_op_invisible [of st op t i] by simp
qed simp

end

section \<open>Users\<close>

text \<open>What the store keeps of a user: the creation time of the first insert, attributes through JSON.\<close>

definition kept_user :: "User \<Rightarrow> User \<Rightarrow> User" where
  "kept_user old u = u\<lparr>uAttributes := json_attrs (uAttributes u), uCreatedAt := uCreatedAt old\<rparr>"

definition add_user :: "Store \<Rightarrow> string \<times> instant \<Rightarrow> User \<Rightarrow> (store_error + User) \<times> Store" where
  "add_user st x u = CreateUser st (fst x) (snd x) u"

lemma null_string_nullable [simp]: "null_string (nullable s) = s"
  by (simp add: null_string_def nullable_def)

lemma scanUser_row: "scanUser (user_row_of u) = kept_user u u"
  by (simp add: scanUser_def user_row_of_def kept_user_def boolInt_def)

lemma scanUser_update: "ur_tenant_id r = uTenantID u \<Longrightarrow> ur_id r = uID u \<Longrightarrow>
    scanUser (update_user_row r u) = kept_user (scanUser r) u"
  by (simp add: scanUser_def update_user_row_def user_row_of_def kept_user_def boolInt_def)

lemma GetUser_Inr: "GetUser st t i = Inr u \<Longrightarrow> uTenantID u = t \<and> uID u = i"
  by (auto simp: GetUser_def scanUser_def split: option.splits dest: find_SomeD)

lemma CreateUser_ok:
  assumes "CreateUser st uuid now u = (Inr u', st')"
  shows "users st' = users st @ [user_row_of u']"
    and "\<forall>r\<in>set (users st). ur_id r \<noteq> uID u' \<and> (ur_tenant_id r, ur_user_name r) \<noteq> (uTenantID u', uUserName u')"
    and "uTenantID u' = uTenantID u" and "group_members st' = group_members st" and "groups st' = groups st"
    and "u' = u\<lparr>uID := uID u', uCreatedAt := now, uUpdatedAt := now, uVersion := 1\<rparr>"
    and "uID u' = (if uID u = [] then uuid else uID u)"
  using assms
  by (auto simp: CreateUser_def Let_def insert_row_def user_clash_def user_row_of_def list_ex_iff
      split: option.splits if_splits)

lemma ReplaceUser_ok:
  assumes "ReplaceUser st now u = (Inr u', st')"
  shows "u' = u\<lparr>uUpdatedAt := now, uVersion := uVersion u + 1\<rparr>"
    and "users st' = map (\<lambda>r. if ur_tenant_id r = uTenantID u \<and> ur_id r = uID u
           then update_user_row r u' else r) (users st)"
    and "list_ex (\<lambda>r. ur_tenant_id r = uTenantID u \<and> ur_id r = uID u) (users st)"
  using assms by (auto simp: ReplaceUser_def Let_def split: if_splits)

lemma find_map_update_hit:
  assumes "\<And>r. P (f r) = P r"
  shows "find P (map (\<lambda>r. if P r then f r else r) rows) = map_option f (find P rows)"
  using assms by (induction rows) auto

lemma find_map_update_miss:
  assumes "\<And>r. P r \<Longrightarrow> Q (f r) = False" and "\<And>r. P r \<Longrightarrow> Q r = False"
  shows "find Q (map (\<lambda>r. if P r then f r else r) rows) = find Q rows"
  using assms by (induction rows) auto

interpretation user_dir: isolated_directory store_inv add_user GetUser ReplaceUser DeleteUser
  uTenantID uID kept_user
proof
  fix st x r r' st' t i t' i' now e
  show "store_inv st \<Longrightarrow> store_inv (snd (add_user st x r))"
    "store_inv st \<Longrightarrow> store_inv (snd (ReplaceUser st now r))"
    "store_inv st \<Longrightarrow> store_inv (snd (DeleteUser st t i))"
    by (simp_all add: add_user_def store_op_inv)
  show "add_user st x r = (Inl e, st') \<Longrightarrow> st' = st"
    by (auto simp: add_user_def CreateUser_def Let_def split: option.splits)
  show "add_user st x r = (Inr r', st') \<Longrightarrow> uTenantID r' = uTenantID r"
    using CreateUser_ok(3) [of st "fst x" "snd x" r r' st'] by (simp add: add_user_def)
  show "ReplaceUser st now r = (Inl e, st') \<Longrightarrow> st' = st"
    by (auto simp: ReplaceUser_def Let_def split: if_splits)
  show "ReplaceUser st now r = (Inr r', st') \<Longrightarrow> uTenantID r' = uTenantID r \<and> uID r' = uID r"
    using ReplaceUser_ok(1) [of st now r r' st'] by simp
  show "GetUser (snd (DeleteUser st t i)) t i = Inl ErrNotFound"
    by (auto simp: GetUser_def DeleteUser_def Let_def find_None_iff_ball split: option.splits dest!: find_SomeD)
  have frame: "GetUser (snd (DeleteUser st t i)) t' i' = GetUser st t' i'" if "(t', i') \<noteq> (t, i)"
  proof -
    have "find (\<lambda>r. ur_tenant_id r = t' \<and> ur_id r = i')
        (filter (\<lambda>r. \<not> (ur_tenant_id r = t \<and> ur_id r = i)) (users st))
      = find (\<lambda>r. ur_tenant_id r = t' \<and> ur_id r = i') (users st)"
      by (rule find_filter_imp) (use that in auto)
    then show ?thesis by (simp add: GetUser_def DeleteUser_def Let_def)
  qed
  then show "(t', i') \<noteq> (t, i) \<Longrightarrow> GetUser (snd (DeleteUser st t i)) t' i' = GetUser st t' i'" .
  from frame show "(t', i') \<noteq> (t, i) \<Longrightarrow> GetUser (snd (DeleteUser st t i)) t' i' = GetUser st t' i'" .
  show "fst (DeleteUser st t i) = (case GetUser st t i of Inl e \<Rightarrow> Inl ErrNotFound | Inr r \<Rightarrow> Inr ())"
    by (auto simp: GetUser_def DeleteUser_def Let_def find_None_iff_ball list_ex_iff
        split: option.splits dest: find_SomeD)
  {
    assume "add_user st x r = (Inr r', st')"
    then have c: "CreateUser st (fst x) (snd x) r = (Inr r', st')" by (simp add: add_user_def)
    have none: "find (\<lambda>s. ur_tenant_id s = t \<and> ur_id s = uID r') (users st) = None" for t
      using CreateUser_ok(2) [OF c] by (auto simp: find_None_iff_ball)
    show "GetUser st t (uID r') = Inl ErrNotFound"
      using none by (simp add: GetUser_def)
    show "GetUser st' (uTenantID r') (uID r') = Inr (kept_user r' r')"
      using none CreateUser_ok(1) [OF c]
      by (simp add: GetUser_def find_append scanUser_row) (simp add: user_row_of_def)
    show "(t, i) \<noteq> (uTenantID r', uID r') \<Longrightarrow> GetUser st' t i = GetUser st t i"
      using CreateUser_ok(1) [OF c]
      by (auto simp: GetUser_def find_append user_row_of_def split: option.splits)
  }
  {
    assume rep: "ReplaceUser st now r = (Inr r', st')"
    let ?P = "\<lambda>s. ur_tenant_id s = uTenantID r \<and> ur_id s = uID r"
    obtain old where "find ?P (users st) = Some old"
      using ReplaceUser_ok(3) [OF rep] by (cases "find ?P (users st)") (auto simp: find_None_iff_ball list_ex_iff)
    moreover from this have "?P old" by (auto dest: find_SomeD)
    moreover have "find ?P (users st') = map_option (\<lambda>s. update_user_row s r') (find ?P (users st))"
      unfolding ReplaceUser_ok(2) [OF rep] by (rule find_map_update_hit) (simp add: update_user_row_def)
    ultimately show "\<exists>old. GetUser st (uTenantID r) (uID r) = Inr old
        \<and> GetUser st' (uTenantID r) (uID r) = Inr (kept_user old r')"
      using ReplaceUser_ok(1) [OF rep] by (simp add: GetUser_def scanUser_update)
    assume "(t, i) \<noteq> (uTenantID r, uID r)"
    then have "find (\<lambda>s. ur_tenant_id s = t \<and> ur_id s = i) (users st')
        = find (\<lambda>s. ur_tenant_id s = t \<and> ur_id s = i) (users st)"
      unfolding ReplaceUser_ok(2) [OF rep]
      by (intro find_map_update_miss) (auto simp: update_user_row_def)
    then show "GetUser st' t i = GetUser st t i" by (simp add: GetUser_def)
  }
qed

text \<open>
  A user that was created is read back, under its tenant and id, exactly as it was returned, its
  attributes as JSON leaves them; no user of any tenant had that id before, and every other user
  reads as before.
\<close>

theorem created_user_read_back:
  assumes "store_inv st" and "CreateUser st uuid now u = (Inr u', st')"
  shows "GetUser st' (uTenantID u) (uID u') = Inr (u'\<lparr>uAttributes := json_attrs (uAttributes u')\<rparr>)
    \<and> (\<forall>t. GetUser st t (uID u') = Inl ErrNotFound)
    \<and> (\<forall>t i. (t, i) \<noteq> (uTenantID u, uID u') \<longrightarrow> GetUser st' t i = GetUser st t i)"
proof -
  have a: "add_user st (uuid, now) u = (Inr u', st')" using assms(2) by (simp add: add_user_def)
  have t: "uTenantID u' = uTenantID u" by (rule user_dir.add_tenant [OF a])
  show ?thesis
    using user_dir.add_fetch [OF assms(1) a] user_dir.add_fresh [OF assms(1) a]
      user_dir.add_frame [OF assms(1) a] t
    by (simp add: kept_user_def)
qed

definition alice :: User where
  "alice = blank_user\<lparr>uTenantID := ''acme'', uUserName := ''alice'', uEmail := ''a@acme.example'',
     uAttributes := [(''roles'', AStrs [''dev''])]\<rparr>"

theorem created_user_read_back_witness:
  "\<exists>u' st'. CreateUser empty_store ''u1'' 7 alice = (Inr u', st') \<and> uID u' = ''u1''
    \<and> GetUser st' ''acme'' ''u1'' = Inr (u'\<lparr>uAttributes := json_attrs (uAttributes u')\<rparr>)"
proof -
  obtain u' st' where c: "CreateUser empty_store ''u1'' 7 alice = (Inr u', st')" and "uID u' = ''u1''"
    by (simp add: CreateUser_def empty_store_def insert_row_def alice_def blank_user_def Let_def)
  then show ?thesis
    using created_user_read_back [OF store_inv_empty c] by (auto simp: alice_def blank_user_def)
qed

text \<open>
  Tenants are isolated in the user table: any sequence of create, replace and delete calls made
  for other tenants, with whatever ids, leaves every user of a tenant as it reads.
\<close>

theorem user_tenant_isolation:
  assumes "store_inv st" and "\<forall>op\<in>set ops. dir_tenant uTenantID op \<noteq> t"
  shows "GetUser (foldl (dir_step add_user ReplaceUser DeleteUser) st ops) t i = GetUser st t i"
  by (rule user_dir.foreign_ops_invisible [OF assms])

theorem user_tenant_isolation_witness:
  "GetUser (foldl (dir_step add_user ReplaceUser DeleteUser)
      (snd (CreateUser empty_store ''u1'' 7 alice))
      [AddOp (''u2'', 8) (alice\<lparr>uTenantID := ''evil''\<rparr>), RemoveOp ''evil'' ''u1'']) ''acme'' ''u1''
   = GetUser (snd (CreateUser empty_store ''u1'' 7 alice)) ''acme'' ''u1''"
  by (rule user_tenant_isolation [OF CreateUser_inv [OF store_inv_empty]]) (simp add: alice_def)

section \<open>Groups\<close>

definition kept_group :: "Group \<Rightarrow> Group \<Rightarrow> Group" where
  "kept_group old g = g\<lparr>gMembers := sort (remdups (gMembers g)), gCreatedAt := gCreatedAt old\<rparr>"

definition add_group :: "Store \<Rightarrow> string \<times> instant \<Rightarrow> Group \<Rightarrow> (store_error + Group) \<times> Store" where
  "add_group st x g = CreateGroup st (fst x) (snd x) g"

lemma set_fold_members:
  "set (foldl (\<lambda>rs m. insert_or_ignore rs (g, m)) rows ms) = set rows \<union> (\<lambda>m. (g, m)) ` set ms"
  by (induction ms arbitrary: rows) (auto simp: insert_or_ignore_def)

lemma set_replaceMembersTx:
  "set (replaceMembersTx rows g ms) = {m \<in> set rows. fst m \<noteq> g} \<union> (\<lambda>m. (g, m)) ` set ms"
  by (auto simp: replaceMembersTx_def set_fold_members)

lemma filter_replaceMembersTx_other:
  assumes "g' \<noteq> g"
  shows "filter (\<lambda>m. fst m = g') (replaceMembersTx rows g ms) = filter (\<lambda>m. fst m = g') rows"
proof -
  have "filter (\<lambda>m. fst m = g') (foldl (\<lambda>rs m. insert_or_ignore rs (g, m)) rs ms) = filter (\<lambda>m. fst m = g') rs"
    for rs
    using assms by (induction ms arbitrary: rs) (auto simp: insert_or_ignore_def)
  moreover have "filter (\<lambda>m. fst m = g') (filter (\<lambda>m. fst m \<noteq> g) rows) = filter (\<lambda>m. fst m = g') rows"
    using assms by (induction rows) auto
  ultimately show ?thesis by (simp add: replaceMembersTx_def)
qed

lemma loadMembers_set: "set (loadMembers st g) = {m. (g, m) \<in> set (group_members st)}"
  by (force simp: loadMembers_def)

lemma loadMembers_sorted_distinct:
  assumes "store_inv st"
  shows "sorted (loadMembers st g)" "distinct (loadMembers st g)"
proof -
  have "distinct (map snd (filter (\<lambda>m. fst m = g) (group_members st)))"
    using assms by (auto simp: store_inv_def distinct_map inj_on_def)
  then show "distinct (loadMembers st g)" by (simp add: loadMembers_def)
qed (simp add: loadMembers_def)

lemma loadMembers_replaced:
  assumes "store_inv st" and "group_members st = replaceMembersTx rows g ms"
  shows "loadMembers st g = sort (remdups ms)"
  using loadMembers_sorted_distinct [OF assms(1)] assms(2)
  by (intro sorted_distinct_set_unique) (auto simp: loadMembers_set set_replaceMembersTx)

lemma loadMembers_other:
  assumes "group_members st' = replaceMembersTx (group_members st) g ms" and "g' \<noteq> g"
  shows "loadMembers st' g' = loadMembers st g'"
  using assms by (simp add: loadMembers_def filter_replaceMembersTx_other)

lemma CreateGroup_ok:
  assumes "CreateGroup st uuid now g = (Inr g', st')"
  shows "groups st' = groups st @ [group_row_of g']"
    and "group_members st' = replaceMembersTx (group_members st) (gID g') (gMembers g')"
    and "\<forall>r\<in>set (groups st). gr_id r \<noteq> gID g'" and "gTenantID g' = gTenantID g"
    and "gMembers g' = gMembers g"
  using assms
  by (auto simp: CreateGroup_def Let_def insert_row_def group_clash_def group_row_of_def list_ex_iff
      split: option.splits if_splits)

lemma ReplaceGroup_ok:
  assumes "ReplaceGroup st now g = (Inr g', st')"
  shows "g' = g\<lparr>gUpdatedAt := now, gVersion := gVersion g + 1\<rparr>"
    and "groups st' = map (\<lambda>r. if gr_tenant_id r = gTenantID g \<and> gr_id r = gID g
           then update_group_row r g' else r) (groups st)"
    and "group_members st' = replaceMembersTx (group_members st) (gID g) (gMembers g)"
    and "list_ex (\<lambda>r. gr_tenant_id r = gTenantID g \<and> gr_id r = gID g) (groups st)"
  using assms by (auto simp: ReplaceGroup_def Let_def split: if_splits)

lemma GetGroup_cong:
  assumes "find (\<lambda>r. gr_tenant_id r = t \<and> gr_id r = i) (groups st')
      = find (\<lambda>r. gr_tenant_id r = t \<and> gr_id r = i) (groups st)"
    and "find (\<lambda>r. gr_tenant_id r = t \<and> gr_id r = i) (groups st) \<noteq> None \<Longrightarrow> loadMembers st' i = loadMembers st i"
  shows "GetGroup st' t i = GetGroup st t i"
proof (cases "find (\<lambda>r. gr_tenant_id r = t \<and> gr_id r = i) (groups st)")
  case None
  then show ?thesis using assms(1) by (simp add: GetGroup_def)
next
  case (Some r)
  then have "gr_id r = i" by (auto dest: find_SomeD)
  then show ?thesis using Some assms by (simp add: GetGroup_def)
qed

lemma group_id_tenant:
  assumes "store_inv st" and "r \<in> set (groups st)" and "gr_tenant_id r \<noteq> t"
  shows "find (\<lambda>s. gr_tenant_id s = t \<and> gr_id s = gr_id r) (groups st) = None"
  using assms by (auto simp: store_inv_def find_None_iff_ball distinct_map inj_on_def)

lemma scanGroup_row: "scanGroup (group_row_of g) = g\<lparr>gMembers := []\<rparr>"
  by (simp add: scanGroup_def group_row_of_def)

interpretation group_dir: directory store_inv add_group GetGroup ReplaceGroup DeleteGroup
  gTenantID gID kept_group
proof
  fix st x r r' st' t i t' i' now e
  show inv_all: "store_inv st \<Longrightarrow> store_inv (snd (add_group st x r))"
    "store_inv st \<Longrightarrow> store_inv (snd (ReplaceGroup st now r))"
    "store_inv st \<Longrightarrow> store_inv (snd (DeleteGroup st t i))"
    by (simp_all add: add_group_def store_op_inv)
  show "add_group st x r = (Inl e, st') \<Longrightarrow> st' = st"
    by (auto simp: add_group_def CreateGroup_def Let_def split: option.splits)
  show "add_group st x r = (Inr r', st') \<Longrightarrow> gTenantID r' = gTenantID r"
    using CreateGroup_ok(4) [of st "fst x" "snd x" r r' st'] by (simp add: add_group_def)
  show "ReplaceGroup st now r = (Inl e, st') \<Longrightarrow> st' = st"
    by (auto simp: ReplaceGroup_def Let_def split: if_splits)
  show "ReplaceGroup st now r = (Inr r', st') \<Longrightarrow> gTenantID r' = gTenantID r \<and> gID r' = gID r"
    using ReplaceGroup_ok(1) [of st now r r' st'] by simp
  show "GetGroup (snd (DeleteGroup st t i)) t i = Inl ErrNotFound"
    by (auto simp: GetGroup_def DeleteGroup_def Let_def find_None_iff_ball split: option.splits dest!: find_SomeD)
  show "fst (DeleteGroup st t i) = (case GetGroup st t i of Inl e \<Rightarrow> Inl ErrNotFound | Inr r \<Rightarrow> Inr ())"
    by (auto simp: GetGroup_def DeleteGroup_def Let_def find_None_iff_ball list_ex_iff
        split: option.splits dest: find_SomeD)
  {
    assume inv: "store_inv st" and "add_group st x r = (Inr r', st')"
    then have c: "CreateGroup st (fst x) (snd x) r = (Inr r', st')" by (simp add: add_group_def)
    have none: "find (\<lambda>s. gr_tenant_id s = t \<and> gr_id s = gID r') (groups st) = None" for t
      using CreateGroup_ok(3) [OF c] by (auto simp: find_None_iff_ball)
    have inv': "store_inv st'" using CreateGroup_inv [OF inv, of "fst x" "snd x" r] c by simp
    show "GetGroup st t (gID r') = Inl ErrNotFound"
      using none by (simp add: GetGroup_def)
    have "find (\<lambda>s. gr_tenant_id s = gTenantID r' \<and> gr_id s = gID r') (groups st') = Some (group_row_of r')"
      using none CreateGroup_ok(1) [OF c] by (simp add: find_append group_row_of_def)
    then show "GetGroup st' (gTenantID r') (gID r') = Inr (kept_group r' r')"
      using loadMembers_replaced [OF inv' CreateGroup_ok(2) [OF c]]
      by (simp add: GetGroup_def scanGroup_row kept_group_def) (simp add: group_row_of_def)
    assume ti: "(t, i) \<noteq> (gTenantID r', gID r')"
    show "GetGroup st' t i = GetGroup st t i"
    proof (rule GetGroup_cong)
      show "find (\<lambda>r. gr_tenant_id r = t \<and> gr_id r = i) (groups st')
          = find (\<lambda>r. gr_tenant_id r = t \<and> gr_id r = i) (groups st)"
        using CreateGroup_ok(1) [OF c] ti by (auto simp: find_append group_row_of_def split: option.splits)
      assume "find (\<lambda>r. gr_tenant_id r = t \<and> gr_id r = i) (groups st) \<noteq> None"
      then have "i \<noteq> gID r'" using none by auto
      then show "loadMembers st' i = loadMembers st i"
        by (rule loadMembers_other [OF CreateGroup_ok(2) [OF c]])
    qed
  }
  {
    assume inv: "store_inv st" and rep: "ReplaceGroup st now r = (Inr r', st')"
    let ?P = "\<lambda>s. gr_tenant_id s = gTenantID r \<and> gr_id s = gID r"
    have inv': "store_inv st'" using ReplaceGroup_inv [OF inv, of now r] rep by simp
    obtain old where old: "find ?P (groups st) = Some old"
      using ReplaceGroup_ok(4) [OF rep] by (cases "find ?P (groups st)") (auto simp: find_None_iff_ball list_ex_iff)
    then have "?P old" and mem: "old \<in> set (groups st)" by (auto dest: find_SomeD)
    have "find ?P (groups st') = map_option (\<lambda>s. update_group_row s r') (find ?P (groups st))"
      unfolding ReplaceGroup_ok(2) [OF rep] by (rule find_map_update_hit) (simp add: update_group_row_def)
    with old \<open>?P old\<close> show "\<exists>old. GetGroup st (gTenantID r) (gID r) = Inr old
        \<and> GetGroup st' (gTenantID r) (gID r) = Inr (kept_group old r')"
      using ReplaceGroup_ok(1) [OF rep] loadMembers_replaced [OF inv' ReplaceGroup_ok(3) [OF rep]]
      by (simp add: GetGroup_def scanGroup_def update_group_row_def kept_group_def)
    assume ti: "(t, i) \<noteq> (gTenantID r, gID r)"
    show "GetGroup st' t i = GetGroup st t i"
    proof (rule GetGroup_cong)
      show "find (\<lambda>s. gr_tenant_id s = t \<and> gr_id s = i) (groups st')
          = find (\<lambda>s. gr_tenant_id s = t \<and> gr_id s = i) (groups st)"
        unfolding ReplaceGroup_ok(2) [OF rep] using ti
        by (intro find_map_update_miss) (auto simp: update_group_row_def)
      assume "find (\<lambda>s. gr_tenant_id s = t \<and> gr_id s = i) (groups st) \<noteq> None"
      then have "i \<noteq> gID r" using group_id_tenant [OF inv mem, of t] \<open>?P old\<close> ti by auto
      then show "loadMembers st' i = loadMembers st i"
        by (rule loadMembers_other [OF ReplaceGroup_ok(3) [OF rep]])
    qed
  }
  assume inv: "store_inv st" and del: "fst (DeleteGroup st t i) = Inr ()" and ti: "(t', i') \<noteq> (t, i)"
  then obtain old where old: "old \<in> set (groups st)" "gr_tenant_id old = t" "gr_id old = i"
    by (auto simp: DeleteGroup_def Let_def list_ex_iff split: if_splits)
  show "GetGroup (snd (DeleteGroup st t i)) t' i' = GetGroup st t' i'"
  proof (rule GetGroup_cong)
    show "find (\<lambda>s. gr_tenant_id s = t' \<and> gr_id s = i') (groups (snd (DeleteGroup st t i)))
        = find (\<lambda>s. gr_tenant_id s = t' \<and> gr_id s = i') (groups st)"
      using ti find_filter_imp [of "\<lambda>s. gr_tenant_id s = t' \<and> gr_id s = i'"
          "\<lambda>s. \<not> (gr_tenant_id s = t \<and> gr_id s = i)" "groups st"]
      by (auto simp: DeleteGroup_def Let_def)
    assume "find (\<lambda>s. gr_tenant_id s = t' \<and> gr_id s = i') (groups st) \<noteq> None"
    then have "i' \<noteq> i" using group_id_tenant [OF inv old(1), of t'] old ti by auto
    then show "loadMembers (snd (DeleteGroup st t i)) i' = loadMembers st i'"
      by (simp add: loadMembers_def DeleteGroup_def Let_def filter_filter) (metis (mono_tags, lifting) filter_cong)
  qed
qed

text \<open>
  A group that was replaced is read back with the new external id, name and version, the members
  it was given without repetitions and in order, and its old creation time; every other group, of
  any tenant, reads as before.
\<close>

theorem replaced_group_read_back:
  assumes "store_inv st" and "ReplaceGroup st now g = (Inr g', st')"
  shows "(\<exists>old. GetGroup st (gTenantID g) (gID g) = Inr old
      \<and> GetGroup st' (gTenantID g) (gID g) = Inr (g\<lparr>gMembers := sort (remdups (gMembers g)),
          gVersion := gVersion g + 1, gCreatedAt := gCreatedAt old, gUpdatedAt := now\<rparr>))
    \<and> (\<forall>t i. (t, i) \<noteq> (gTenantID g, gID g) \<longrightarrow> GetGroup st' t i = GetGroup st t i)"
proof -
  have "kept_group old g' = g\<lparr>gMembers := sort (remdups (gMembers g)),
      gVersion := gVersion g + 1, gCreatedAt := gCreatedAt old, gUpdatedAt := now\<rparr>" for old
    using ReplaceGroup_ok(1) [OF assms(2)] by (cases g) (simp add: kept_group_def)
  then show ?thesis
    using group_dir.replace_fetch [OF assms] group_dir.replace_frame [OF assms] by simp
qed

definition ops_group :: Group where
  "ops_group = \<lparr>gID = ''g1'', gTenantID = ''acme'', gExternalID = [], gDisplayName = ''ops'',
     gMembers = [''u1''], gVersion = 0, gCreatedAt = 0, gUpdatedAt = 0\<rparr>"

definition ops_store :: Store where
  "ops_store = snd (CreateGroup (snd (CreateUser empty_store ''u1'' 7 alice)) [] 8 ops_group)"

lemma ops_store_inv: "store_inv ops_store"
  by (simp add: ops_store_def store_op_inv store_inv_empty)

theorem replaced_group_read_back_witness:
  "\<exists>g' st' created. ReplaceGroup ops_store 9 (ops_group\<lparr>gMembers := [''u3'', ''u2'', ''u3'']\<rparr>) = (Inr g', st')
    \<and> GetGroup st' ''acme'' ''g1'' = Inr (ops_group\<lparr>gMembers := sort (remdups [''u3'', ''u2'', ''u3'']),
          gVersion := 1, gCreatedAt := created, gUpdatedAt := 9\<rparr>)"
proof -
  obtain g' st' where r: "ReplaceGroup ops_store 9 (ops_group\<lparr>gMembers := [''u3'', ''u2'', ''u3'']\<rparr>) = (Inr g', st')"
    by (simp add: ops_store_def ReplaceGroup_def CreateGroup_def CreateUser_def empty_store_def insert_row_def
        ops_group_def group_row_of_def alice_def blank_user_def Let_def)
  from replaced_group_read_back [OF ops_store_inv r] r show ?thesis
    by (auto simp: ops_group_def)
qed

text \<open>
  Deletion by id does not respect tenants in the membership table.  When a tenant deletes a user
  id that is not its own, the call reports that nothing was found, yet the id is gone from the
  members of every group of every tenant.
\<close>

theorem foreign_delete_strips_members:
  assumes "store_inv st" and "GetUser st t uid = Inl ErrNotFound" and "GetGroup st t' gid = Inr g"
  shows "fst (DeleteUser st t uid) = Inl ErrNotFound
    \<and> GetGroup (snd (DeleteUser st t uid)) t' gid = Inr (g\<lparr>gMembers := filter (\<lambda>m. m \<noteq> uid) (gMembers g)\<rparr>)"
proof
  show "fst (DeleteUser st t uid) = Inl ErrNotFound"
    using user_dir.remove_result [OF assms(1), of t uid] assms(2) by simp
  have "loadMembers (snd (DeleteUser st t uid)) i = filter (\<lambda>m. m \<noteq> uid) (loadMembers st i)" for i
    using loadMembers_sorted_distinct [OF assms(1), of i] delete_inv(1) [OF assms(1), of t uid]
    by (intro sorted_distinct_set_unique loadMembers_sorted_distinct)
       (auto simp: loadMembers_set DeleteUser_def Let_def sorted_filter [where f = id, simplified])
  then show "GetGroup (snd (DeleteUser st t uid)) t' gid = Inr (g\<lparr>gMembers := filter (\<lambda>m. m \<noteq> uid) (gMembers g)\<rparr>)"
    using assms(3) by (auto simp: GetGroup_def DeleteUser_def Let_def split: option.splits)
qed

theorem foreign_delete_strips_members_witness:
  "\<exists>g. GetGroup ops_store ''acme'' ''g1'' = Inr g \<and> gMembers g = [''u1'']
    \<and> fst (DeleteUser ops_store ''evil'' ''u1'') = Inl ErrNotFound
    \<and> GetGroup (snd (DeleteUser ops_store ''evil'' ''u1'')) ''acme'' ''g1'' = Inr (g\<lparr>gMembers := []\<rparr>)"
proof -
  have n: "GetUser ops_store ''evil'' ''u1'' = Inl ErrNotFound"
    by (simp add: ops_store_def GetUser_def CreateGroup_def CreateUser_def empty_store_def insert_row_def
        ops_group_def group_row_of_def user_row_of_def alice_def blank_user_def Let_def)
  obtain g where g: "GetGroup ops_store ''acme'' ''g1'' = Inr g" "gMembers g = [''u1'']"
    by (simp add: ops_store_def GetGroup_def CreateGroup_def CreateUser_def empty_store_def insert_row_def
        ops_group_def group_row_of_def alice_def blank_user_def loadMembers_def replaceMembersTx_def
        insert_or_ignore_def Let_def)
  show ?thesis
    using foreign_delete_strips_members [OF ops_store_inv n g(1)] g by auto
qed

end
