(* ===== verification/Http.thy ===== *)
theory Http
  imports Values
begin

text \<open>
  What the handlers use of \<open>net/http\<close> and \<open>net\<close>: header maps with canonical keys, cookies, the
  request a handler receives and \<open>net.SplitHostPort\<close>.
\<close>

section \<open>Headers\<close>

text \<open>\<open>http.Header\<close>, a map from keys to lists of values.\<close>

type_synonym Header = "(string \<times> string list) list"

definition validHeaderFieldByte :: "char \<Rightarrow> bool" where
  "validHeaderFieldByte c =
     (is_upper c \<or> is_lower c \<or> is_digit c \<or> c \<in> set ''!#$%&*+-.^_`|~'' \<or> code_of c = 39)"

fun canonical_loop :: "bool \<Rightarrow> string \<Rightarrow> string" where
  "canonical_loop upper [] = []"
| "canonical_loop upper (c # cs) =
     (let c' = (if upper then upper_char c else lower_char c)
      in c' # canonical_loop (c' = CHR ''-'') cs)"

definition CanonicalMIMEHeaderKey :: "string \<Rightarrow> string" where
  "CanonicalMIMEHeaderKey s = (if list_all validHeaderFieldByte s then canonical_loop True s else s)"

definition header_values :: "Header \<Rightarrow> string \<Rightarrow> string list" where
  "header_values h k = (case map_of h k of None \<Rightarrow> [] | Some vs \<Rightarrow> vs)"

definition header_Get :: "Header \<Rightarrow> string \<Rightarrow> string" where
  "header_Get h k = (case header_values h (CanonicalMIMEHeaderKey k) of [] \<Rightarrow> [] | v # _ \<Rightarrow> v)"

definition header_Set :: "Header \<Rightarrow> string \<Rightarrow> string \<Rightarrow> Header" where
  "header_Set h k v = put h (CanonicalMIMEHeaderKey k) [v]"

definition header_Del :: "Header \<Rightarrow> string \<Rightarrow> Header" where
  "header_Del h k = del h (CanonicalMIMEHeaderKey k)"

text \<open>The keys of a header map the HTTP server hands to a handler are in canonical form.\<close>

definition canonical_keys :: "Header \<Rightarrow> bool" where
  "canonical_keys h = list_all (\<lambda>kv. CanonicalMIMEHeaderKey (fst kv) = fst kv) h"

section \<open>Requests\<close>

record Request =
  rqMethod :: string
  rqPath :: string
  rqHost :: string
  rqRemoteAddr :: string
  rqHeader :: Header
  rqCookies :: "(string \<times> string) list"

definition request_Cookie :: "Request \<Rightarrow> string \<Rightarrow> string option" where
  "request_Cookie r name = map_of (rqCookies r) name"

section \<open>net.SplitHostPort\<close>

fun IndexByte :: "string \<Rightarrow> char \<Rightarrow> nat option" where
  "IndexByte [] c = None"
| "IndexByte (x # xs) c = (if x = c then Some 0 else map_option Suc (IndexByte xs c))"

definition LastIndexByte :: "string \<Rightarrow> char \<Rightarrow> nat option" where
  "LastIndexByte s c = map_option (\<lambda>i. length s - 1 - i) (IndexByte (rev s) c)"

definition SplitHostPort :: "string \<Rightarrow> (string \<times> string) option" where
  "SplitHostPort hp =
     (case LastIndexByte hp CHR '':'' of
        None \<Rightarrow> None
      | Some i \<Rightarrow>
          (case (if take 1 hp = ''[''
                 then (case IndexByte hp CHR '']'' of
                         None \<Rightarrow> None
                       | Some fin \<Rightarrow>
                           if fin + 1 = i then Some (drop 1 (take fin hp), 1, fin + 1) else None)
                 else (if CHR '':'' \<in> set (take i hp) then None else Some (take i hp, 0, 0))) of
             None \<Rightarrow> None
           | Some (host, j, k) \<Rightarrow>
               if CHR ''['' \<in> set (drop j hp) \<or> CHR '']'' \<in> set (drop k hp) then None
               else Some (host, drop (i + 1) hp)))"

section \<open>Facts\<close>

lemma code_of_char_of_sub [simp]: "code_of (char_of (code_of c - k)) = code_of c - k"
  using code_of_bound [of c] by (intro code_of_char_of) linarith

lemma upper_char_idem [simp]: "upper_char (upper_char c) = upper_char c"
proof (cases "is_lower c")
  case True
  then have "code_of (upper_char c) = code_of c - 32"
    by (simp add: upper_char_def is_lower_def code_of_char_of)
  with True have "\<not> is_lower (upper_char c)" by (auto simp: is_lower_def)
  then show ?thesis by (simp add: upper_char_def)
qed (simp add: upper_char_def)

lemma lower_upper_char [simp]: "lower_char (upper_char c) = lower_char c"
proof (cases "is_lower c")
  case True
  then have u: "code_of (upper_char c) = code_of c - 32" and l: "lower_char c = c"
    by (simp_all add: upper_char_def lower_char_def is_lower_def is_upper_def code_of_char_of)
  then have "is_upper (upper_char c)" using True by (auto simp: is_upper_def is_lower_def)
  then have "code_of (lower_char (upper_char c)) = code_of c"
    using u True by (auto simp: lower_char_def is_lower_def code_of_char_of)
  with l show ?thesis by (simp add: code_of_inject)
qed (simp add: upper_char_def)

lemma upper_char_cases: "upper_char c = c \<or> is_upper (upper_char c)"
  by (cases "is_lower c") (auto simp: upper_char_def is_upper_def is_lower_def code_of_char_of)

lemma lower_char_cases: "lower_char c = c \<or> is_lower (lower_char c)"
  by (cases "is_upper c") (auto simp: lower_char_def is_upper_def is_lower_def code_of_char_of)

lemma valid_upper_lower:
  "validHeaderFieldByte c \<Longrightarrow> validHeaderFieldByte (upper_char c)"
  "validHeaderFieldByte c \<Longrightarrow> validHeaderFieldByte (lower_char c)"
  unfolding validHeaderFieldByte_def using upper_char_cases [of c] lower_char_cases [of c] by metis+

lemma canonical_loop_idem: "canonical_loop b (canonical_loop b s) = canonical_loop b s"
  by (induction s arbitrary: b) (simp_all add: Let_def)

lemma ToLower_canonical_loop: "ToLower (canonical_loop b s) = ToLower s"
  by (induction s arbitrary: b) (simp_all add: ToLower_def Let_def)

lemma valid_canonical_loop: "list_all validHeaderFieldByte s \<Longrightarrow> list_all validHeaderFieldByte (canonical_loop b s)"
  by (induction s arbitrary: b) (simp_all add: valid_upper_lower Let_def)

lemma Canonical_idem [simp]: "CanonicalMIMEHeaderKey (CanonicalMIMEHeaderKey k) = CanonicalMIMEHeaderKey k"
  by (simp add: CanonicalMIMEHeaderKey_def valid_canonical_loop canonical_loop_idem)

lemma ToLower_Canonical [simp]: "ToLower (CanonicalMIMEHeaderKey k) = ToLower k"
  by (simp add: CanonicalMIMEHeaderKey_def ToLower_canonical_loop)

lemma map_of_header_Set: "map_of (header_Set h k v) = (map_of h)(CanonicalMIMEHeaderKey k \<mapsto> [v])"
  by (simp add: header_Set_def map_of_put)

lemma map_of_header_Del: "map_of (header_Del h k) = (map_of h)(CanonicalMIMEHeaderKey k := None)"
  by (simp add: header_Del_def map_of_del)

lemma header_Get_conv: "header_Get h k = (case map_of h (CanonicalMIMEHeaderKey k) of Some (v # _) \<Rightarrow> v | _ \<Rightarrow> [])"
  by (simp add: header_Get_def header_values_def split: option.splits list.splits)

lemma map_of_header_Del_fold:
  "map_of (foldl header_Del h ks) =
     (\<lambda>k. if k \<in> CanonicalMIMEHeaderKey ` set ks then None else map_of h k)"
  by (induction ks arbitrary: h) (auto simp: map_of_header_Del fun_eq_iff)

lemma canonical_keysD: "canonical_keys h \<Longrightarrow> map_of h k = Some v \<Longrightarrow> CanonicalMIMEHeaderKey k = k"
  by (force simp: canonical_keys_def list_all_iff dest: map_of_SomeD)

lemma canonical_keys_put:
  "canonical_keys h \<Longrightarrow> canonical_keys (header_Set h k v)"
proof -
  have "canonical_keys h \<Longrightarrow> CanonicalMIMEHeaderKey k' = k' \<Longrightarrow> canonical_keys (put h k' w)" for k' w
    by (induction h k' w rule: put.induct) (auto simp: canonical_keys_def)
  then show "canonical_keys h \<Longrightarrow> canonical_keys (header_Set h k v)" by (simp add: header_Set_def)
qed

lemma canonical_keys_del: "canonical_keys h \<Longrightarrow> canonical_keys (header_Del h k)"
  by (auto simp: canonical_keys_def header_Del_def del_def list_all_iff)

end
