(* ===== verification/Authz.thy ===== *)
theory Authz
  imports StoreLaws Http Abac
begin

text \<open>
  The enforcement point, \<open>internal/authz/middleware.go\<close>: it looks up the session of the cookie, maps
  the path to a resource, asks the policy engine, and hands the request on with the identity headers
  of the gateway in place of whatever the client sent under \<open>X-B2BFP-\<close>.
\<close>

section \<open>The middleware\<close>

record DecisionLog =
  lgTime :: instant
  lgTenantID :: string
  lgSubject :: string
  lgResource :: string
  lgDecision :: Decision
  lgSourceIP :: string
  lgPath :: string

record Middleware =
  mwPolicies :: "Policy list"
  mwEnvironment :: Environment
  mwResources :: "Request \<Rightarrow> string option"
  mwTrustForwardedFor :: bool
  mwAuditLog :: bool
    \<comment> \<open>whether a callback is set\<close>

definition sessionCookieName :: string where
  "sessionCookieName = ''b2bfp_session''"

definition SessionFrom :: "Store \<Rightarrow> instant \<Rightarrow> Request \<Rightarrow> Session option \<times> Store" where
  "SessionFrom st now r =
     (case request_Cookie r sessionCookieName of
        None \<Rightarrow> (None, st)
      | Some c \<Rightarrow>
          (case GetSession st now c of
             (Inl e, st') \<Rightarrow> (None, st')
           | (Inr sess, st') \<Rightarrow> (Some sess, st')))"

definition clientIP :: "Request \<Rightarrow> bool \<Rightarrow> string" where
  "clientIP r trustForwardedFor =
     (let xff = header_Get (rqHeader r) ''X-Forwarded-For''
      in if trustForwardedFor \<and> xff \<noteq> [] then TrimSpace (hd (Split xff CHR '',''))
         else (case SplitHostPort (rqRemoteAddr r) of None \<Rightarrow> rqRemoteAddr r | Some (host, port) \<Rightarrow> host))"

text \<open>The loop \<open>for k := range r.Header\<close> that empties the reserved namespace.\<close>

definition reserved :: "string \<Rightarrow> bool" where
  "reserved k = HasPrefix (ToLower k) ''x-b2bfp-''"

definition strip_reserved :: "Header \<Rightarrow> Header" where
  "strip_reserved h = foldl (\<lambda>h k. if reserved k then header_Del h k else h) h (map fst h)"

definition identity_headers :: "Session \<Rightarrow> Header \<Rightarrow> Header" where
  "identity_headers sess h =
     (let h = header_Set h ''X-B2BFP-Tenant-Id'' (sTenantID sess);
          h = header_Set h ''X-B2BFP-User-Id'' (sUserID sess);
          h = header_Set h ''X-B2BFP-Subject'' (sSubject sess);
          h = header_Set h ''X-B2BFP-Auth-Method'' (sAuthMethod sess)
      in case map_of (sAttributes sess) ''Department'' of
           Some (AStr dept) \<Rightarrow> header_Set h ''X-B2BFP-Department'' dept
         | _ \<Rightarrow> h)"

datatype enforce_result = Reply nat string | Next Request

text \<open>
  \<open>Enforce\<close>: the answer or the request handed to \<open>next\<close>, the entries of the audit log and the
  database (looking up an expired session deletes it).  The clock is read for the session, for the
  decision and for the log entry.
\<close>

definition request_context :: "Middleware \<Rightarrow> Request \<Rightarrow> Session \<Rightarrow> instant \<Rightarrow> Context" where
  "request_context m r sess now =
     NewContext (sAttributes sess)
       [(''Source_IP'', AStr (clientIP r (mwTrustForwardedFor m))), (''Method'', AStr (rqMethod r)),
        (''Path'', AStr (rqPath r))] now (mwEnvironment m)"

definition Enforce ::
    "golib \<Rightarrow> Middleware \<Rightarrow> Store \<Rightarrow> instant \<Rightarrow> instant \<Rightarrow> instant \<Rightarrow> Request
     \<Rightarrow> enforce_result \<times> DecisionLog list \<times> Store" where
  "Enforce L m st t1 t2 t3 r =
     (case SessionFrom st t1 r of
        (None, st') \<Rightarrow> (Reply 401 ''authentication required'', [], st')
      | (Some sess, st') \<Rightarrow>
          (case mwResources m r of
             None \<Rightarrow> (Reply 403 ''no resource mapping for this route (default deny)'', [], st')
           | Some resource \<Rightarrow>
               let sourceIP = clientIP r (mwTrustForwardedFor m);
                   decision = Evaluate L (mwPolicies m) resource (request_context m r sess t2);
                   log = (if mwAuditLog m
                          then [\<lparr>lgTime = t3, lgTenantID = sTenantID sess, lgSubject = sSubject sess,
                                 lgResource = resource, lgDecision = decision, lgSourceIP = sourceIP,
                                 lgPath = rqPath r\<rparr>]
                          else [])
               in if dEffect decision \<noteq> Allow
                  then (Reply 403 (''access denied: '' @ dReason decision), log, st')
                  else (Next (r\<lparr>rqHeader := identity_headers sess (strip_reserved (rqHeader r))\<rparr>), log, st')))"

section \<open>Facts\<close>

lemma SessionFrom_Some_iff:
  "fst (SessionFrom st now r) = Some sess \<longleftrightarrow>
     (\<exists>c. request_Cookie r sessionCookieName = Some c \<and> find (\<lambda>s. sID s = c) (sessions st) = Some sess
        \<and> now \<le> sExpiresAt sess)"
  by (auto simp: SessionFrom_def GetSession_def split: option.splits if_splits prod.splits sum.splits)

lemma strip_reserved_lookup:
  assumes "canonical_keys h"
  shows "map_of (strip_reserved h) k = (if reserved k then None else map_of h k)"
proof -
  have fold: "map_of (foldl (\<lambda>h k. if reserved k then header_Del h k else h) g ks) x =
      (if \<exists>k\<in>set ks. reserved k \<and> CanonicalMIMEHeaderKey k = x then None else map_of g x)" for g ks x
    by (induction ks arbitrary: g) (auto simp: map_of_header_Del)
  have same: "reserved k'" if "reserved k''" and "CanonicalMIMEHeaderKey k'' = k'" for k' k''
    using that by (auto simp: reserved_def)
  have key: "map_of h k = None \<or> k \<in> set (map fst h) \<and> CanonicalMIMEHeaderKey k = k"
  proof (cases "map_of h k")
    case (Some v)
    then have "k \<in> set (map fst h)" by (force dest: map_of_SomeD)
    with Some show ?thesis using canonical_keysD [OF assms Some] by simp
  qed simp
  show ?thesis
  proof (cases "reserved k")
    case True
    then show ?thesis using key unfolding strip_reserved_def fold by auto
  next
    case False
    then have "\<not> (\<exists>k'\<in>set (map fst h). reserved k' \<and> CanonicalMIMEHeaderKey k' = k)" using same by blast
    then show ?thesis using False unfolding strip_reserved_def fold by auto
  qed
qed

definition gateway_header :: "Session \<Rightarrow> string \<Rightarrow> string list option" where
  "gateway_header sess k =
     (if k = ''X-B2bfp-Tenant-Id'' then Some [sTenantID sess]
      else if k = ''X-B2bfp-User-Id'' then Some [sUserID sess]
      else if k = ''X-B2bfp-Subject'' then Some [sSubject sess]
      else if k = ''X-B2bfp-Auth-Method'' then Some [sAuthMethod sess]
      else if k = ''X-B2bfp-Department'' then
        (case map_of (sAttributes sess) ''Department'' of Some (AStr d) \<Rightarrow> Some [d] | _ \<Rightarrow> None)
      else None)"

lemma canonical_names:
  "CanonicalMIMEHeaderKey ''X-B2BFP-Tenant-Id'' = ''X-B2bfp-Tenant-Id''"
  "CanonicalMIMEHeaderKey ''X-B2BFP-User-Id'' = ''X-B2bfp-User-Id''"
  "CanonicalMIMEHeaderKey ''X-B2BFP-Subject'' = ''X-B2bfp-Subject''"
  "CanonicalMIMEHeaderKey ''X-B2BFP-Auth-Method'' = ''X-B2bfp-Auth-Method''"
  "CanonicalMIMEHeaderKey ''X-B2BFP-Department'' = ''X-B2bfp-Department''"
  "CanonicalMIMEHeaderKey ''X-Forwarded-For'' = ''X-Forwarded-For''"
  by code_simp+

lemma reserved_names:
  "reserved ''X-B2bfp-Tenant-Id''" "reserved ''X-B2bfp-User-Id''" "reserved ''X-B2bfp-Subject''"
  "reserved ''X-B2bfp-Auth-Method''" "reserved ''X-B2bfp-Department''"
  by code_simp+

lemma identity_headers_lookup:
  "map_of (identity_headers sess h) k = (case gateway_header sess k of Some v \<Rightarrow> Some v | None \<Rightarrow> map_of h k)"
proof (cases "map_of (sAttributes sess) ''Department''")
  case None
  then show ?thesis
    by (simp add: identity_headers_def gateway_header_def Let_def map_of_header_Set canonical_names)
next
  case (Some a)
  then show ?thesis
    by (cases a) (simp_all add: identity_headers_def gateway_header_def Let_def map_of_header_Set canonical_names)
qed

lemma gateway_header_reserved: "gateway_header sess k = Some v \<Longrightarrow> reserved k"
  by (auto simp: gateway_header_def reserved_names split: if_splits)

lemma Enforce_Next_iff:
  "fst (Enforce L m st t1 t2 t3 r) = Next r' \<longleftrightarrow>
     (\<exists>sess resource. fst (SessionFrom st t1 r) = Some sess \<and> mwResources m r = Some resource
        \<and> dEffect (Evaluate L (mwPolicies m) resource (request_context m r sess t2)) = Allow
        \<and> r' = r\<lparr>rqHeader := identity_headers sess (strip_reserved (rqHeader r))\<rparr>)"
  by (auto simp: Enforce_def Let_def split: prod.splits option.splits)

section \<open>Properties\<close>

text \<open>
  C6: A request gets past the enforcement point exactly when its cookie names a session in the
  database that has not expired, its path is mapped to a resource, and the policies grant that
  resource: an applicable policy that is not a Deny and no applicable Deny.
\<close>

theorem Enforce_forwards_iff:
  "(\<exists>r'. fst (Enforce L m st t1 t2 t3 r) = Next r') \<longleftrightarrow>
     (\<exists>c sess resource. request_Cookie r ''b2bfp_session'' = Some c
        \<and> find (\<lambda>s. sID s = c) (sessions st) = Some sess \<and> t1 \<le> sExpiresAt sess
        \<and> mwResources m r = Some resource
        \<and> (\<exists>p\<in>set (mwPolicies m). policy_applies L resource (request_context m r sess t2) p \<and> pEffect p \<noteq> Deny)
        \<and> \<not> (\<exists>p\<in>set (mwPolicies m). policy_applies L resource (request_context m r sess t2) p \<and> pEffect p = Deny))"
  unfolding Enforce_Next_iff SessionFrom_Some_iff abac.outcome_iff sessionCookieName_def by blast

text \<open>
  C10: A request that is handed on carries, of the reserved header names in any spelling, exactly the
  gateway's own ones with the values of the session; everything the client sent under them is gone,
  and every other header, the method, path and cookies are the client's.
\<close>

theorem Enforce_identity_headers:
  assumes "canonical_keys (rqHeader r)" and "fst (Enforce L m st t1 t2 t3 r) = Next r'"
  shows "\<exists>sess. fst (SessionFrom st t1 r) = Some sess
    \<and> (\<forall>k. HasPrefix (ToLower k) ''x-b2bfp-'' \<longrightarrow> map_of (rqHeader r') k = gateway_header sess k)
    \<and> (\<forall>k. \<not> HasPrefix (ToLower k) ''x-b2bfp-'' \<longrightarrow> map_of (rqHeader r') k = map_of (rqHeader r) k)
    \<and> r' = r\<lparr>rqHeader := rqHeader r'\<rparr>"
proof -
  obtain sess where s: "fst (SessionFrom st t1 r) = Some sess"
    and r': "r' = r\<lparr>rqHeader := identity_headers sess (strip_reserved (rqHeader r))\<rparr>"
    using assms(2) unfolding Enforce_Next_iff by blast
  have look: "map_of (rqHeader r') k =
      (case gateway_header sess k of Some v \<Rightarrow> Some v | None \<Rightarrow> if reserved k then None else map_of (rqHeader r) k)" for k
    using r' by (simp add: identity_headers_lookup strip_reserved_lookup [OF assms(1)] split: option.split)
  have "map_of (rqHeader r') k = gateway_header sess k" if "reserved k" for k
    using that look by (auto split: option.splits)
  moreover have "map_of (rqHeader r') k = map_of (rqHeader r) k" if "\<not> reserved k" for k
    using that look gateway_header_reserved [of sess k] by (auto split: option.splits)
  ultimately show ?thesis using s r' unfolding reserved_def by (auto intro!: exI [of _ sess])
qed

text \<open>A session of an engineer, a client that tries to pass an identity of its own, a policy for the route.\<close>

definition bob_session :: Session where
  "bob_session = \<lparr>sID = ''tok'', sTenantID = ''acme'', sUserID = ''u7'', sSubject = ''bob'',
     sAttributes = [(''Department'', AStr ''Engineering'')], sAuthMethod = ''oidc'', sCreatedAt = 0, sExpiresAt = 100\<rparr>"

definition bob_store :: Store where
  "bob_store = empty_store\<lparr>sessions := [bob_session]\<rparr>"

definition spoof_request :: Request where
  "spoof_request = \<lparr>rqMethod = ''GET'', rqPath = ''/api/db/q'', rqHost = ''gw'', rqRemoteAddr = ''10.0.0.5:4000'',
     rqHeader = [(''X-B2bfp-Tenant-Id'', [''evil'']), (''X-B2bfp-Groups'', [''admin'']), (''Accept'', [''*''])],
     rqCookies = [(''b2bfp_session'', ''tok'')]\<rparr>"

definition db_middleware :: Middleware where
  "db_middleware = \<lparr>mwPolicies = [eng_allow], mwEnvironment = no_hours, mwResources = (\<lambda>r. Some ''DB''),
     mwTrustForwardedFor = False, mwAuditLog = True\<rparr>"

theorem Enforce_identity_headers_witness:
  "\<exists>r'. fst (Enforce plain_lib db_middleware bob_store 5 5 5 spoof_request) = Next r'
    \<and> map_of (rqHeader r') ''X-B2bfp-Tenant-Id'' = Some [''acme'']
    \<and> map_of (rqHeader r') ''X-B2bfp-Groups'' = None"
proof -
  have "canonical_keys (rqHeader spoof_request)" by code_simp
  moreover have "fst (SessionFrom bob_store 5 spoof_request) = Some bob_session" by code_simp
  moreover have "fst (Enforce plain_lib db_middleware bob_store 5 5 5 spoof_request) =
      Next (spoof_request\<lparr>rqHeader := identity_headers bob_session (strip_reserved (rqHeader spoof_request))\<rparr>)"
    (is "_ = Next ?r") by code_simp
  moreover have "HasPrefix (ToLower ''X-B2bfp-Tenant-Id'') ''x-b2bfp-''"
    "HasPrefix (ToLower ''X-B2bfp-Groups'') ''x-b2bfp-''" by code_simp+
  ultimately show ?thesis
    using Enforce_identity_headers [of spoof_request plain_lib db_middleware bob_store 5 5 5 ?r]
    by (auto simp: gateway_header_def bob_session_def)
qed

text \<open>
  Unless forwarded addresses are trusted, nothing a client puts into its headers changes the
  decision: two requests that differ in their headers only are both handed on or get the same
  answer, and leave the same entries in the audit log.
\<close>

theorem headers_do_not_sway_decision:
  assumes "\<not> mwTrustForwardedFor m" and "mwResources m (r\<lparr>rqHeader := h\<rparr>) = mwResources m r"
  shows "fst (snd (Enforce L m st t1 t2 t3 (r\<lparr>rqHeader := h\<rparr>))) = fst (snd (Enforce L m st t1 t2 t3 r))
    \<and> (case fst (Enforce L m st t1 t2 t3 r) of
         Reply status msg \<Rightarrow> fst (Enforce L m st t1 t2 t3 (r\<lparr>rqHeader := h\<rparr>)) = Reply status msg
       | Next _ \<Rightarrow> (\<exists>r'. fst (Enforce L m st t1 t2 t3 (r\<lparr>rqHeader := h\<rparr>)) = Next r'))"
proof -
  have ip: "clientIP (r\<lparr>rqHeader := h\<rparr>) (mwTrustForwardedFor m) = clientIP r (mwTrustForwardedFor m)"
    using assms(1) by (simp add: clientIP_def cong: option.case_cong)
  then have ctx: "request_context m (r\<lparr>rqHeader := h\<rparr>) sess t2 = request_context m r sess t2" for sess
    by (simp add: request_context_def)
  have "SessionFrom st t1 (r\<lparr>rqHeader := h\<rparr>) = SessionFrom st t1 r"
    by (simp add: SessionFrom_def request_Cookie_def)
  then show ?thesis
    unfolding Enforce_def using assms(2)
    by (simp add: ip ctx Let_def split: prod.splits option.splits)
qed

theorem headers_do_not_sway_decision_witness:
  "fst (snd (Enforce plain_lib db_middleware bob_store 5 5 5 (spoof_request\<lparr>rqHeader := [(''X-Forwarded-For'', [''10.1.2.3''])]\<rparr>)))
   = fst (snd (Enforce plain_lib db_middleware bob_store 5 5 5 spoof_request))"
  using headers_do_not_sway_decision [where m = db_middleware and r = spoof_request
      and h = "[(''X-Forwarded-For'', [''10.1.2.3''])]" and L = plain_lib and st = bob_store
      and ?t1.0 = 5 and ?t2.0 = 5 and ?t3.0 = 5]
  by (simp add: db_middleware_def)

end
