(* ===== verification/Config.thy ===== *)
theory Config
  imports Abac
begin

text \<open>
  The static configuration, \<open>internal/config/config.go\<close>.  Reading a file and decoding its JSON into
  the structure are parameters.
\<close>

record Tenant =
  tID :: string
  tName :: string
  tSCIMBearerToken :: string
  tSAMLIdPMetadataFile :: string
  tOIDCIssuer :: string
  tOIDCClientID :: string
  tOIDCClientSecret :: string
  tBackendURL :: string

record Config =
  ListenAddr :: string
  DatabasePath :: string
  PublicBaseURL :: string
  PolicyFile :: string
  EnvironmentFile :: string
  SAMLKeyDir :: string
  TrustForwardedForCfg :: bool
  ResourceRoutes :: "(string \<times> string) list"
  Tenants :: "(string \<times> Tenant) list"

datatype config_error = ReadConfig | ParseConfig | ReadEnvironment | ParseEnvironment

definition Load :: "(string \<Rightarrow> string option) \<Rightarrow> (string \<Rightarrow> Config option) \<Rightarrow> string \<Rightarrow> config_error + Config" where
  "Load ReadFile Unmarshal path =
     (case ReadFile path of
        None \<Rightarrow> Inl ReadConfig
      | Some b \<Rightarrow>
          (case Unmarshal b of
             None \<Rightarrow> Inl ParseConfig
           | Some c \<Rightarrow>
               let c = (if ListenAddr c = [] then c\<lparr>ListenAddr := '':8443''\<rparr> else c);
                   c = (if DatabasePath c = [] then c\<lparr>DatabasePath := ''data/gateway.db''\<rparr> else c)
               in Inr c))"

definition LoadEnvironment ::
    "(string \<Rightarrow> string option) \<Rightarrow> (string \<Rightarrow> Environment option) \<Rightarrow> string \<Rightarrow> config_error + Environment" where
  "LoadEnvironment ReadFile Unmarshal path =
     (case ReadFile path of
        None \<Rightarrow> Inl ReadEnvironment
      | Some b \<Rightarrow> (case Unmarshal b of None \<Rightarrow> Inl ParseEnvironment | Some e \<Rightarrow> Inr e))"

lemma Load_defaults:
  "Load rf um path = Inr c \<Longrightarrow> ListenAddr c \<noteq> [] \<and> DatabasePath c \<noteq> []"
  by (auto simp: Load_def Let_def split: option.splits if_splits)

end
