(* ===== verification/Proxy.thy ===== *)
theory Proxy
  imports Authz Config
begin

text \<open>
  The tenant router, \<open>internal/proxy/proxy.go\<close>, with what \<open>httputil.ReverseProxy\<close> does to the
  headers of the request it sends out.  A reverse proxy is its target URL; \<open>url.Parse\<close> is a
  parameter.  The transport to the backend is outside the model.
\<close>

section \<open>The reverse proxy of net/http/httputil\<close>

definition hopHeaders :: "string list" where
  "hopHeaders = [''Connection'', ''Proxy-Connection'', ''Keep-Alive'', ''Proxy-Authenticate'',
     ''Proxy-Authorization'', ''Te'', ''Trailer'', ''Transfer-Encoding'', ''Upgrade'']"

definition trim_ows :: "string \<Rightarrow> string" where
  "trim_ows s = rev (dropWhile (\<lambda>c. c = CHR '' '' \<or> code_of c = 9) (rev (dropWhile (\<lambda>c. c = CHR '' '' \<or> code_of c = 9) s)))"

text \<open>\<open>textproto.TrimString\<close> trims spaces, tabs, line feeds and carriage returns.\<close>

definition TrimString :: "string \<Rightarrow> string" where
  "TrimString s =
     (let sp = (\<lambda>c. code_of c = 32 \<or> code_of c = 9 \<or> code_of c = 10 \<or> code_of c = 13)
      in rev (dropWhile sp (rev (dropWhile sp s))))"

definition connection_tokens :: "Header \<Rightarrow> string list" where
  "connection_tokens h =
     filter (\<lambda>t. t \<noteq> []) (map TrimString (concat (map (\<lambda>f. Split f CHR '','') (header_values h ''Connection''))))"

definition removeHopByHopHeaders :: "Header \<Rightarrow> Header" where
  "removeHopByHopHeaders h = foldl header_Del (foldl header_Del h (connection_tokens h)) hopHeaders"

definition HeaderValuesContainsToken :: "string list \<Rightarrow> string \<Rightarrow> bool" where
  "HeaderValuesContainsToken vs token =
     list_ex (\<lambda>v. list_ex (\<lambda>t. EqualFold (trim_ows t) token) (Split v CHR '','')) vs"

definition upgradeType :: "Header \<Rightarrow> string" where
  "upgradeType h =
     (if HeaderValuesContainsToken (header_values h ''Connection'') ''upgrade'' then header_Get h ''Upgrade'' else [])"

definition ascii_IsPrint :: "string \<Rightarrow> bool" where
  "ascii_IsPrint s = list_all (\<lambda>c. 32 \<le> code_of c \<and> code_of c \<le> 126) s"

text \<open>
  The headers of the outgoing request: the director's \<open>X-Forwarded-Host\<close>, then the removal of
  hop-by-hop headers, then what the proxy sets itself.  \<open>None\<close> is the 502 for an unprintable upgrade.
\<close>

definition outgoing_headers :: "Request \<Rightarrow> Header option" where
  "outgoing_headers r =
     (let h = header_Set (rqHeader r) ''X-Forwarded-Host'' (rqHost r);
          up = upgradeType h
      in if \<not> ascii_IsPrint up then None
         else
           let h = removeHopByHopHeaders h;
               h = (if HeaderValuesContainsToken (header_values (rqHeader r) ''Te'') ''trailers''
                    then header_Set h ''Te'' ''trailers'' else h);
               h = (if up \<noteq> [] then header_Set (header_Set h ''Connection'' ''Upgrade'') ''Upgrade'' up else h);
               h = (case SplitHostPort (rqRemoteAddr r) of
                      None \<Rightarrow> h
                    | Some (ip, port) \<Rightarrow>
                        (let prior = header_values h ''X-Forwarded-For''
                         in header_Set h ''X-Forwarded-For''
                              (if prior = [] then ip else Join prior '', '' @ '', '' @ ip)));
               h = (if map_of h ''User-Agent'' = None then header_Set h ''User-Agent'' [] else h)
           in Some h)"

section \<open>The router\<close>

datatype 'u proxy_result = ProxyReply nat string | Outgoing 'u Request

definition proxyFor ::
    "(string \<Rightarrow> 'u option) \<Rightarrow> (string \<times> 'u) list \<Rightarrow> string \<Rightarrow> string \<Rightarrow> 'u option \<times> (string \<times> 'u) list" where
  "proxyFor url_parse proxies tenantID backendURL =
     (case map_of proxies tenantID of
        Some rp \<Rightarrow> (Some rp, proxies)
      | None \<Rightarrow>
          (case url_parse backendURL of
             None \<Rightarrow> (None, proxies)
           | Some target \<Rightarrow> (Some target, put proxies tenantID target)))"

definition router_Handler ::
    "(string \<Rightarrow> 'u option) \<Rightarrow> (string \<times> Tenant) list \<Rightarrow> (string \<times> 'u) list \<Rightarrow> Request
     \<Rightarrow> 'u proxy_result \<times> (string \<times> 'u) list" where
  "router_Handler url_parse tenants proxies r =
     (let tenantID = header_Get (rqHeader r) ''X-B2BFP-Tenant-Id''
      in case map_of tenants tenantID of
           None \<Rightarrow> (ProxyReply 502 ''no backend configured for tenant'', proxies)
         | Some tenant \<Rightarrow>
             if tBackendURL tenant = [] then (ProxyReply 502 ''no backend configured for tenant'', proxies)
             else (case proxyFor url_parse proxies tenantID (tBackendURL tenant) of
                     (None, proxies') \<Rightarrow> (ProxyReply 500 ''invalid backend configuration'', proxies')
                   | (Some target, proxies') \<Rightarrow>
                       (case outgoing_headers r of
                          None \<Rightarrow> (ProxyReply 502 ''backend unavailable'', proxies')
                        | Some h \<Rightarrow> (Outgoing target (r\<lparr>rqHeader := h\<rparr>), proxies'))))"

text \<open>The handler of \<open>/api/\<close>: enforcement in front of the router.\<close>

definition api_Handler ::
    "golib \<Rightarrow> (string \<Rightarrow> 'u option) \<Rightarrow> Middleware \<Rightarrow> (string \<times> Tenant) list \<Rightarrow> Store \<Rightarrow> (string \<times> 'u) list
     \<Rightarrow> instant \<Rightarrow> instant \<Rightarrow> instant \<Rightarrow> Request \<Rightarrow> 'u proxy_result \<times> Store \<times> (string \<times> 'u) list" where
  "api_Handler L url_parse m tenants st proxies t1 t2 t3 r =
     (case Enforce L m st t1 t2 t3 r of
        (Reply status msg, lg, st') \<Rightarrow> (ProxyReply status msg, st', proxies)
      | (Next r', lg, st') \<Rightarrow>
          (case router_Handler url_parse tenants proxies r' of (res, proxies') \<Rightarrow> (res, st', proxies')))"

section \<open>Facts\<close>

text \<open>Every cached proxy points at the backend its tenant is configured with.\<close>

definition proxies_ok :: "(string \<Rightarrow> 'u option) \<Rightarrow> (string \<times> Tenant) list \<Rightarrow> (string \<times> 'u) list \<Rightarrow> bool" where
  "proxies_ok url_parse tenants proxies =
     (\<forall>t u. map_of proxies t = Some u \<longrightarrow>
        (\<exists>tenant. map_of tenants t = Some tenant \<and> tBackendURL tenant \<noteq> [] \<and> url_parse (tBackendURL tenant) = Some u))"

lemma proxyFor_ok:
  assumes "proxies_ok url_parse tenants proxies" and "map_of tenants t = Some tenant" and "tBackendURL tenant \<noteq> []"
  shows "fst (proxyFor url_parse proxies t (tBackendURL tenant)) = url_parse (tBackendURL tenant)
    \<and> proxies_ok url_parse tenants (snd (proxyFor url_parse proxies t (tBackendURL tenant)))"
proof (cases "map_of proxies t")
  case (Some u)
  then have "url_parse (tBackendURL tenant) = Some u" using assms by (fastforce simp: proxies_ok_def)
  then show ?thesis using Some assms(1) by (simp add: proxyFor_def)
next
  case None
  then show ?thesis
    using assms by (auto simp: proxyFor_def proxies_ok_def map_of_put split: option.splits)
qed

lemma router_Handler_ok:
  assumes "proxies_ok url_parse tenants proxies"
  shows "proxies_ok url_parse tenants (snd (router_Handler url_parse tenants proxies r))"
  using assms proxyFor_ok [OF assms]
  by (auto simp: router_Handler_def Let_def split: option.splits prod.splits)
     (metis snd_conv)+

lemma router_Outgoing:
  assumes "proxies_ok url_parse tenants proxies"
    and "fst (router_Handler url_parse tenants proxies r) = Outgoing u r'"
  shows "\<exists>tenant h. map_of tenants (header_Get (rqHeader r) ''X-B2BFP-Tenant-Id'') = Some tenant
    \<and> url_parse (tBackendURL tenant) = Some u \<and> outgoing_headers r = Some h \<and> r' = r\<lparr>rqHeader := h\<rparr>"
  using assms(2) proxyFor_ok [OF assms(1)]
  by (auto simp: router_Handler_def Let_def split: option.splits prod.splits if_splits)
     (metis fst_conv)+

text \<open>The proxies cached after a sequence of requests has reached the router, whatever they were.\<close>

definition proxies_after ::
    "(string \<Rightarrow> 'u option) \<Rightarrow> (string \<times> Tenant) list \<Rightarrow> Request list \<Rightarrow> (string \<times> 'u) list" where
  "proxies_after url_parse tenants rs = foldl (\<lambda>ps r. snd (router_Handler url_parse tenants ps r)) [] rs"

lemma proxies_after_ok: "proxies_ok url_parse tenants (proxies_after url_parse tenants rs)"
proof -
  have "proxies_ok url_parse tenants ps \<Longrightarrow>
      proxies_ok url_parse tenants (foldl (\<lambda>ps r. snd (router_Handler url_parse tenants ps r)) ps rs)" for ps
    by (induction rs arbitrary: ps) (simp_all add: router_Handler_ok)
  moreover have "proxies_ok url_parse tenants []" by (simp add: proxies_ok_def)
  ultimately show ?thesis by (simp add: proxies_after_def)
qed

lemma plain_names:
  "CanonicalMIMEHeaderKey ''X-Forwarded-Host'' = ''X-Forwarded-Host''"
  "CanonicalMIMEHeaderKey ''Te'' = ''Te''" "CanonicalMIMEHeaderKey ''Connection'' = ''Connection''"
  "CanonicalMIMEHeaderKey ''Upgrade'' = ''Upgrade''" "CanonicalMIMEHeaderKey ''User-Agent'' = ''User-Agent''"
  by code_simp+

lemma plain_not_reserved:
  "\<not> reserved ''X-Forwarded-Host''" "\<not> reserved ''Te''" "\<not> reserved ''Connection''" "\<not> reserved ''Upgrade''"
  "\<not> reserved ''User-Agent''" "\<not> reserved ''X-Forwarded-For''"
  "list_all (\<lambda>k. \<not> reserved (CanonicalMIMEHeaderKey k)) hopHeaders"
  by code_simp+

lemma Set_not_reserved:
  "reserved k \<Longrightarrow> \<not> reserved (CanonicalMIMEHeaderKey n) \<Longrightarrow> map_of (header_Set h n v) k = map_of h k"
  by (auto simp: map_of_header_Set)

lemma removeHopByHop_reserved:
  assumes "reserved k"
  shows "map_of (removeHopByHopHeaders h) k =
    (if k \<in> CanonicalMIMEHeaderKey ` set (connection_tokens h) then None else map_of h k)"
proof -
  have "k \<notin> CanonicalMIMEHeaderKey ` set hopHeaders"
    using plain_not_reserved(7) assms by (auto simp: list_all_iff)
  then show ?thesis by (simp add: removeHopByHopHeaders_def map_of_header_Del_fold)
qed

lemma outgoing_reserved:
  assumes "outgoing_headers r = Some h" and "reserved k"
  shows "map_of h k =
    (if k \<in> CanonicalMIMEHeaderKey ` set (connection_tokens (rqHeader r)) then None else map_of (rqHeader r) k)"
proof -
  let ?h0 = "header_Set (rqHeader r) ''X-Forwarded-Host'' (rqHost r)"
  have tok: "connection_tokens ?h0 = connection_tokens (rqHeader r)"
    by (simp add: connection_tokens_def header_values_def map_of_header_Set plain_names)
  have "\<not> reserved (CanonicalMIMEHeaderKey ''Te'')" "\<not> reserved (CanonicalMIMEHeaderKey ''Connection'')"
    "\<not> reserved (CanonicalMIMEHeaderKey ''Upgrade'')" "\<not> reserved (CanonicalMIMEHeaderKey ''User-Agent'')"
    "\<not> reserved (CanonicalMIMEHeaderKey ''X-Forwarded-For'')"
    unfolding plain_names canonical_names by (rule plain_not_reserved)+
  note skip = this [THEN Set_not_reserved [OF assms(2)]]
  have if_map: "map_of (if b then x else y) k = (if b then map_of x k else map_of y k)" for b x y by simp
  have "map_of h k = map_of (removeHopByHopHeaders ?h0) k"
    using assms(1) unfolding outgoing_headers_def Let_def
    by (clarsimp simp only: option.inject option.distinct if_False if_True if_map skip simp_thms prod.case
        split: if_split_asm option.split prod.split)
  then show ?thesis
    using assms(2) tok by (simp add: removeHopByHop_reserved Set_not_reserved plain_names plain_not_reserved)
qed

lemma connection_tokens_cong:
  "map_of h ''Connection'' = map_of h' ''Connection'' \<Longrightarrow> connection_tokens h = connection_tokens h'"
  by (simp add: connection_tokens_def header_values_def)

lemma api_Outgoing:
  assumes "canonical_keys (rqHeader r)"
    and "fst (api_Handler L url_parse m tenants st proxies t1 t2 t3 r) = Outgoing u r'"
    and "proxies_ok url_parse tenants proxies"
  shows "\<exists>sess tenant resource. fst (SessionFrom st t1 r) = Some sess
    \<and> mwResources m r = Some resource \<and> dEffect (Evaluate L (mwPolicies m) resource (request_context m r sess t2)) = Allow
    \<and> map_of tenants (sTenantID sess) = Some tenant \<and> url_parse (tBackendURL tenant) = Some u
    \<and> (\<forall>k. reserved k \<longrightarrow> map_of (rqHeader r') k =
         (if k \<in> CanonicalMIMEHeaderKey ` set (connection_tokens (rqHeader r)) then None else gateway_header sess k))"
proof -
  obtain r1 where n: "fst (Enforce L m st t1 t2 t3 r) = Next r1"
    and o: "fst (router_Handler url_parse tenants proxies r1) = Outgoing u r'"
    using assms(2) by (auto simp: api_Handler_def split: prod.splits enforce_result.splits)
  obtain sess resource where s: "fst (SessionFrom st t1 r) = Some sess" and res: "mwResources m r = Some resource"
    and allow: "dEffect (Evaluate L (mwPolicies m) resource (request_context m r sess t2)) = Allow"
    and r1: "r1 = r\<lparr>rqHeader := identity_headers sess (strip_reserved (rqHeader r))\<rparr>"
    using n unfolding Enforce_Next_iff by blast
  have look: "map_of (rqHeader r1) k = (case gateway_header sess k of Some v \<Rightarrow> Some v
      | None \<Rightarrow> if reserved k then None else map_of (rqHeader r) k)" for k
    by (simp add: r1 identity_headers_lookup strip_reserved_lookup [OF assms(1)] split: option.split)
  have "gateway_header sess ''Connection'' = None" by (simp add: gateway_header_def)
  then have tok: "connection_tokens (rqHeader r1) = connection_tokens (rqHeader r)"
    using look [of "''Connection''"] plain_not_reserved(3) by (intro connection_tokens_cong) simp
  have "gateway_header sess ''X-B2bfp-Tenant-Id'' = Some [sTenantID sess]" by (simp add: gateway_header_def)
  then have "header_Get (rqHeader r1) ''X-B2BFP-Tenant-Id'' = sTenantID sess"
    by (simp add: header_Get_conv canonical_names look)
  then obtain tenant h where t: "map_of tenants (sTenantID sess) = Some tenant" "url_parse (tBackendURL tenant) = Some u"
    and h: "outgoing_headers r1 = Some h" "r' = r1\<lparr>rqHeader := h\<rparr>"
    using router_Outgoing [OF assms(3) o] by auto
  have "map_of (rqHeader r') k =
      (if k \<in> CanonicalMIMEHeaderKey ` set (connection_tokens (rqHeader r)) then None else gateway_header sess k)"
    if "reserved k" for k
    using outgoing_reserved [OF h(1) that] look [of k] that tok h(2) by (auto split: option.splits)
  then show ?thesis using s res allow t by blast
qed

section \<open>Properties\<close>

text \<open>
  C7: Whatever requests the router has served before, a request that leaves the gateway for a
  backend belongs to a live session and goes to the backend configured for the tenant of that
  session, and each identity header it carries has the value of that session.  The identity headers
  that the client listed in a Connection header are missing: the reverse proxy removes them after
  the gateway has set them.
\<close>

theorem api_routes_to_session_tenant:
  assumes "canonical_keys (rqHeader r)"
    and "fst (api_Handler L url_parse m tenants st (proxies_after url_parse tenants rs) t1 t2 t3 r) = Outgoing u r'"
  shows "\<exists>sess tenant. fst (SessionFrom st t1 r) = Some sess
    \<and> map_of tenants (sTenantID sess) = Some tenant \<and> url_parse (tBackendURL tenant) = Some u
    \<and> (\<forall>k. reserved k \<longrightarrow> map_of (rqHeader r') k =
         (if k \<in> CanonicalMIMEHeaderKey ` set (connection_tokens (rqHeader r)) then None else gateway_header sess k))"
  using api_Outgoing [OF assms proxies_after_ok] by blast

text \<open>A client that asks for its own subject header to be dropped.\<close>

definition drop_subject_request :: Request where
  "drop_subject_request = spoof_request\<lparr>rqHeader := [(''Connection'', [''keep-alive, x-b2bfp-subject''])]\<rparr>"

definition acme_tenants :: "(string \<times> Tenant) list" where
  "acme_tenants = [(''acme'', \<lparr>tID = ''acme'', tName = ''Acme'', tSCIMBearerToken = ''t'', tSAMLIdPMetadataFile = [],
     tOIDCIssuer = [], tOIDCClientID = [], tOIDCClientSecret = [], tBackendURL = ''http://b''\<rparr>)]"

theorem api_routes_to_session_tenant_witness:
  "\<exists>r'. fst (api_Handler plain_lib Some db_middleware acme_tenants bob_store (proxies_after Some acme_tenants [])
             5 5 5 drop_subject_request) = Outgoing ''http://b'' r'
    \<and> map_of (rqHeader r') ''X-B2bfp-Tenant-Id'' = Some [''acme'']
    \<and> map_of (rqHeader r') ''X-B2bfp-Subject'' = None"
proof -
  have c: "canonical_keys (rqHeader drop_subject_request)" by code_simp
  have s: "fst (SessionFrom bob_store 5 drop_subject_request) = Some bob_session" by code_simp
  obtain u r' where o: "fst (api_Handler plain_lib Some db_middleware acme_tenants bob_store
      (proxies_after Some acme_tenants []) 5 5 5 drop_subject_request) = Outgoing u r'"
  proof -
    have "(case fst (api_Handler plain_lib Some db_middleware acme_tenants bob_store
      (proxies_after Some acme_tenants []) 5 5 5 drop_subject_request) of Outgoing u r' \<Rightarrow> True | _ \<Rightarrow> False)"
      by code_simp
    then show ?thesis using that by (auto split: proxy_result.splits)
  qed
  have names: "\<not> ''X-B2bfp-Tenant-Id'' \<in> CanonicalMIMEHeaderKey ` set (connection_tokens (rqHeader drop_subject_request))"
    "''X-B2bfp-Subject'' \<in> CanonicalMIMEHeaderKey ` set (connection_tokens (rqHeader drop_subject_request))"
    by code_simp+
  from api_routes_to_session_tenant [OF c o] s o names reserved_names show ?thesis
    by (auto simp: gateway_header_def bob_session_def acme_tenants_def)
qed

end
