(* ===== verification/ScimGrammar.thy ===== *)
theory ScimGrammar
  imports ScimFilter
begin

text \<open>
  The filter parser against the grammar in the head comment of \<open>filter.go\<close>, as an inductive relation
  between nodes and the tokens that spell them, with the depth of nesting.  The parser accepts
  exactly the token lists that the relation derives, returns the derived node, and neither reads
  past the last token nor runs out of fuel.
\<close>

section \<open>The grammar\<close>

text \<open>Items of one kind separated by tokens of another; then terms, with the depth they are nested at.\<close>

inductive separated :: "tokenKind \<Rightarrow> (Node \<Rightarrow> token list \<Rightarrow> bool) \<Rightarrow> Node list \<Rightarrow> token list \<Rightarrow> bool"
  for kind P where
  one: "P n ts \<Longrightarrow> separated kind P [n] ts"
| more: "separated kind P ns ts \<Longrightarrow> P n us \<Longrightarrow> separated kind P (ns @ [n]) (ts @ (kind, w) # us)"

lemma separated_mono [mono]:
  assumes "\<And>n ts. P n ts \<longrightarrow> Q n ts"
  shows "separated kind P ns ts \<longrightarrow> separated kind Q ns ts"
proof
  assume "separated kind P ns ts"
  then show "separated kind Q ns ts"
    by (induction rule: separated.induct) (use assms in \<open>auto intro: separated.intros\<close>)
qed

definition and_expr :: "(Node \<Rightarrow> token list \<Rightarrow> bool) \<Rightarrow> Node \<Rightarrow> token list \<Rightarrow> bool" where
  "and_expr P n ts \<longleftrightarrow> (\<exists>ns. separated tokAnd P ns ts \<and> n = mk_node AndNode ns)"

definition or_expr :: "(Node \<Rightarrow> token list \<Rightarrow> bool) \<Rightarrow> Node \<Rightarrow> token list \<Rightarrow> bool" where
  "or_expr P n ts \<longleftrightarrow> (\<exists>ns. separated tokOr (and_expr P) ns ts \<and> n = mk_node OrNode ns)"

lemma and_expr_mono [mono]: "(\<And>n ts. P n ts \<longrightarrow> Q n ts) \<Longrightarrow> and_expr P n ts \<longrightarrow> and_expr Q n ts"
  unfolding and_expr_def using separated_mono [of P Q] by blast

lemma or_expr_mono [mono]:
  assumes "\<And>n ts. P n ts \<longrightarrow> Q n ts"
  shows "or_expr P n ts \<longrightarrow> or_expr Q n ts"
proof -
  have "and_expr P m us \<longrightarrow> and_expr Q m us" for m us by (rule and_expr_mono) (rule assms)
  then have "separated tokOr (and_expr P) ns ts \<longrightarrow> separated tokOr (and_expr Q) ns ts" for ns
    by (rule separated_mono)
  then show ?thesis unfolding or_expr_def by blast
qed

inductive filter_term :: "nat \<Rightarrow> Node \<Rightarrow> token list \<Rightarrow> bool" where
  present: "filter_term d (PresentNode a) [(tokAttr, a), (tokPresent, w)]"
| compare: "parseCompValue [t] = Inr (v, []) \<Longrightarrow> filter_term d (CompareNode a op v) [(tokAttr, a), (tokOp, op), t]"
| group: "or_expr (filter_term (Suc d)) n ts \<Longrightarrow> Suc d \<le> maxFilterDepth \<Longrightarrow>
    filter_term d n ((tokLParen, l) # ts @ [(tokRParen, r)])"
| negated: "or_expr (filter_term (Suc d)) n ts \<Longrightarrow> Suc d \<le> maxFilterDepth \<Longrightarrow>
    filter_term d (NotNode n) ((tokNot, w) # (tokLParen, l) # ts @ [(tokRParen, r)])"

section \<open>The parser accepts the grammar\<close>

definition parses_to ::
    "(token list \<Rightarrow> filter_error + Node \<times> token list) \<Rightarrow> (Node \<Rightarrow> token list \<Rightarrow> bool) \<Rightarrow> bool" where
  "parses_to item P \<longleftrightarrow> (\<forall>ts n rest. item ts = Inr (n, rest) \<longrightarrow> (\<exists>us. ts = us @ rest \<and> P n us))"

lemma parses_toD: "parses_to item P \<Longrightarrow> item ts = Inr (n, rest) \<Longrightarrow> \<exists>us. ts = us @ rest \<and> P n us"
  by (simp add: parses_to_def)

lemma chain_loop_sound:
  assumes "parses_to item P" and "chain_loop fuel kind mk item children ts = Inr (node, rest)"
    and "separated kind P children us0"
  shows "\<exists>us ns. ts = us @ rest \<and> separated kind P ns (us0 @ us) \<and> node = mk_node mk ns"
  using assms(2,3)
proof (induction fuel arbitrary: children ts us0)
  case 0
  then show ?case by (cases ts) (auto split: if_splits)
next
  case (Suc n)
  then obtain t ts1 where ts: "ts = t # ts1" by (cases ts) auto
  show ?case
  proof (cases "fst t = kind")
    case True
    then obtain right ts' where item: "item ts1 = Inr (right, ts')"
      and loop: "chain_loop n kind mk item (children @ [right]) ts' = Inr (node, rest)"
      using Suc.prems(1) ts by (auto split: sum.splits)
    obtain us where us: "ts1 = us @ ts'" "P right us" using parses_toD [OF assms(1) item] by blast
    have "separated kind P (children @ [right]) (us0 @ (kind, snd t) # us)"
      by (rule separated.more [OF Suc.prems(2) us(2)])
    from Suc.IH [OF loop this] obtain vs ns where "ts' = vs @ rest"
      "separated kind P ns ((us0 @ (kind, snd t) # us) @ vs)" "node = mk_node mk ns" by blast
    then show ?thesis using ts us True by (intro exI [of _ "t # us @ vs"] exI [of _ ns]) (cases t, auto)
  next
    case False
    then show ?thesis using Suc.prems ts by auto
  qed
qed

lemma parse_chain_sound:
  assumes "parses_to item P"
  shows "parses_to (parse_chain kind mk item) (\<lambda>n ts. \<exists>ns. separated kind P ns ts \<and> n = mk_node mk ns)"
  unfolding parses_to_def
proof (intro allI impI)
  fix ts node rest
  assume "parse_chain kind mk item ts = Inr (node, rest)"
  then obtain left ts' where item: "item ts = Inr (left, ts')"
    and loop: "chain_loop (length ts') kind mk item [left] ts' = Inr (node, rest)"
    by (auto simp: parse_chain_def split: sum.splits)
  obtain us where us: "ts = us @ ts'" "P left us" using parses_toD [OF assms item] by blast
  have "separated kind P [left] us" using us(2) by (rule separated.one)
  from chain_loop_sound [OF assms loop this] obtain vs ns where
    "ts' = vs @ rest" "separated kind P ns (us @ vs)" "node = mk_node mk ns" by blast
  then show "\<exists>us. ts = us @ rest \<and> (\<exists>ns. separated kind P ns us \<and> node = mk_node mk ns)"
    using us(1) by (intro exI [of _ "us @ vs"]) auto
qed

lemma parseCompValue_sound:
  "parseCompValue ts = Inr (v, rest) \<Longrightarrow> \<exists>t. ts = t # rest \<and> parseCompValue [t] = Inr (v, [])"
proof (cases ts)
  case (Cons t ts')
  assume "parseCompValue ts = Inr (v, rest)"
  then show ?thesis
    using Cons by (cases t, cases "fst t") (simp_all add: parseCompValue_def split: option.splits)
qed (simp add: parseCompValue_def)

lemma close_group_sound:
  assumes "close_group err wrap res = Inr (n, rest)"
  shows "\<exists>inner r. res = Inr (inner, (tokRParen, r) # rest) \<and> n = wrap inner"
  using assms by (auto simp: close_group_def split: sum.splits list.splits if_splits)

lemma attr_term_sound:
  assumes "attr_term a ts = Inr (n, rest)"
  shows "\<exists>us. (tokAttr, a) # ts = us @ rest \<and> filter_term d n us"
proof (cases ts)
  case (Cons t ts')
  show ?thesis
  proof (cases "fst t = tokPresent")
    case True
    then show ?thesis
      using assms Cons
      by (cases t) (auto simp: attr_term_def intro!: exI [of _ "[(tokAttr, a), t]"] filter_term.present)
  next
    case False
    then obtain v where op: "fst t = tokOp" and v: "parseCompValue ts' = Inr (v, rest)"
      and n: "n = CompareNode a (snd t) v"
      using assms Cons by (cases t) (auto simp: attr_term_def split: if_splits sum.splits)
    obtain u where "ts' = u # rest" "parseCompValue [u] = Inr (v, [])"
      using parseCompValue_sound [OF v] by blast
    then show ?thesis
      using Cons op n
      by (cases t) (auto intro!: exI [of _ "[(tokAttr, a), t, u]"] filter_term.compare)
  qed
qed (use assms in \<open>simp add: attr_term_def\<close>)

lemma term_body_sound:
  assumes or: "parses_to (por (Suc d)) (or_expr (filter_term (Suc d)))"
    and "term_body por d ts = Inr (n, rest)"
  shows "\<exists>us. ts = us @ rest \<and> filter_term d n us"
proof (cases ts)
  case (Cons t ts1)
  consider (neg) l ts2 where "fst t = tokNot" "ts1 = (tokLParen, l) # ts2" "Suc d \<le> maxFilterDepth"
      "close_group FUnclosedNot NotNode (por (Suc d) ts2) = Inr (n, rest)"
    | (grp) "fst t = tokLParen" "Suc d \<le> maxFilterDepth"
      "close_group FUnclosedGroup (\<lambda>i. i) (por (Suc d) ts1) = Inr (n, rest)"
    | (attr) "fst t = tokAttr" "attr_term (snd t) ts1 = Inr (n, rest)"
    using assms(2) Cons by (cases t) (auto simp: term_body_def split: if_splits list.splits)
  then show ?thesis
  proof cases
    case neg
    obtain inner r where i: "por (Suc d) ts2 = Inr (inner, (tokRParen, r) # rest)" "n = NotNode inner"
      using close_group_sound [OF neg(4)] by blast
    obtain us where us: "ts2 = us @ (tokRParen, r) # rest" "or_expr (filter_term (Suc d)) inner us"
      using parses_toD [OF or i(1)] by blast
    show ?thesis
      using filter_term.negated [OF us(2) neg(3), of "snd t" l r] neg(1,2) us(1) i(2) Cons
      by (cases t) (auto intro!: exI [of _ "t # (tokLParen, l) # us @ [(tokRParen, r)]"])
  next
    case grp
    obtain inner r where i: "por (Suc d) ts1 = Inr (inner, (tokRParen, r) # rest)" "n = inner"
      using close_group_sound [OF grp(3)] by blast
    obtain us where us: "ts1 = us @ (tokRParen, r) # rest" "or_expr (filter_term (Suc d)) inner us"
      using parses_toD [OF or i(1)] by blast
    show ?thesis
      using filter_term.group [OF us(2) grp(2), of "snd t" r] grp(1) us(1) i(2) Cons
      by (cases t) (auto intro!: exI [of _ "t # us @ [(tokRParen, r)]"])
  next
    case attr
    then show ?thesis using attr_term_sound [OF attr(2), of d] Cons by (cases t) auto
  qed
qed (use assms in \<open>simp add: term_body_def\<close>)

lemma parseTerm_Suc: "parseTerm (Suc n) depth ts = term_body (parseOr n) depth ts"
  by (simp add: parseOr_def [abs_def] parseAnd_def [abs_def])

lemma parseTerm_sound: "parses_to (parseTerm n d) (filter_term d)"
proof (induction n arbitrary: d)
  case 0
  show ?case by (simp add: parses_to_def)
next
  case (Suc n)
  have "parses_to (parse_chain tokAnd AndNode (parseTerm n (Suc d))) (and_expr (filter_term (Suc d)))"
    using parse_chain_sound [OF Suc.IH] unfolding and_expr_def [abs_def] .
  from parse_chain_sound [OF this, of tokOr OrNode]
  have "parses_to (parse_chain tokOr OrNode (parse_chain tokAnd AndNode (parseTerm n (Suc d))))
      (or_expr (filter_term (Suc d)))"
    unfolding or_expr_def [abs_def] .
  then have "parses_to (parseOr n (Suc d)) (or_expr (filter_term (Suc d)))"
    by (simp add: parseOr_def [abs_def] parseAnd_def [abs_def])
  from term_body_sound [where por = "parseOr n", OF this] show ?case
    unfolding parses_to_def parseTerm_Suc by blast
qed

lemma parseOr_sound: "parses_to (parseOr n d) (or_expr (filter_term d))"
proof -
  have "parses_to (parseAnd n d) (and_expr (filter_term d))"
    using parse_chain_sound [OF parseTerm_sound, of tokAnd AndNode]
    unfolding and_expr_def [abs_def] parseAnd_def [abs_def] .
  from parse_chain_sound [OF this, of tokOr OrNode] show ?thesis
    unfolding or_expr_def [abs_def] parseOr_def [abs_def] .
qed

text \<open>The other direction: what the grammar derives is parsed, in front of a token that cannot continue it.\<close>

definition parses_all ::
    "(token list \<Rightarrow> bool) \<Rightarrow> (token list \<Rightarrow> filter_error + Node \<times> token list) \<Rightarrow> (Node \<Rightarrow> token list \<Rightarrow> bool) \<Rightarrow> bool" where
  "parses_all ok item P \<longleftrightarrow> (\<forall>n us rest. P n us \<longrightarrow> ok rest \<longrightarrow> item (us @ rest) = Inr (n, rest))"

definition ends_with_other :: "tokenKind list \<Rightarrow> token list \<Rightarrow> bool" where
  "ends_with_other kinds ts \<longleftrightarrow> ts \<noteq> [] \<and> fst (hd ts) \<notin> set kinds"

lemma parse_chain_reaches:
  assumes all: "parses_all ok item P" and "separated kind P ns us"
    and okk: "\<And>w ts. ok ((kind, w) # ts)" and "ok rest"
  shows "\<exists>fuel. length rest \<le> fuel \<and> parse_chain kind mk item (us @ rest) = chain_loop fuel kind mk item ns rest"
  using assms(2,4)
proof (induction arbitrary: rest rule: separated.induct)
  case (one n ts)
  then have "item (ts @ rest) = Inr (n, rest)" using all by (simp add: parses_all_def)
  then show ?case by (auto simp: parse_chain_def)
next
  case (more ns ts n us w)
  obtain fuel where f: "length ((kind, w) # us @ rest) \<le> fuel"
    and c: "parse_chain kind mk item (ts @ (kind, w) # us @ rest) = chain_loop fuel kind mk item ns ((kind, w) # us @ rest)"
    using more.IH [OF okk [of w "us @ rest"]] by blast
  then obtain fuel' where f': "fuel = Suc fuel'" by (cases fuel) auto
  have "item (us @ rest) = Inr (n, rest)" using all more.hyps(2) more.prems by (simp add: parses_all_def)
  then have "parse_chain kind mk item ((ts @ (kind, w) # us) @ rest) = chain_loop fuel' kind mk item (ns @ [n]) rest"
    using c f' by simp
  moreover have "length rest \<le> fuel'" using f f' by simp
  ultimately show ?case by blast
qed

lemma parse_chain_complete:
  assumes "parses_all ok item P" and "\<And>w ts. ok ((kind, w) # ts)"
    and "\<And>ts. ok' ts \<Longrightarrow> ok ts \<and> ends_with_other [kind] ts"
  shows "parses_all ok' (parse_chain kind mk item) (\<lambda>n ts. \<exists>ns. separated kind P ns ts \<and> n = mk_node mk ns)"
  unfolding parses_all_def
proof (intro allI impI)
  fix n us rest
  assume "\<exists>ns. separated kind P ns us \<and> n = mk_node mk ns" and r: "ok' rest"
  then obtain ns where ns: "separated kind P ns us" "n = mk_node mk ns" by blast
  have "ok rest" using assms(3) [OF r] by simp
  from parse_chain_reaches [OF assms(1) ns(1) assms(2) this]
  obtain fuel where "parse_chain kind mk item (us @ rest) = chain_loop fuel kind mk item ns rest" by blast
  then show "parse_chain kind mk item (us @ rest) = Inr (n, rest)"
    using assms(3) [OF r] ns(2) by (cases rest; cases fuel) (auto simp: ends_with_other_def)
qed

abbreviation any_rest :: "token list \<Rightarrow> bool" where "any_rest \<equiv> (\<lambda>ts. True)"
abbreviation after_and :: "token list \<Rightarrow> bool" where "after_and \<equiv> ends_with_other [tokAnd]"
abbreviation after_or :: "token list \<Rightarrow> bool" where "after_or \<equiv> ends_with_other [tokAnd, tokOr]"

lemma parseOr_complete_if:
  assumes "parses_all any_rest (parseTerm n d) (filter_term d)"
  shows "parses_all after_or (parseOr n d) (or_expr (filter_term d))"
proof -
  have "parses_all after_and (parseAnd n d) (and_expr (filter_term d))"
    using parse_chain_complete [OF assms, where kind = tokAnd and ok' = after_and and mk = AndNode]
    unfolding and_expr_def [abs_def] parseAnd_def [abs_def] by simp
  then have "parses_all after_or (parse_chain tokOr OrNode (parseAnd n d))
      (\<lambda>n ts. \<exists>ns. separated tokOr (and_expr (filter_term d)) ns ts \<and> n = mk_node OrNode ns)"
    by (rule parse_chain_complete) (auto simp: ends_with_other_def)
  then show ?thesis unfolding or_expr_def [abs_def] parseOr_def [abs_def] .
qed

lemma parseCompValue_more:
  "parseCompValue [t] = Inr (v, []) \<Longrightarrow> parseCompValue (t # rest) = Inr (v, rest)"
  by (cases t, cases "fst t") (simp_all add: parseCompValue_def split: option.splits)

lemma parseTerm_complete:
  assumes "0 < n" and "maxFilterDepth < n + d"
  shows "parses_all any_rest (parseTerm n d) (filter_term d)"
  using assms
proof (induction n arbitrary: d)
  case 0
  then show ?case by simp
next
  case (Suc n)
  have or: "parseOr n (Suc d) (us @ (tokRParen, r) # rest) = Inr (m, (tokRParen, r) # rest)"
    if "or_expr (filter_term (Suc d)) m us" "Suc d \<le> maxFilterDepth" for m us r rest
    using parseOr_complete_if [OF Suc.IH [of "Suc d"]] Suc.prems that
    by (simp add: parses_all_def ends_with_other_def)
  show ?case
    unfolding parses_all_def parseTerm_Suc
  proof (intro allI impI)
    fix m us rest
    assume "filter_term d m us"
    then show "term_body (parseOr n) d (us @ rest) = Inr (m, rest)"
    proof (cases rule: filter_term.cases)
      case (present a w)
      then show ?thesis by (simp add: term_body_def attr_term_def)
    next
      case (compare t v a op)
      then show ?thesis
        using parseCompValue_more [OF compare(3), of rest] by (simp add: term_body_def attr_term_def)
    next
      case (group ts l r)
      then show ?thesis using or [OF group(2,3)] by (simp add: term_body_def close_group_def)
    next
      case (negated n' ts w l r)
      then show ?thesis using or [OF negated(3,4)] by (simp add: term_body_def close_group_def)
    qed
  qed
qed

section \<open>The parser never reads past the end and never runs out of fuel\<close>

definition eof_ended :: "token list \<Rightarrow> bool" where
  "eof_ended ts \<longleftrightarrow> (\<exists>us x. ts = us @ [(tokEOF, x)] \<and> (\<forall>t\<in>set us. fst t \<noteq> tokEOF))"

definition parse_safe :: "(token list \<Rightarrow> filter_error + 'n \<times> token list) \<Rightarrow> bool" where
  "parse_safe item \<longleftrightarrow> (\<forall>ts. eof_ended ts \<longrightarrow>
     (case item ts of
        Inl e \<Rightarrow> e \<noteq> FPanic \<and> e \<noteq> FOutOfFuel
      | Inr (n, rest) \<Rightarrow> eof_ended rest \<and> length rest < length ts))"

lemma parse_safeD:
  assumes "parse_safe item" and "eof_ended ts"
  shows "item ts = Inl e \<Longrightarrow> e \<noteq> FPanic \<and> e \<noteq> FOutOfFuel"
    and "item ts = Inr (n, rest) \<Longrightarrow> eof_ended rest \<and> length rest < length ts"
  using assms unfolding parse_safe_def by force+

lemma eof_ended_Cons: "eof_ended (t # ts) \<longleftrightarrow> (if ts = [] then fst t = tokEOF else fst t \<noteq> tokEOF \<and> eof_ended ts)"
  unfolding eof_ended_def by (cases ts rule: rev_cases; cases t) (auto simp: Cons_eq_append_conv)

lemma eof_ended_Nil [simp]: "\<not> eof_ended []"
  by (simp add: eof_ended_def)

lemma eof_ended_step: "eof_ended (t # ts) \<Longrightarrow> fst t \<noteq> tokEOF \<Longrightarrow> eof_ended ts"
  by (auto simp: eof_ended_Cons split: if_splits)

lemma chain_loop_safe:
  assumes "parse_safe item" and "kind \<noteq> tokEOF" and "eof_ended ts" and "length ts \<le> fuel"
  shows "case chain_loop fuel kind mk item children ts of
        Inl e \<Rightarrow> e \<noteq> FPanic \<and> e \<noteq> FOutOfFuel
      | Inr (n, rest) \<Rightarrow> eof_ended rest \<and> length rest \<le> length ts"
  using assms(3,4)
proof (induction fuel arbitrary: children ts)
  case 0
  then show ?case by simp
next
  case (Suc n)
  then obtain t ts1 where ts: "ts = t # ts1" by (cases ts) auto
  show ?case
  proof (cases "fst t = kind")
    case True
    have e1: "eof_ended ts1" using eof_ended_step Suc.prems(1) True ts assms(2) by blast
    show ?thesis
    proof (cases "item ts1")
      case (Inl e)
      then show ?thesis using True ts parse_safeD(1) [OF assms(1) e1] by simp
    next
      case (Inr p)
      obtain right ts' where p: "p = (right, ts')" by fastforce
      have "eof_ended ts'" "length ts' < length ts1" using parse_safeD(2) [OF assms(1) e1] Inr p by blast+
      then show ?thesis
        using Suc.IH [of ts' "children @ [right]"] Suc.prems(2) True ts Inr p
        by (auto split: sum.splits)
    qed
  next
    case False
    then show ?thesis using Suc.prems ts by simp
  qed
qed

lemma parse_chain_safe:
  assumes "parse_safe item" and "kind \<noteq> tokEOF"
  shows "parse_safe (parse_chain kind mk item)"
  unfolding parse_safe_def
proof (intro allI impI)
  fix ts
  assume e: "eof_ended ts"
  show "case parse_chain kind mk item ts of
        Inl e \<Rightarrow> e \<noteq> FPanic \<and> e \<noteq> FOutOfFuel
      | Inr (n, rest) \<Rightarrow> eof_ended rest \<and> length rest < length ts"
  proof (cases "item ts")
    case (Inl err)
    then show ?thesis using parse_safeD(1) [OF assms(1) e] by (simp add: parse_chain_def)
  next
    case (Inr p)
    obtain left ts' where p: "p = (left, ts')" by fastforce
    have "eof_ended ts'" "length ts' < length ts" using parse_safeD(2) [OF assms(1) e] Inr p by blast+
    then show ?thesis
      using chain_loop_safe [OF assms, of ts' "length ts'" mk "[left]"] Inr p
      by (auto simp: parse_chain_def split: sum.splits)
  qed
qed

lemma parseCompValue_safe: "parse_safe parseCompValue"
  unfolding parse_safe_def
proof (intro allI impI)
  fix ts
  assume "eof_ended ts"
  then obtain t ts' where ts: "ts = t # ts'" by (cases ts) auto
  with \<open>eof_ended ts\<close> have "eof_ended ts'" if "fst t \<noteq> tokEOF" using eof_ended_step that by blast
  then show "case parseCompValue ts of
        Inl e \<Rightarrow> e \<noteq> FPanic \<and> e \<noteq> FOutOfFuel
      | Inr (n, rest) \<Rightarrow> eof_ended rest \<and> length rest < length ts"
    using ts by (cases t, cases "fst t") (auto simp: parseCompValue_def split: option.splits)
qed

lemma close_group_safe:
  assumes "case res of Inl e \<Rightarrow> e \<noteq> FPanic \<and> e \<noteq> FOutOfFuel
      | Inr (n, rest) \<Rightarrow> eof_ended rest \<and> length rest < k"
    and "err \<noteq> FPanic" and "err \<noteq> FOutOfFuel"
  shows "case close_group err wrap res of
        Inl e \<Rightarrow> e \<noteq> FPanic \<and> e \<noteq> FOutOfFuel
      | Inr (n, rest) \<Rightarrow> eof_ended rest \<and> length rest < k"
proof (cases res)
  case (Inr p)
  obtain inner ts where p: "p = (inner, ts)" by fastforce
  with Inr assms(1) have ts: "eof_ended ts" "length ts < k" by auto
  then obtain t ts' where t: "ts = t # ts'" by (cases ts) auto
  then show ?thesis
    using Inr p ts assms(2,3) eof_ended_step [of t ts'] by (cases t) (auto simp: close_group_def)
qed (use assms in \<open>simp add: close_group_def\<close>)

lemma attr_term_safe:
  assumes "eof_ended ts"
  shows "case attr_term a ts of
        Inl e \<Rightarrow> e \<noteq> FPanic \<and> e \<noteq> FOutOfFuel
      | Inr (n, rest) \<Rightarrow> eof_ended rest \<and> length rest < length ts"
proof -
  obtain t ts' where ts: "ts = t # ts'" using assms by (cases ts) auto
  have "eof_ended ts'" if "fst t = tokPresent \<or> fst t = tokOp" using eof_ended_step [of t ts'] assms ts that by auto
  then show ?thesis
    using ts parse_safeD [OF parseCompValue_safe, of ts']
    by (cases t) (force simp: attr_term_def split: sum.splits)
qed

lemma term_body_safe:
  assumes "Suc d \<le> maxFilterDepth \<Longrightarrow> parse_safe (por (Suc d))"
  shows "parse_safe (term_body por d)"
  unfolding parse_safe_def
proof (intro allI impI)
  fix ts
  assume e: "eof_ended ts"
  let ?ok = "\<lambda>k res. case res of Inl e \<Rightarrow> e \<noteq> FPanic \<and> e \<noteq> FOutOfFuel
      | Inr (n, rest) \<Rightarrow> eof_ended rest \<and> length rest < k"
  have por: "?ok (length us) (por (Suc d) us)" if "eof_ended us" "Suc d \<le> maxFilterDepth" for us
    using assms that unfolding parse_safe_def by blast
  have weaken: "?ok k res \<Longrightarrow> k \<le> k' \<Longrightarrow> ?ok k' res" for k k' res by (auto split: sum.splits)
  obtain t ts1 where ts: "ts = t # ts1" using e by (cases ts) auto
  show "?ok (length ts) (term_body por d ts)"
  proof (cases "fst t = tokEOF")
    case True
    then show ?thesis using ts by (cases t) (simp add: term_body_def)
  next
    case False
    then have e1: "eof_ended ts1" using e ts eof_ended_step by blast
    then obtain t2 ts2 where ts1: "ts1 = t2 # ts2" by (cases ts1) auto
    have neg: "?ok (length ts) (close_group FUnclosedNot NotNode (por (Suc d) ts2))"
      if "Suc d \<le> maxFilterDepth" "fst t2 = tokLParen"
      using eof_ended_step [of t2 ts2] e1 ts1 ts that
      by (intro close_group_safe weaken [OF por]) auto
    have grp: "?ok (length ts) (close_group FUnclosedGroup (\<lambda>i. i) (por (Suc d) ts1))"
      if "Suc d \<le> maxFilterDepth"
      using e1 ts that by (intro close_group_safe weaken [OF por]) auto
    have "?ok (length ts) (attr_term (snd t) ts1)"
      using weaken [OF attr_term_safe [OF e1]] ts by simp
    then show ?thesis
      using neg grp ts ts1 by (cases t; cases t2) (simp add: term_body_def)
  qed
qed

lemma parseTerm_safe:
  assumes "0 < n" and "maxFilterDepth < n + d"
  shows "parse_safe (parseTerm n d)"
  using assms
proof (induction n arbitrary: d)
  case (Suc n)
  have "parse_safe (parseOr n (Suc d))" if "Suc d \<le> maxFilterDepth"
    unfolding parseOr_def [abs_def] parseAnd_def [abs_def]
    using Suc.IH [of "Suc d"] Suc.prems that by (intro parse_chain_safe) auto
  then have "parse_safe (term_body (parseOr n) d)" by (rule term_body_safe)
  then show ?case unfolding parse_safe_def parseTerm_Suc .
qed simp

lemma parseOr_safe: "parse_safe (parseOr (Suc maxFilterDepth) 0)"
  unfolding parseOr_def [abs_def] parseAnd_def [abs_def]
  by (intro parse_chain_safe parseTerm_safe) auto

section \<open>Tokens\<close>

lemma classifyWord_not_EOF [simp]: "fst (classifyWord w) \<noteq> tokEOF"
  by (simp add: classifyWord_def Let_def)

lemma tokenize_loop_shape:
  assumes "tokenize_loop s toks = Inr r" and "\<forall>t\<in>set toks. fst t \<noteq> tokEOF"
  shows "\<exists>us. r = us @ [(tokEOF, [])] \<and> (\<forall>t\<in>set us. fst t \<noteq> tokEOF)"
  using assms
  by (induction s toks rule: tokenize_loop.induct)
     (auto simp add: Let_def split: if_splits option.splits prod.splits)

lemma tokenize_eof_ended: "tokenize s = Inr ts \<Longrightarrow> eof_ended ts"
  using tokenize_loop_shape [of s "[]" ts] by (auto simp: tokenize_def eof_ended_def)

lemma tokenize_loop_acc:
  "tokenize_loop s toks = (case tokenize_loop s [] of Inl e \<Rightarrow> Inl e | Inr ts \<Rightarrow> Inr (toks @ ts))"
proof -
  have "tokenize_loop s (xs @ ys) = (case tokenize_loop s ys of Inl e \<Rightarrow> Inl e | Inr ts \<Rightarrow> Inr (xs @ ts))" for xs ys
    by (induction s ys rule: tokenize_loop.induct)
       (auto simp: Let_def simp del: append_assoc simp: append_assoc [symmetric] split: option.splits)
  from this [of toks "[]"] show ?thesis by simp
qed

lemma parse_tokens_iff:
  assumes "eof_ended toks"
  shows "parse_tokens toks = Inr node \<longleftrightarrow> (\<exists>ts x. toks = ts @ [(tokEOF, x)] \<and> or_expr (filter_term 0) node ts)"
proof
  assume "parse_tokens toks = Inr node"
  then obtain x rest where p: "parseOr (Suc maxFilterDepth) 0 toks = Inr (node, (tokEOF, x) # rest)"
    by (auto simp: parse_tokens_def split: sum.splits list.splits if_splits)
  obtain us where us: "toks = us @ (tokEOF, x) # rest" "or_expr (filter_term 0) node us"
    using parses_toD [OF parseOr_sound p] by blast
  have "eof_ended ((tokEOF, x) # rest)" using parse_safeD(2) [OF parseOr_safe assms p] by simp
  then have "rest = []" by (auto simp: eof_ended_Cons split: if_splits)
  then show "\<exists>ts x. toks = ts @ [(tokEOF, x)] \<and> or_expr (filter_term 0) node ts" using us by blast
next
  assume "\<exists>ts x. toks = ts @ [(tokEOF, x)] \<and> or_expr (filter_term 0) node ts"
  then obtain ts x where t: "toks = ts @ [(tokEOF, x)]" "or_expr (filter_term 0) node ts" by blast
  have "parses_all after_or (parseOr (Suc maxFilterDepth) 0) (or_expr (filter_term 0))"
    by (intro parseOr_complete_if parseTerm_complete) auto
  then have "parseOr (Suc maxFilterDepth) 0 toks = Inr (node, [(tokEOF, x)])"
    using t by (simp add: parses_all_def ends_with_other_def)
  then show "parse_tokens toks = Inr node" by (simp add: parse_tokens_def)
qed

section \<open>Properties\<close>

text \<open>
  C27: The filter parser implements its grammar: a filter that is not blank is accepted with a node
  exactly when its tokens are derivable as that node from the grammar of the package, with at most
  128 levels of parentheses, and nothing follows.
\<close>

theorem ParseFilter_accepts_iff:
  "ParseFilter input = Inr (Some node) \<longleftrightarrow>
     TrimSpace input \<noteq> [] \<and> (\<exists>ts. tokenize input = Inr (ts @ [(tokEOF, [])]) \<and> or_expr (filter_term 0) node ts)"
proof -
  have "parse_tokens toks = Inr node \<longleftrightarrow> (\<exists>ts. toks = ts @ [(tokEOF, [])] \<and> or_expr (filter_term 0) node ts)"
    if t: "tokenize input = Inr toks" for toks
  proof -
    obtain us where "toks = us @ [(tokEOF, [])]"
      using tokenize_loop_shape [of input "[]" toks] t by (auto simp: tokenize_def)
    then show ?thesis using parse_tokens_iff [OF tokenize_eof_ended [OF t], of node] by auto
  qed
  then show ?thesis by (auto simp: ParseFilter_def split: sum.splits)
qed

text \<open>
  C40: Parsing always ends with a node, a blank filter or a proper error: whatever the input, the
  parser does not index behind the last token, and the recursion bounded by the depth check never
  runs out.
\<close>

theorem ParseFilter_total:
  "ParseFilter input \<noteq> Inl FPanic \<and> ParseFilter input \<noteq> Inl FOutOfFuel"
proof (cases "tokenize input")
  case (Inl e)
  have "tokenize_loop s toks = Inl e \<Longrightarrow> e \<noteq> FPanic \<and> e \<noteq> FOutOfFuel" for s toks
    by (induction s toks rule: tokenize_loop.induct) (auto simp: Let_def split: if_splits option.splits)
  then show ?thesis using Inl by (auto simp: ParseFilter_def tokenize_def)
next
  case (Inr toks)
  have "eof_ended toks" using Inr by (rule tokenize_eof_ended)
  then have "parse_tokens toks \<noteq> Inl FPanic \<and> parse_tokens toks \<noteq> Inl FOutOfFuel"
    using parse_safeD [OF parseOr_safe, of toks]
    by (fastforce simp: parse_tokens_def split: sum.splits list.splits if_splits)
  then show ?thesis using Inr by (auto simp: ParseFilter_def split: sum.splits)
qed

text \<open>A run of opening parentheses beyond the limit.\<close>

lemma parseTerm_too_deep:
  assumes "0 < n" and "maxFilterDepth < n + d" and "d \<le> maxFilterDepth" and "maxFilterDepth < m + d"
  shows "parseTerm n d (replicate m (tokLParen, l) @ ts) = Inl FTooDeep"
  using assms
proof (induction n arbitrary: d m)
  case (Suc n)
  then obtain m' where m: "m = Suc m'" by (cases m) auto
  show ?case
  proof (cases "Suc d \<le> maxFilterDepth")
    case True
    then have "parseTerm n (Suc d) (replicate m' (tokLParen, l) @ ts) = Inl FTooDeep"
      using Suc m by simp
    then have "parseOr n (Suc d) (replicate m' (tokLParen, l) @ ts) = Inl FTooDeep"
      by (simp add: parseOr_def parseAnd_def [abs_def] parse_chain_def)
    then show ?thesis using True m unfolding parseTerm_Suc by (simp add: term_body_def close_group_def)
  next
    case False
    then show ?thesis using m unfolding parseTerm_Suc by (simp add: term_body_def)
  qed
qed simp

lemma tokenize_parens:
  "tokenize_loop (replicate m CHR ''('' @ s) [] =
     (case tokenize_loop s [] of Inl e \<Rightarrow> Inl e | Inr ts \<Rightarrow> Inr (replicate m (tokLParen, ''('') @ ts))"
proof (induction m)
  case (Suc m)
  have "\<not> is_space CHR ''(''" by code_simp
  then have "tokenize_loop (replicate (Suc m) CHR ''('' @ s) [] =
      tokenize_loop (replicate m CHR ''('' @ s) [(tokLParen, ''('')]" by simp
  then show ?case
    using Suc tokenize_loop_acc [of "replicate m CHR ''('' @ s" "[(tokLParen, ''('')]"]
    by (simp split: sum.splits)
qed (simp split: sum.splits)

text \<open>
  A filter that opens more than 128 groups is refused with an error, whatever follows.
\<close>

theorem ParseFilter_rejects_deep_nesting:
  assumes "128 < m"
  shows "\<exists>e. ParseFilter (replicate m CHR ''('' @ s) = Inl e"
proof -
  obtain m' where m: "m = Suc m'" using assms by (cases m) auto
  have "\<not> is_space CHR ''(''" by code_simp
  then have "TrimSpace (replicate m CHR ''('' @ s) \<noteq> []"
    using m by (auto simp: TrimSpace_def dropWhile_append split: if_splits)
  moreover have "parseTerm (Suc maxFilterDepth) 0 (replicate m (tokLParen, ''('') @ ts) = Inl FTooDeep" for ts
    using assms by (intro parseTerm_too_deep) (auto simp: maxFilterDepth_def)
  then have "parse_tokens (replicate m (tokLParen, ''('') @ ts) = Inl FTooDeep" for ts
    by (simp add: parse_tokens_def parseOr_def parseAnd_def [abs_def] parse_chain_def)
  ultimately show ?thesis
    by (auto simp: ParseFilter_def tokenize_def tokenize_parens split: sum.splits)
qed

theorem ParseFilter_rejects_deep_nesting_witness:
  "\<exists>e. ParseFilter (replicate 5000 CHR ''('' @ ''userName pr'' @ replicate 5000 CHR '')'') = Inl e"
  by (rule ParseFilter_rejects_deep_nesting) simp

end
