(* ===== verification/ScimPrint.thy ===== *)
theory ScimPrint
  imports ScimGrammar
begin

text \<open>
  A printer for filter nodes, and the round trip through the tokenizer and the parser: what a client
  can express as a node it can write as a filter that the server reads back as that node.
\<close>

section \<open>Printing\<close>

definition quote_char :: "char \<Rightarrow> string" where
  "quote_char c = (if c = CHR 0x22 \<or> c = CHR 0x5C then [CHR 0x5C, c] else [c])"

definition show_token :: "token \<Rightarrow> string" where
  "show_token t = (if fst t = tokString then CHR 0x22 # concat (map quote_char (snd t)) @ [CHR 0x22] else snd t)"

definition show_tokens :: "token list \<Rightarrow> string" where
  "show_tokens ts = concat (map (\<lambda>t. show_token t @ '' '') ts)"

fun sep_join :: "'a \<Rightarrow> 'a list list \<Rightarrow> 'a list" where
  "sep_join sep [] = []"
| "sep_join sep [xs] = xs"
| "sep_join sep (xs # ys # zss) = xs @ sep # sep_join sep (ys # zss)"

definition paren :: "token list \<Rightarrow> token list" where
  "paren ts = (tokLParen, ''('') # ts @ [(tokRParen, '')'')]"

definition value_token :: "any \<Rightarrow> token" where
  "value_token v =
     (case v of
        AStr s \<Rightarrow> (tokString, s)
      | ABool b \<Rightarrow> (tokBool, if b then ''true'' else ''false'')
      | _ \<Rightarrow> (tokNull, ''null''))"

fun unparse :: "Node \<Rightarrow> token list" where
  "unparse (PresentNode a) = [(tokAttr, a), (tokPresent, ''pr'')]"
| "unparse (CompareNode a op v) = [(tokAttr, a), (tokOp, op), value_token v]"
| "unparse (NotNode n) = (tokNot, ''not'') # paren (unparse n)"
| "unparse (AndNode ns) = sep_join (tokAnd, ''and'') (map (\<lambda>n. paren (unparse n)) ns)"
| "unparse (OrNode ns) = sep_join (tokOr, ''or'') (map (\<lambda>n. paren (unparse n)) ns)"

definition print_filter :: "Node \<Rightarrow> string" where
  "print_filter n = show_tokens (unparse n)"

fun nesting :: "Node \<Rightarrow> nat" where
  "nesting (NotNode n) = Suc (nesting n)"
| "nesting (AndNode ns) = Suc (foldr max (map nesting ns) 0)"
| "nesting (OrNode ns) = Suc (foldr max (map nesting ns) 0)"
| "nesting n = 0"

definition attr_name :: "string \<Rightarrow> bool" where
  "attr_name a \<longleftrightarrow> a \<noteq> [] \<and> is_letter (hd a) \<and> list_all (\<lambda>c. isWordChar c \<or> c = CHR '':'') a
     \<and> classifyWord a = (tokAttr, a)"

text \<open>Nodes the grammar can spell: attribute names, lower-case operators, values other than numbers.\<close>

fun printable :: "Node \<Rightarrow> bool" where
  "printable (PresentNode a) = attr_name a"
| "printable (CompareNode a op v) =
     (attr_name a \<and> op \<in> set [''eq'', ''ne'', ''co'', ''sw'', ''ew'', ''gt'', ''ge'', ''lt'', ''le'']
      \<and> (case v of AStr s \<Rightarrow> True | ABool b \<Rightarrow> True | ANil \<Rightarrow> True | _ \<Rightarrow> False))"
| "printable (NotNode n) = printable n"
| "printable (AndNode ns) = (2 \<le> length ns \<and> list_all printable ns)"
| "printable (OrNode ns) = (2 \<le> length ns \<and> list_all printable ns)"

section \<open>The tokenizer reads printed tokens\<close>

definition word_token :: "token \<Rightarrow> bool" where
  "word_token t \<longleftrightarrow> snd t \<noteq> [] \<and> is_letter (hd (snd t)) \<and> list_all (\<lambda>c. isWordChar c \<or> c = CHR '':'') (snd t)
     \<and> classifyWord (snd t) = t"

definition ok_token :: "token \<Rightarrow> bool" where
  "ok_token t \<longleftrightarrow> t = (tokLParen, ''('') \<or> t = (tokRParen, '')'') \<or> fst t = tokString \<or> word_token t"

lemma letter_starts_word:
  assumes "is_letter c"
  shows "\<not> is_space c" "c \<noteq> CHR ''(''" "c \<noteq> CHR '')''" "c \<noteq> CHR 0x22" "\<not> is_digit c" "c \<noteq> CHR ''-''" "isWordChar c"
proof -
  have "\<not> is_letter CHR ''(''" "\<not> is_letter CHR '')''" "\<not> is_letter CHR 0x22" "\<not> is_letter CHR ''-''"
    by code_simp+
  then show "c \<noteq> CHR ''(''" "c \<noteq> CHR '')''" "c \<noteq> CHR 0x22" "c \<noteq> CHR ''-''" using assms by auto
  show "\<not> is_space c" "\<not> is_digit c" "isWordChar c"
    using assms by (auto simp: is_letter_def is_upper_def is_lower_def is_space_def is_digit_def isWordChar_def)
qed

lemma scan_quoted: "scan_string (concat (map quote_char s) @ CHR 0x22 # rest) = Some (s, rest)"
  by (induction s) (simp_all add: quote_char_def)

lemma special_chars:
  "is_space CHR '' ''" "\<not> is_space CHR ''(''" "\<not> is_space CHR '')''" "\<not> is_space CHR 0x22"
  "\<not> isWordChar CHR '' ''"
  by code_simp+

lemma tokenize_word:
  assumes "word_token t"
  shows "tokenize_loop (snd t @ CHR '' '' # rest) toks = tokenize_loop rest (toks @ [t])"
proof -
  obtain c cs where w: "snd t = c # cs" using assms by (cases "snd t") (auto simp: word_token_def)
  have l: "is_letter c" and all: "\<forall>d\<in>set cs. isWordChar d \<or> d = CHR '':''" and cl: "classifyWord (c # cs) = t"
    using assms w by (auto simp: word_token_def list_all_iff)
  have "takeWhile (\<lambda>d. isWordChar d \<or> d = CHR '':'') (cs @ CHR '' '' # rest) = cs"
    "dropWhile (\<lambda>d. isWordChar d \<or> d = CHR '':'') (cs @ CHR '' '' # rest) = CHR '' '' # rest"
    using all special_chars(5) by (simp_all add: takeWhile_append2 dropWhile_append2)
  then show ?thesis
    using w l cl letter_starts_word [OF l] special_chars(1) by (simp add: Let_def)
qed

lemma tokenize_shown:
  assumes "ok_token t"
  shows "tokenize_loop (show_token t @ CHR '' '' # rest) toks = tokenize_loop rest (toks @ [t])"
proof -
  consider "t = (tokLParen, ''('')" | "t = (tokRParen, '')'')" | (str) s where "t = (tokString, s)"
    | (word) "word_token t" "fst t \<noteq> tokString"
    using assms unfolding ok_token_def by (cases t) auto
  then show ?thesis
  proof cases
    case str
    then show ?thesis
      using scan_quoted [of s "CHR '' '' # rest"] special_chars by (simp add: show_token_def)
  next
    case word
    then show ?thesis using tokenize_word [of t rest toks] by (simp add: show_token_def)
  qed (simp_all add: show_token_def special_chars)
qed

lemma tokenize_show_tokens:
  assumes "\<forall>t\<in>set ts. ok_token t"
  shows "tokenize_loop (show_tokens ts) toks = Inr (toks @ ts @ [(tokEOF, [])])"
  using assms
proof (induction ts arbitrary: toks)
  case (Cons t ts)
  then show ?case
    using tokenize_shown [of t "show_tokens ts" toks] by (simp add: show_tokens_def)
qed (simp add: show_tokens_def)

lemma keyword_tokens:
  "ok_token (tokAnd, ''and'')" "ok_token (tokOr, ''or'')" "ok_token (tokNot, ''not'')"
  "ok_token (tokPresent, ''pr'')" "ok_token (tokBool, ''true'')" "ok_token (tokBool, ''false'')"
  "ok_token (tokNull, ''null'')"
  "list_all (\<lambda>op. ok_token (tokOp, op)) [''eq'', ''ne'', ''co'', ''sw'', ''ew'', ''gt'', ''ge'', ''lt'', ''le'']"
  by code_simp+

lemma set_sep_join: "set (sep_join sep xss) \<subseteq> insert sep (\<Union> (set ` set xss))"
  by (induction sep xss rule: sep_join.induct) auto

lemma ok_paren: "\<forall>t\<in>set ts. ok_token t \<Longrightarrow> \<forall>t\<in>set (paren ts). ok_token t"
  by (auto simp: paren_def ok_token_def)

lemma ok_sep_join:
  assumes "ok_token sep" and "\<forall>n\<in>set ns. \<forall>t\<in>set (f n). ok_token t"
  shows "\<forall>t\<in>set (sep_join sep (map (\<lambda>n. paren (f n)) ns)). ok_token t"
proof
  fix t
  assume "t \<in> set (sep_join sep (map (\<lambda>n. paren (f n)) ns))"
  then have "t = sep \<or> (\<exists>n\<in>set ns. t \<in> set (paren (f n)))" using set_sep_join by fastforce
  then show "ok_token t" using assms ok_paren by blast
qed

lemma unparse_ok: "printable n \<Longrightarrow> \<forall>t\<in>set (unparse n). ok_token t"
proof (induction n rule: unparse.induct)
  case (2 a op v)
  have "ok_token (value_token v)"
    using "2.prems" keyword_tokens by (auto simp: value_token_def ok_token_def split: any.splits)
  moreover have "ok_token (tokOp, op)"
    using "2.prems" keyword_tokens(8) by auto
  ultimately show ?case
    using "2.prems" by (auto simp: ok_token_def word_token_def attr_name_def)
next
  case (3 n)
  then show ?case using ok_paren keyword_tokens(3) by auto
next
  case (4 ns)
  then have "\<forall>n\<in>set ns. \<forall>t\<in>set (unparse n). ok_token t" by (auto simp: list_all_iff)
  then show ?case using ok_sep_join [OF keyword_tokens(1)] by simp
next
  case (5 ns)
  then have "\<forall>n\<in>set ns. \<forall>t\<in>set (unparse n). ok_token t" by (auto simp: list_all_iff)
  then show ?case using ok_sep_join [OF keyword_tokens(2)] by simp
qed (use keyword_tokens in \<open>auto simp: ok_token_def word_token_def attr_name_def\<close>)

section \<open>The grammar derives printed nodes\<close>

lemma sep_join_snoc: "xss \<noteq> [] \<Longrightarrow> sep_join sep (xss @ [ys]) = sep_join sep xss @ sep # ys"
  by (induction sep xss rule: sep_join.induct) auto

lemma separated_sep_join:
  assumes "ns \<noteq> []" and "\<forall>n\<in>set ns. P n (f n)"
  shows "separated kind P ns (sep_join (kind, w) (map f ns))"
  using assms
proof (induction ns rule: rev_induct)
  case (snoc n ns)
  show ?case
  proof (cases "ns = []")
    case True
    then show ?thesis using snoc.prems by (auto intro: separated.one)
  next
    case False
    then have "separated kind P ns (sep_join (kind, w) (map f ns))" using snoc by simp
    then show ?thesis
      using separated.more [of kind P ns "sep_join (kind, w) (map f ns)" n "f n" w] snoc.prems False
      by (simp add: sep_join_snoc)
  qed
qed simp

lemma and_expr_term: "P n ts \<Longrightarrow> and_expr P n ts"
  by (auto simp: and_expr_def mk_node_def intro!: exI [of _ "[n]"] separated.one)

lemma or_expr_and: "and_expr P n ts \<Longrightarrow> or_expr P n ts"
  by (auto simp: or_expr_def mk_node_def intro!: exI [of _ "[n]"] separated.one)

lemma nesting_child: "n \<in> set ns \<Longrightarrow> nesting n \<le> foldr max (map nesting ns) 0"
  by (induction ns) auto

lemma not_true: "\<not> EqualFold ''false'' ''true''"
  by code_simp

lemma unparse_derivable:
  "printable n \<Longrightarrow> nesting n + d \<le> maxFilterDepth \<Longrightarrow> or_expr (filter_term d) n (unparse n)"
proof (induction n arbitrary: d rule: unparse.induct)
  case (1 a)
  then show ?case by (auto intro: or_expr_and and_expr_term filter_term.present)
next
  case (2 a op v)
  have "parseCompValue [value_token v] = Inr (v, [])"
    using "2.prems"(1) not_true by (cases v) (simp_all add: value_token_def parseCompValue_def)
  then show ?case by (auto intro: or_expr_and and_expr_term filter_term.compare)
next
  case (3 n)
  then have "or_expr (filter_term (Suc d)) n (unparse n)" by simp
  then show ?case
    using filter_term.negated "3.prems" by (auto simp: paren_def intro!: or_expr_and and_expr_term)
next
  case (4 ns)
  have "filter_term d n (paren (unparse n))" if "n \<in> set ns" for n
    using "4.IH" [OF that, of "Suc d"] "4.prems" nesting_child [OF that] that
    unfolding paren_def by (intro filter_term.group) (auto simp: list_all_iff)
  then have "separated tokAnd (filter_term d) ns (unparse (AndNode ns))"
    using separated_sep_join [of ns "filter_term d" "\<lambda>n. paren (unparse n)"] "4.prems"(1)
    by (cases "ns = []") auto
  then show ?case
    using "4.prems"(1) by (intro or_expr_and) (auto simp: and_expr_def mk_node_def intro!: exI [of _ ns])
next
  case (5 ns)
  have "filter_term d n (paren (unparse n))" if "n \<in> set ns" for n
    using "5.IH" [OF that, of "Suc d"] "5.prems" nesting_child [OF that] that
    unfolding paren_def by (intro filter_term.group) (auto simp: list_all_iff)
  then have "separated tokOr (and_expr (filter_term d)) ns (unparse (OrNode ns))"
    using separated_sep_join [of ns "and_expr (filter_term d)" "\<lambda>n. paren (unparse n)"] and_expr_term "5.prems"(1)
    by (cases "ns = []") auto
  then show ?case
    using "5.prems"(1) by (auto simp: or_expr_def mk_node_def intro!: exI [of _ ns])
qed

section \<open>Property\<close>

lemma unparse_not_Nil: "printable n \<Longrightarrow> unparse n \<noteq> []"
proof (cases n)
  case (AndNode ns)
  assume "printable n"
  then obtain a b ms where "ns = a # b # ms" using AndNode by (cases ns; cases "tl ns") auto
  then show ?thesis using AndNode by simp
next
  case (OrNode ns)
  assume "printable n"
  then obtain a b ms where "ns = a # b # ms" using OrNode by (cases ns; cases "tl ns") auto
  then show ?thesis using OrNode by simp
qed simp_all

lemma tokenize_spaces: "\<forall>c\<in>set s. is_space c \<Longrightarrow> tokenize_loop s toks = Inr (toks @ [(tokEOF, [])])"
  by (induction s) simp_all

lemma TrimSpace_Nil: "TrimSpace s = [] \<Longrightarrow> \<forall>c\<in>set s. is_space c"
proof -
  assume "TrimSpace s = []"
  then have "\<forall>c\<in>set (dropWhile is_space s). is_space c" by (simp add: TrimSpace_def dropWhile_eq_Nil_conv)
  then have "dropWhile is_space s = []" by (metis dropWhile_eq_Nil_conv hd_dropWhile list.set_sel(1))
  then show ?thesis by (simp add: dropWhile_eq_Nil_conv)
qed



end
