(* ===== verification/ScimPatch.thy ===== *)
theory ScimPatch
  imports StoreLaws
begin

text \<open>
  SCIM resources and PATCH, \<open>internal/scim/types.go\<close>, \<open>convert.go\<close> and \<open>patch.go\<close>: the wire
  representation of users and groups, its conversion to and from the records of the store, and the
  operations of a PATCH request.
\<close>

section \<open>Resources (types.go)\<close>

record Name =
  nGivenName :: string
  nFamilyName :: string
  nFormatted :: string

record Email =
  eValue :: string
  eType :: string
  ePrimary :: bool

record Meta =
  mResourceType :: string
  mCreated :: string
  mLastModified :: string
  mVersion :: string
  mLocation :: string

record EnterpriseUser =
  euDepartment :: string
  euManager :: "string option"

record UserResource =
  rSchemas :: "string list"
  rID :: string
  rExternalID :: string
  rUserName :: string
  rName :: "Name option"
  rDisplayName :: string
  rEmails :: "Email list"
  rActive :: "bool option"
  rEnterprise :: "EnterpriseUser option"
  rMeta :: "Meta option"

record GroupMember =
  gmValue :: string
  gmDisplay :: string
  gmRef :: string

record GroupResource =
  grSchemas :: "string list"
  grID :: string
  grExternalID :: string
  grDisplayName :: string
  grMembers :: "GroupMember list"
  grMeta :: "Meta option"

record PatchOp =
  poOp :: string
  poPath :: string
  poValue :: any

definition SchemaUser :: string where
  "SchemaUser = ''urn:ietf:params:scim:schemas:core:2.0:User''"

definition SchemaGroup :: string where
  "SchemaGroup = ''urn:ietf:params:scim:schemas:core:2.0:Group''"

definition SchemaEnterprise :: string where
  "SchemaEnterprise = ''urn:ietf:params:scim:schemas:extension:enterprise:2.0:User''"

section \<open>Conversion (convert.go)\<close>

definition userLocation :: "string \<Rightarrow> string \<Rightarrow> string" where
  "userLocation base rid = base @ ''/v2/Users/'' @ rid"

definition groupLocation :: "string \<Rightarrow> string \<Rightarrow> string" where
  "groupLocation base rid = base @ ''/v2/Groups/'' @ rid"

text \<open>The loop that collects the hexadecimal digits, least significant first.\<close>

definition hex_char :: "nat \<Rightarrow> char" where
  "hex_char d = ''0123456789abcdef'' ! d"

fun etag_digits :: "nat \<Rightarrow> string" where
  "etag_digits n = (if n = 0 then [] else hex_char (n mod 16) # etag_digits (n div 16))"

declare etag_digits.simps [simp del]

definition versionETag :: "int \<Rightarrow> string" where
  "versionETag v =
     (let n = (if v < 0 then - v else v)
      in [CHR ''W'', CHR ''/'', CHR 0x22] @ (if n = 0 then ''0'' else []) @ rev (etag_digits (nat n)) @ [CHR 0x22])"

definition toUserResource :: "golib \<Rightarrow> User \<Rightarrow> string \<Rightarrow> UserResource" where
  "toUserResource L u base =
     \<lparr>rSchemas = [SchemaUser, SchemaEnterprise], rID = uID u, rExternalID = uExternalID u,
      rUserName = uUserName u,
      rName = (if uGivenName u \<noteq> [] \<or> uFamilyName u \<noteq> []
               then Some \<lparr>nGivenName = uGivenName u, nFamilyName = uFamilyName u, nFormatted = []\<rparr> else None),
      rDisplayName = uDisplayName u,
      rEmails = (if uEmail u \<noteq> [] then [\<lparr>eValue = uEmail u, eType = ''work'', ePrimary = True\<rparr>] else []),
      rActive = Some (uActive u),
      rEnterprise = (if uDepartment u \<noteq> [] then Some \<lparr>euDepartment = uDepartment u, euManager = None\<rparr> else None),
      rMeta = Some \<lparr>mResourceType = ''User'', mCreated = fmt_time L (uCreatedAt u),
                    mLastModified = fmt_time L (uUpdatedAt u), mVersion = versionETag (uVersion u),
                    mLocation = userLocation base (uID u)\<rparr>\<rparr>"

text \<open>The loop over the e-mail addresses.\<close>

definition pick_email :: "string \<Rightarrow> Email \<Rightarrow> string" where
  "pick_email cur e = (if ePrimary e \<or> cur = [] then eValue e else cur)"

definition applyUserResource :: "User \<Rightarrow> UserResource \<Rightarrow> User" where
  "applyUserResource dst r =
     (let dst = dst\<lparr>uExternalID := rExternalID r, uUserName := rUserName r, uDisplayName := rDisplayName r\<rparr>;
          dst = (case rName r of
                   None \<Rightarrow> dst
                 | Some n \<Rightarrow> dst\<lparr>uGivenName := nGivenName n, uFamilyName := nFamilyName n\<rparr>);
          dst = dst\<lparr>uActive := (case rActive r of None \<Rightarrow> True | Some b \<Rightarrow> b)\<rparr>;
          dst = dst\<lparr>uEmail := foldl pick_email (uEmail dst) (rEmails r)\<rparr>
      in case rEnterprise r of None \<Rightarrow> dst | Some e \<Rightarrow> dst\<lparr>uDepartment := euDepartment e\<rparr>)"

definition toGroupResource :: "golib \<Rightarrow> Group \<Rightarrow> string \<Rightarrow> GroupResource" where
  "toGroupResource L g base =
     \<lparr>grSchemas = [SchemaGroup], grID = gID g, grExternalID = gExternalID g, grDisplayName = gDisplayName g,
      grMembers = map (\<lambda>m. \<lparr>gmValue = m, gmDisplay = [], gmRef = []\<rparr>) (gMembers g),
      grMeta = Some \<lparr>mResourceType = ''Group'', mCreated = fmt_time L (gCreatedAt g),
                     mLastModified = fmt_time L (gUpdatedAt g), mVersion = versionETag (gVersion g),
                     mLocation = groupLocation base (gID g)\<rparr>\<rparr>"

definition applyGroupResource :: "Group \<Rightarrow> GroupResource \<Rightarrow> Group" where
  "applyGroupResource dst r =
     dst\<lparr>gExternalID := grExternalID r, gDisplayName := grDisplayName r, gMembers := map gmValue (grMembers r)\<rparr>"

section \<open>PATCH (patch.go)\<close>

datatype patch_error = EmptyPathNeedsObject string | RemoveNeedsPath | UnsupportedOp string | ActiveNotBoolean

lemma Cut_shorter: "Cut s c = Some (a, b) \<Longrightarrow> length b < length s"
  by (induction s c arbitrary: a b rule: Cut.induct) (auto split: if_splits)

text \<open>\<open>ReplaceAllString\<close> with the expression \<open>\[[^]]*\]\<close> and the empty string.\<close>

function strip_brackets :: "string \<Rightarrow> string" where
  "strip_brackets [] = []"
| "strip_brackets (c # cs) =
     (if c = CHR ''[''
      then (case Cut cs CHR '']'' of Some (inner, rest) \<Rightarrow> strip_brackets rest | None \<Rightarrow> c # strip_brackets cs)
      else c # strip_brackets cs)"
  by pat_completeness auto
termination
  by (relation "measure length") (auto dest: Cut_shorter)

definition normalizePatchPath :: "string \<Rightarrow> string" where
  "normalizePatchPath p =
     (let p = strip_brackets p;
          p = TrimPrefix p ''urn:ietf:params:scim:schemas:extension:enterprise:2.0:User:'';
          p = TrimPrefix p ''urn:ietf:params:scim:schemas:extension:enterprise:2.0:user:''
      in ToLower (TrimSpace p))"

text \<open>\<open>m["value"].(string)\<close> and its like on a JSON object.\<close>

definition obj_string :: "attrs \<Rightarrow> string \<Rightarrow> string option" where
  "obj_string m k = (case map_of m k of Some (AStr s) \<Rightarrow> Some s | _ \<Rightarrow> None)"

definition email_of_value :: "any \<Rightarrow> string option" where
  "email_of_value v =
     (case v of
        AStr s \<Rightarrow> Some s
      | AList (AObj m # _) \<Rightarrow> obj_string m ''value''
      | AObj m \<Rightarrow> obj_string m ''value''
      | _ \<Rightarrow> None)"

definition setUserField :: "User \<Rightarrow> string \<Rightarrow> any \<Rightarrow> patch_error + User" where
  "setUserField u path v =
     (if path = ''active'' then (case v of ABool b \<Rightarrow> Inr (u\<lparr>uActive := b\<rparr>) | _ \<Rightarrow> Inl ActiveNotBoolean)
      else if path = ''username'' then Inr (u\<lparr>uUserName := str_or_empty v\<rparr>)
      else if path = ''displayname'' then Inr (u\<lparr>uDisplayName := str_or_empty v\<rparr>)
      else if path = ''externalid'' then Inr (u\<lparr>uExternalID := str_or_empty v\<rparr>)
      else if path = ''name.givenname'' then Inr (u\<lparr>uGivenName := str_or_empty v\<rparr>)
      else if path = ''name.familyname'' then Inr (u\<lparr>uFamilyName := str_or_empty v\<rparr>)
      else if path = ''department'' then Inr (u\<lparr>uDepartment := str_or_empty v\<rparr>)
      else if path = ''emails'' \<or> path = ''emails.value'' then
        Inr (case email_of_value v of None \<Rightarrow> u | Some s \<Rightarrow> u\<lparr>uEmail := s\<rparr>)
      else if path = ''name'' then
        Inr (case v of
               AObj m \<Rightarrow>
                 let u = (case obj_string m ''givenName'' of None \<Rightarrow> u | Some s \<Rightarrow> u\<lparr>uGivenName := s\<rparr>)
                 in (case obj_string m ''familyName'' of None \<Rightarrow> u | Some s \<Rightarrow> u\<lparr>uFamilyName := s\<rparr>)
             | _ \<Rightarrow> u)
      else Inr (u\<lparr>uAttributes := put (uAttributes u) path v\<rparr>))"

definition clearUserField :: "User \<Rightarrow> string \<Rightarrow> User" where
  "clearUserField u path =
     (if path = ''active'' then u\<lparr>uActive := False\<rparr>
      else if path = ''displayname'' then u\<lparr>uDisplayName := []\<rparr>
      else if path = ''department'' then u\<lparr>uDepartment := []\<rparr>
      else if path = ''emails'' \<or> path = ''emails.value'' then u\<lparr>uEmail := []\<rparr>
      else if path = ''name.givenname'' then u\<lparr>uGivenName := []\<rparr>
      else if path = ''name.familyname'' then u\<lparr>uFamilyName := []\<rparr>
      else u\<lparr>uAttributes := del (uAttributes u) path\<rparr>)"

text \<open>The loop over the keys of an object value, in the order the map is traversed.\<close>

fun set_fields :: "User \<Rightarrow> attrs \<Rightarrow> patch_error + User" where
  "set_fields u [] = Inr u"
| "set_fields u ((k, v) # obj) =
     (case setUserField u (normalizePatchPath k) v of Inl e \<Rightarrow> Inl e | Inr u' \<Rightarrow> set_fields u' obj)"

definition user_patch_step :: "User \<Rightarrow> PatchOp \<Rightarrow> patch_error + User" where
  "user_patch_step u op =
     (let verb = ToLower (poOp op); path = normalizePatchPath (poPath op)
      in if verb = ''replace'' \<or> verb = ''add'' then
           (if path = [] then (case poValue op of AObj obj \<Rightarrow> set_fields u obj | _ \<Rightarrow> Inl (EmptyPathNeedsObject verb))
            else setUserField u path (poValue op))
         else if verb = ''remove'' then
           (if path = [] then Inl RemoveNeedsPath else Inr (clearUserField u path))
         else Inl (UnsupportedOp (poOp op)))"

fun applyUserPatch :: "User \<Rightarrow> PatchOp list \<Rightarrow> patch_error + User" where
  "applyUserPatch u [] = Inr u"
| "applyUserPatch u (op # ops) =
     (case user_patch_step u op of Inl e \<Rightarrow> Inl e | Inr u' \<Rightarrow> applyUserPatch u' ops)"

definition member_of_item :: "any \<Rightarrow> string list" where
  "member_of_item item =
     (case item of
        AObj m \<Rightarrow> (case obj_string m ''value'' of None \<Rightarrow> [] | Some s \<Rightarrow> [s])
      | AStr s \<Rightarrow> [s]
      | _ \<Rightarrow> [])"

definition extractMemberIDs :: "any \<Rightarrow> string list" where
  "extractMemberIDs v = (case v of AList items \<Rightarrow> concat (map member_of_item items) | _ \<Rightarrow> member_of_item v)"

definition re_space :: "char \<Rightarrow> bool" where
  "re_space c = (code_of c \<in> {9, 10, 12, 13, 32})"

text \<open>\<open>value\s+eq\s+"([^"]+)"\<close> at the start of the text, then at the leftmost place it matches.\<close>

definition match_value_eq :: "string \<Rightarrow> string option" where
  "match_value_eq s =
     (if \<not> HasPrefix s ''value'' then None
      else let a = drop 5 s; b = dropWhile re_space a
           in if a = b \<or> \<not> HasPrefix b ''eq'' then None
              else let c = drop 2 b; d = dropWhile re_space c
                   in if c = d \<or> \<not> HasPrefix d [CHR 0x22] then None
                      else (case Cut (drop 1 d) CHR 0x22 of
                              None \<Rightarrow> None
                            | Some (v, rest) \<Rightarrow> if v = [] then None else Some v))"

fun find_value_eq :: "string \<Rightarrow> string option" where
  "find_value_eq [] = None"
| "find_value_eq (c # cs) = (case match_value_eq (c # cs) of Some v \<Rightarrow> Some v | None \<Rightarrow> find_value_eq cs)"

definition extractBracketedValue :: "string \<Rightarrow> string" where
  "extractBracketedValue path = (case find_value_eq path of None \<Rightarrow> [] | Some v \<Rightarrow> v)"

definition containsStr :: "string list \<Rightarrow> string \<Rightarrow> bool" where
  "containsStr xs s = list_ex (\<lambda>v. v = s) xs"

definition removeAll_ids :: "string list \<Rightarrow> string list \<Rightarrow> string list" where
  "removeAll_ids xs rm = filter (\<lambda>v. v \<notin> set rm) xs"

definition add_member :: "string list \<Rightarrow> string \<Rightarrow> string list" where
  "add_member ms m = (if containsStr ms m then ms else ms @ [m])"

definition group_patch_step :: "Group \<Rightarrow> PatchOp \<Rightarrow> patch_error + Group" where
  "group_patch_step g op =
     (let verb = ToLower (poOp op); path = normalizePatchPath (poPath op)
      in if verb = ''add'' then
           Inr (g\<lparr>gMembers := foldl add_member (gMembers g) (extractMemberIDs (poValue op))\<rparr>)
         else if verb = ''remove'' then
           (if path = ''members'' \<or> path = [] then
              (let ids = extractMemberIDs (poValue op)
               in Inr (g\<lparr>gMembers := (if ids = [] then [] else removeAll_ids (gMembers g) ids)\<rparr>))
            else
              (let rid = extractBracketedValue (poPath op)
               in Inr (if rid \<noteq> [] then g\<lparr>gMembers := removeAll_ids (gMembers g) [rid]\<rparr> else g)))
         else if verb = ''replace'' then
           (if path = ''displayname'' then Inr (g\<lparr>gDisplayName := str_or_empty (poValue op)\<rparr>)
            else Inr (g\<lparr>gMembers := extractMemberIDs (poValue op)\<rparr>))
         else Inl (UnsupportedOp (poOp op)))"

fun applyGroupPatch :: "Group \<Rightarrow> PatchOp list \<Rightarrow> patch_error + Group" where
  "applyGroupPatch g [] = Inr g"
| "applyGroupPatch g (op # ops) =
     (case group_patch_step g op of Inl e \<Rightarrow> Inl e | Inr g' \<Rightarrow> applyGroupPatch g' ops)"

section \<open>Facts\<close>

text \<open>What neither a resource nor a patch can change: id, tenant, version and timestamps.\<close>

definition same_user_key :: "User \<Rightarrow> User \<Rightarrow> bool" where
  "same_user_key u u' \<longleftrightarrow> uID u' = uID u \<and> uTenantID u' = uTenantID u \<and> uVersion u' = uVersion u
     \<and> uCreatedAt u' = uCreatedAt u \<and> uUpdatedAt u' = uUpdatedAt u"

definition same_group_key :: "Group \<Rightarrow> Group \<Rightarrow> bool" where
  "same_group_key g g' \<longleftrightarrow> gID g' = gID g \<and> gTenantID g' = gTenantID g \<and> gVersion g' = gVersion g
     \<and> gCreatedAt g' = gCreatedAt g \<and> gUpdatedAt g' = gUpdatedAt g"

lemma applyUserResource_key: "same_user_key u (applyUserResource u r)"
  by (simp add: same_user_key_def applyUserResource_def Let_def split: option.splits)

lemma setUserField_key: "setUserField u path v = Inr u' \<Longrightarrow> same_user_key u u'"
proof -
  have "case setUserField u path v of Inl e \<Rightarrow> True | Inr u' \<Rightarrow> same_user_key u u'"
    unfolding setUserField_def same_user_key_def by (simp add: Let_def split: any.split option.split)
  then show "setUserField u path v = Inr u' \<Longrightarrow> same_user_key u u'" by simp
qed

lemma same_user_key_trans: "same_user_key u v \<Longrightarrow> same_user_key v w \<Longrightarrow> same_user_key u w"
  by (simp add: same_user_key_def)

lemma set_fields_key: "set_fields u obj = Inr u' \<Longrightarrow> same_user_key u u'"
proof (induction obj arbitrary: u)
  case (Cons kv obj)
  obtain k v where kv: "kv = (k, v)" by fastforce
  with Cons.prems obtain u1 where "setUserField u (normalizePatchPath k) v = Inr u1" "set_fields u1 obj = Inr u'"
    by (auto split: sum.splits)
  then show ?case using Cons.IH setUserField_key same_user_key_trans by blast
qed (simp add: same_user_key_def)

lemma user_patch_step_key:
  assumes "user_patch_step u op = Inr u'"
  shows "same_user_key u u'"
proof -
  have "same_user_key u (clearUserField u path)" for path
    by (simp add: same_user_key_def clearUserField_def)
  then show ?thesis
    using assms set_fields_key setUserField_key
    by (auto simp: user_patch_step_def Let_def split: if_splits any.splits)
qed

lemma applyUserPatch_key: "applyUserPatch u ops = Inr u' \<Longrightarrow> same_user_key u u'"
proof (induction ops arbitrary: u)
  case (Cons op ops)
  then obtain u1 where "user_patch_step u op = Inr u1" "applyUserPatch u1 ops = Inr u'"
    by (auto split: sum.splits)
  then show ?case using Cons.IH user_patch_step_key same_user_key_trans by blast
qed (simp add: same_user_key_def)

lemma applyGroupResource_key: "same_group_key g (applyGroupResource g r)"
  by (simp add: same_group_key_def applyGroupResource_def)

lemma group_patch_step_key: "group_patch_step g op = Inr g' \<Longrightarrow> same_group_key g g'"
  by (auto simp: group_patch_step_def same_group_key_def Let_def split: if_splits)

lemma applyGroupPatch_key: "applyGroupPatch g ops = Inr g' \<Longrightarrow> same_group_key g g'"
proof (induction ops arbitrary: g)
  case (Cons op ops)
  then obtain g1 where "group_patch_step g op = Inr g1" "applyGroupPatch g1 ops = Inr g'"
    by (auto split: sum.splits)
  then have "same_group_key g g1" "same_group_key g1 g'" using Cons.IH group_patch_step_key by blast+
  then show ?case by (simp add: same_group_key_def)
qed (simp add: same_group_key_def)

section \<open>Properties of the conversion\<close>


text \<open>Reading the digits back, most significant first.\<close>

definition hex_value :: "char \<Rightarrow> nat" where
  "hex_value c = (if is_digit c then code_of c - 48 else code_of c - 87)"

lemma hex_value_char: "d < 16 \<Longrightarrow> hex_value (hex_char d) = d"
proof -
  have "list_all (\<lambda>d. hex_value (hex_char d) = d) [0..<16]" by code_simp
  then show "d < 16 \<Longrightarrow> hex_value (hex_char d) = d" by (simp add: list_all_iff)
qed

lemma etag_digits_value: "foldr (\<lambda>c n. hex_value c + 16 * n) (etag_digits n) 0 = n"
proof (induction n rule: etag_digits.induct)
  case (1 n)
  show ?case
  proof (cases "n = 0")
    case False
    then show ?thesis using 1 by (simp add: etag_digits.simps [of n] hex_value_char)
  qed (simp add: etag_digits.simps)
qed

lemma etag_digits_inject: "etag_digits m = etag_digits n \<Longrightarrow> m = n"
  by (metis etag_digits_value)

lemma etag_digits_not_zero: "etag_digits n \<noteq> [CHR ''0'']"
proof
  assume a: "etag_digits n = [CHR ''0'']"
  have "hex_value CHR ''0'' = 0" by code_simp
  then have "n = 0" using etag_digits_value [of n] a by simp
  then show False using a by (simp add: etag_digits.simps)
qed

text \<open>
  The entity tag identifies the version: two versions of a record (they start at 1 and grow)
  have the same tag only if they are equal.
\<close>

theorem versionETag_injective:
  assumes "0 \<le> v" and "0 \<le> w" and "versionETag v = versionETag w"
  shows "v = w"
proof -
  have body: "(if n = 0 then ''0'' else []) @ rev (etag_digits (nat n)) = rev (if n = 0 then ''0'' else etag_digits (nat n))"
    for n :: int by (simp add: etag_digits.simps [of 0])
  have "(if v = 0 then ''0'' else etag_digits (nat v)) = (if w = 0 then ''0'' else etag_digits (nat w))"
    using assms body [of v] body [of w] by (simp add: versionETag_def Let_def split: if_splits)
  then show ?thesis
    using assms(1,2) etag_digits_not_zero [of "nat v"] etag_digits_not_zero [of "nat w"]
      etag_digits_inject [of "nat v" "nat w"]
    by (auto split: if_splits)
qed

theorem versionETag_injective_witness: "versionETag 31 = versionETag 31 \<and> (31::int) = 31"
  using versionETag_injective [of 31 31] by simp

section \<open>Properties of group patches\<close>

lemma set_add_members: "set (foldl add_member ms ids) = set ms \<union> set ids"
  by (induction ids arbitrary: ms) (auto simp: add_member_def containsStr_def list_ex_iff)

lemma distinct_add_members: "distinct ms \<Longrightarrow> distinct (foldl add_member ms ids)"
  by (induction ids arbitrary: ms) (auto simp: add_member_def containsStr_def list_ex_iff)

text \<open>A roster change as identity providers send it, and what it means on the set of members.\<close>

datatype roster_op = AddMembers "string list" | RemoveMembers "string list"

fun roster_patch :: "roster_op \<Rightarrow> PatchOp" where
  "roster_patch (AddMembers ids) = \<lparr>poOp = ''add'', poPath = ''members'',
     poValue = AList (map (\<lambda>i. AObj [(''value'', AStr i)]) ids)\<rparr>"
| "roster_patch (RemoveMembers ids) = \<lparr>poOp = ''remove'', poPath = ''members'',
     poValue = AList (map (\<lambda>i. AObj [(''value'', AStr i)]) ids)\<rparr>"

fun roster_spec :: "string set \<Rightarrow> roster_op \<Rightarrow> string set" where
  "roster_spec M (AddMembers ids) = M \<union> set ids"
| "roster_spec M (RemoveMembers ids) = (if ids = [] then {} else M - set ids)"

lemma extract_wrapped: "extractMemberIDs (AList (map (\<lambda>i. AObj [(''value'', AStr i)]) ids)) = ids"
  by (induction ids) (simp_all add: extractMemberIDs_def member_of_item_def obj_string_def)

lemma verbs: "ToLower ''add'' = ''add''" "ToLower ''remove'' = ''remove''" "ToLower ''replace'' = ''replace''"
  "normalizePatchPath ''members'' = ''members''" "normalizePatchPath [] = []"
  by code_simp+

lemma roster_step:
  assumes "distinct (gMembers g)"
  shows "\<exists>ms. group_patch_step g (roster_patch op) = Inr (g\<lparr>gMembers := ms\<rparr>) \<and> distinct ms
    \<and> set ms = roster_spec (set (gMembers g)) op"
  using assms
  by (cases op)
     (auto simp: group_patch_step_def Let_def verbs extract_wrapped set_add_members distinct_add_members removeAll_ids_def)

text \<open>
  C38: Roster changes refine set operations: a PATCH that adds and removes members by value succeeds,
  changes nothing but the members, keeps them free of repetitions, and their set is the result of
  the corresponding unions and differences (a removal without values empties it).
\<close>

theorem group_patch_refines_sets:
  assumes "distinct (gMembers g)"
  shows "\<exists>ms. applyGroupPatch g (map roster_patch ops) = Inr (g\<lparr>gMembers := ms\<rparr>) \<and> distinct ms
    \<and> set ms = foldl roster_spec (set (gMembers g)) ops"
  using assms
proof (induction ops arbitrary: g)
  case Nil
  then show ?case by (auto intro!: exI [of _ "gMembers g"])
next
  case (Cons op ops)
  obtain ms where ms: "group_patch_step g (roster_patch op) = Inr (g\<lparr>gMembers := ms\<rparr>)" "distinct ms"
    "set ms = roster_spec (set (gMembers g)) op"
    using roster_step [OF Cons.prems] by blast
  then show ?case using Cons.IH [of "g\<lparr>gMembers := ms\<rparr>"] by simp
qed

definition two_members :: Group where
  "two_members = \<lparr>gID = ''g1'', gTenantID = ''acme'', gExternalID = [], gDisplayName = ''ops'',
     gMembers = [''u1'', ''u2''], gVersion = 1, gCreatedAt = 0, gUpdatedAt = 0\<rparr>"

theorem group_patch_refines_sets_witness:
  "\<exists>ms. applyGroupPatch two_members (map roster_patch [AddMembers [''u3''], RemoveMembers [''u1'']])
      = Inr (two_members\<lparr>gMembers := ms\<rparr>) \<and> set ms = {''u2'', ''u3''}"
  using group_patch_refines_sets [of two_members "[AddMembers [''u3''], RemoveMembers [''u1'']]"]
  by (auto simp: two_members_def)

lemma Cut_append: "c \<notin> set a \<Longrightarrow> Cut (a @ c # b) c = Some (a, b)"
  by (induction a) auto

text \<open>
  The removal of one member by a value filter in the path removes all of them: the path
  \<open>members[value eq "id"]\<close> is cut down to \<open>members\<close> before it is looked at, and without a value in
  the operation that clears the whole roster.
\<close>

theorem filtered_remove_clears_group:
  assumes "CHR '']'' \<notin> set uid" and "poOp op = ''remove''" and "poValue op = ANil"
    and "poPath op = ''members[value eq '' @ [CHR 0x22] @ uid @ [CHR 0x22] @ '']''"
  shows "applyGroupPatch g [op] = Inr (g\<lparr>gMembers := []\<rparr>)"
proof -
  have "Cut (''value eq '' @ [CHR 0x22] @ uid @ [CHR 0x22] @ '']'') CHR '']'' =
      Some (''value eq '' @ [CHR 0x22] @ uid @ [CHR 0x22], [])"
    using Cut_append [of "CHR '']''" "''value eq '' @ [CHR 0x22] @ uid @ [CHR 0x22]" "[]"] assms(1) by simp
  then have "strip_brackets (poPath op) = ''members''" using assms(4) by simp
  then have "normalizePatchPath (poPath op) = ''members''"
    using verbs(4) by (simp add: normalizePatchPath_def Let_def)
  then show ?thesis
    using assms(2,3) verbs(2) by (simp add: group_patch_step_def extractMemberIDs_def member_of_item_def Let_def)
qed

theorem filtered_remove_clears_group_witness:
  "applyGroupPatch two_members [\<lparr>poOp = ''remove'', poPath = ''members[value eq '' @ [CHR 0x22] @ ''u1'' @ [CHR 0x22] @ '']'',
     poValue = ANil\<rparr>] = Inr (two_members\<lparr>gMembers := []\<rparr>)"
  by (rule filtered_remove_clears_group [of "''u1''"]) simp_all

end
