(* ===== verification/ScimServer.thy ===== *)
theory ScimServer
  imports Directory ScimFilter ScimPatch Http Config
begin

text \<open>
  The SCIM server, \<open>internal/scim/server.go\<close>, \<open>users_handler.go\<close> and \<open>groups_handler.go\<close>: bearer-token
  authentication per tenant, paging, and the handlers of the Users and Groups endpoints.  A request
  carries the path values, the query parameters and the result of decoding its body (\<open>None\<close> when
  \<open>encoding/json\<close> rejects it or it exceeds the limit of 5 MiB); a handler returns the response and the
  new state of the database.
\<close>

section \<open>Requests and responses\<close>

record scim_request =
  sqTenant :: string
  sqID :: string
  sqHeader :: Header
  sqFilter :: string
  sqStartIndex :: string
  sqCount :: string
  sqUserBody :: "UserResource option"
  sqGroupBody :: "GroupResource option"
  sqPatchBody :: "PatchOp list option"

datatype scim_detail =
    Detail string
  | StoreErr store_error
  | FilterErr filter_error
  | PatchErr patch_error

record 'a ListResponse =
  TotalResults :: nat
  ItemsPerPage :: nat
  StartIndex :: int
  Resources :: "'a list"

datatype scim_body =
    ErrorBody string scim_detail
  | UserBody UserResource
  | GroupBody GroupResource
  | UserListBody "UserResource ListResponse"
  | GroupListBody "GroupResource ListResponse"
  | ConfigBody
  | NoBody

record scim_response =
  spStatus :: nat
  spLocation :: "string option"
  spBody :: scim_body

definition writeError :: "nat \<Rightarrow> string \<Rightarrow> scim_detail \<Rightarrow> scim_response" where
  "writeError status scimType detail = \<lparr>spStatus = status, spLocation = None, spBody = ErrorBody scimType detail\<rparr>"

definition writeJSON :: "nat \<Rightarrow> scim_body \<Rightarrow> scim_response" where
  "writeJSON status b = \<lparr>spStatus = status, spLocation = None, spBody = b\<rparr>"

record scim_server =
  svTenants :: "(string \<times> Tenant) list"
  svPublicBaseURL :: "(string \<Rightarrow> string) option"

definition scim_base :: "scim_server \<Rightarrow> string \<Rightarrow> string" where
  "scim_base s tenantID = (case svPublicBaseURL s of Some f \<Rightarrow> f tenantID | None \<Rightarrow> ''/scim/'' @ tenantID)"

section \<open>Authentication and paging (server.go)\<close>

definition secureEqual :: "string \<Rightarrow> string \<Rightarrow> bool" where
  "secureEqual a b =
     (if length a \<noteq> length b then False
      else foldl (\<lambda>v (x, y). v OR (x XOR y)) 0 (zip (bytes_of a) (bytes_of b)) = (0 :: byte))"

definition Atoi :: "string \<Rightarrow> int option" where
  "Atoi s =
     (let neg = HasPrefix s ''-''; ds = (if HasPrefix s ''-'' \<or> HasPrefix s ''+'' then drop 1 s else s)
      in if ds = [] \<or> \<not> list_all is_digit ds then None
         else let n = int (nat_of_digits ds); v = (if neg then - n else n)
              in if - (2 ^ 63) \<le> v \<and> v < 2 ^ 63 then Some v else None)"

definition parsePaging :: "scim_request \<Rightarrow> int \<times> int" where
  "parsePaging r =
     (let startIndex = (case Atoi (sqStartIndex r) of Some n \<Rightarrow> if 1 \<le> n then n else 1 | None \<Rightarrow> 1);
          cnt = (case Atoi (sqCount r) of Some n \<Rightarrow> if 0 \<le> n then n else 100 | None \<Rightarrow> 100)
      in (startIndex, if 500 < cnt then 500 else cnt))"

text \<open>The slice \<open>matched[lo:hi]\<close> of the list handlers.\<close>

definition page_slice :: "int \<Rightarrow> int \<Rightarrow> 'a list \<Rightarrow> 'a list" where
  "page_slice startIndex cnt matched =
     (let lo = (if startIndex - 1 < 0 then 0 else startIndex - 1)
      in if lo < int (length matched) then
           (let hi = (if lo + cnt > int (length matched) then int (length matched) else lo + cnt)
            in take (nat (hi - lo)) (drop (nat lo) matched))
         else [])"

section \<open>Users (users_handler.go)\<close>

definition listUsers :: "golib \<Rightarrow> scim_server \<Rightarrow> Store \<Rightarrow> scim_request \<Rightarrow> string \<Rightarrow> scim_response" where
  "listUsers L s st r tenantID =
     (case ParseFilter (sqFilter r) of
        Inl e \<Rightarrow> writeError 400 ''invalidFilter'' (FilterErr e)
      | Inr filterNode \<Rightarrow>
          let matched = filter (\<lambda>u. case filterNode of None \<Rightarrow> True | Some n \<Rightarrow> Eval L u n) (ListUsers st tenantID);
              (startIndex, cnt) = parsePaging r;
              res = map (\<lambda>u. toUserResource L u (scim_base s tenantID)) (page_slice startIndex cnt matched)
          in writeJSON 200 (UserListBody \<lparr>TotalResults = length matched, ItemsPerPage = length res,
                                          StartIndex = startIndex, Resources = res\<rparr>))"

definition getUser :: "golib \<Rightarrow> scim_server \<Rightarrow> Store \<Rightarrow> scim_request \<Rightarrow> string \<Rightarrow> scim_response" where
  "getUser L s st r tenantID =
     (case GetUser st tenantID (sqID r) of
        Inl ErrNotFound \<Rightarrow> writeError 404 [] (Detail ''user not found'')
      | Inl e \<Rightarrow> writeError 500 [] (StoreErr e)
      | Inr u \<Rightarrow> writeJSON 200 (UserBody (toUserResource L u (scim_base s tenantID))))"

definition createUser ::
    "golib \<Rightarrow> scim_server \<Rightarrow> Store \<Rightarrow> string \<Rightarrow> instant \<Rightarrow> scim_request \<Rightarrow> string \<Rightarrow> scim_response \<times> Store" where
  "createUser L s st uuid now r tenantID =
     (case sqUserBody r of
        None \<Rightarrow> (writeError 400 ''invalidSyntax'' (Detail ''malformed JSON body''), st)
      | Some body \<Rightarrow>
          if rUserName body = [] then (writeError 400 ''invalidValue'' (Detail ''userName is required''), st)
          else
            (case FindUserByUserName st tenantID (rUserName body) of
               Inr _ \<Rightarrow> (writeError 409 ''uniqueness'' (Detail ''a user with this userName already exists''), st)
             | Inl _ \<Rightarrow>
                 let u = applyUserResource (blank_user\<lparr>uTenantID := tenantID\<rparr>) body
                 in (case CreateUser st uuid now u of
                       (Inl ErrConflict, st') \<Rightarrow>
                         (writeError 409 ''uniqueness'' (Detail ''a user with this userName already exists''), st')
                     | (Inl e, st') \<Rightarrow> (writeError 500 [] (StoreErr e), st')
                     | (Inr u', st') \<Rightarrow>
                         (\<lparr>spStatus = 201, spLocation = Some (userLocation (scim_base s tenantID) (uID u')),
                           spBody = UserBody (toUserResource L u' (scim_base s tenantID))\<rparr>, st'))))"

text \<open>The common end of \<open>replaceUser\<close> and \<open>patchUser\<close>: store the record and answer with it.\<close>

definition finish_user ::
    "golib \<Rightarrow> scim_server \<Rightarrow> Store \<Rightarrow> instant \<Rightarrow> User \<Rightarrow> string \<Rightarrow> scim_response \<times> Store" where
  "finish_user L s st now u tenantID =
     (case ReplaceUser st now u of
        (Inl e, st') \<Rightarrow> (writeError 500 [] (StoreErr e), st')
      | (Inr u', st') \<Rightarrow> (writeJSON 200 (UserBody (toUserResource L u' (scim_base s tenantID))), st'))"

definition replaceUser ::
    "golib \<Rightarrow> scim_server \<Rightarrow> Store \<Rightarrow> instant \<Rightarrow> scim_request \<Rightarrow> string \<Rightarrow> scim_response \<times> Store" where
  "replaceUser L s st now r tenantID =
     (case GetUser st tenantID (sqID r) of
        Inl ErrNotFound \<Rightarrow> (writeError 404 [] (Detail ''user not found''), st)
      | Inl e \<Rightarrow> (writeError 500 [] (StoreErr e), st)
      | Inr existing \<Rightarrow>
          (case sqUserBody r of
             None \<Rightarrow> (writeError 400 ''invalidSyntax'' (Detail ''malformed JSON body''), st)
           | Some body \<Rightarrow> finish_user L s st now (applyUserResource existing body) tenantID))"

definition patchUser ::
    "golib \<Rightarrow> scim_server \<Rightarrow> Store \<Rightarrow> instant \<Rightarrow> scim_request \<Rightarrow> string \<Rightarrow> scim_response \<times> Store" where
  "patchUser L s st now r tenantID =
     (case GetUser st tenantID (sqID r) of
        Inl ErrNotFound \<Rightarrow> (writeError 404 [] (Detail ''user not found''), st)
      | Inl e \<Rightarrow> (writeError 500 [] (StoreErr e), st)
      | Inr existing \<Rightarrow>
          (case sqPatchBody r of
             None \<Rightarrow> (writeError 400 ''invalidSyntax'' (Detail ''malformed JSON body''), st)
           | Some ops \<Rightarrow>
               (case applyUserPatch existing ops of
                  Inl e \<Rightarrow> (writeError 400 ''invalidValue'' (PatchErr e), st)
                | Inr u \<Rightarrow> finish_user L s st now u tenantID)))"

definition deleteUser :: "Store \<Rightarrow> scim_request \<Rightarrow> string \<Rightarrow> scim_response \<times> Store" where
  "deleteUser st r tenantID =
     (case DeleteUser st tenantID (sqID r) of
        (Inl ErrNotFound, st') \<Rightarrow> (writeError 404 [] (Detail ''user not found''), st')
      | (Inl e, st') \<Rightarrow> (writeError 500 [] (StoreErr e), st')
      | (Inr _, st') \<Rightarrow> (\<lparr>spStatus = 204, spLocation = None, spBody = NoBody\<rparr>, st'))"

section \<open>Groups (groups_handler.go)\<close>

definition matchesGroupFilter :: "Group \<Rightarrow> string \<Rightarrow> bool" where
  "matchesGroupFilter g filt =
     (let f = ToLower (TrimSpace filt)
      in if HasPrefix f ''displayname eq ''
         then EqualFold (gDisplayName g) (TrimChar CHR 0x22 (TrimPrefix f ''displayname eq ''))
         else True)"

definition listGroups :: "golib \<Rightarrow> scim_server \<Rightarrow> Store \<Rightarrow> scim_request \<Rightarrow> string \<Rightarrow> scim_response" where
  "listGroups L s st r tenantID =
     (let (startIndex, cnt) = parsePaging r;
          matched = filter (\<lambda>g. sqFilter r = [] \<or> matchesGroupFilter g (sqFilter r)) (ListGroups st tenantID);
          res = map (\<lambda>g. toGroupResource L g (scim_base s tenantID)) (page_slice startIndex cnt matched)
      in writeJSON 200 (GroupListBody \<lparr>TotalResults = length matched, ItemsPerPage = length res,
                                       StartIndex = startIndex, Resources = res\<rparr>))"

definition getGroup :: "golib \<Rightarrow> scim_server \<Rightarrow> Store \<Rightarrow> scim_request \<Rightarrow> string \<Rightarrow> scim_response" where
  "getGroup L s st r tenantID =
     (case GetGroup st tenantID (sqID r) of
        Inl ErrNotFound \<Rightarrow> writeError 404 [] (Detail ''group not found'')
      | Inl e \<Rightarrow> writeError 500 [] (StoreErr e)
      | Inr g \<Rightarrow> writeJSON 200 (GroupBody (toGroupResource L g (scim_base s tenantID))))"

definition new_group :: "string \<Rightarrow> Group" where
  "new_group tenantID = \<lparr>gID = [], gTenantID = tenantID, gExternalID = [], gDisplayName = [], gMembers = [],
     gVersion = 0, gCreatedAt = 0, gUpdatedAt = 0\<rparr>"

definition createGroup ::
    "golib \<Rightarrow> scim_server \<Rightarrow> Store \<Rightarrow> string \<Rightarrow> instant \<Rightarrow> scim_request \<Rightarrow> string \<Rightarrow> scim_response \<times> Store" where
  "createGroup L s st uuid now r tenantID =
     (case sqGroupBody r of
        None \<Rightarrow> (writeError 400 ''invalidSyntax'' (Detail ''malformed JSON body''), st)
      | Some body \<Rightarrow>
          if grDisplayName body = [] then (writeError 400 ''invalidValue'' (Detail ''displayName is required''), st)
          else
            (case CreateGroup st uuid now (applyGroupResource (new_group tenantID) body) of
               (Inl ErrConflict, st') \<Rightarrow>
                 (writeError 409 ''uniqueness'' (Detail ''a group with this displayName already exists''), st')
             | (Inl e, st') \<Rightarrow> (writeError 500 [] (StoreErr e), st')
             | (Inr g, st') \<Rightarrow>
                 (\<lparr>spStatus = 201, spLocation = Some (groupLocation (scim_base s tenantID) (gID g)),
                   spBody = GroupBody (toGroupResource L g (scim_base s tenantID))\<rparr>, st')))"

definition finish_group ::
    "golib \<Rightarrow> scim_server \<Rightarrow> Store \<Rightarrow> instant \<Rightarrow> Group \<Rightarrow> string \<Rightarrow> scim_response \<times> Store" where
  "finish_group L s st now g tenantID =
     (case ReplaceGroup st now g of
        (Inl e, st') \<Rightarrow> (writeError 500 [] (StoreErr e), st')
      | (Inr g', st') \<Rightarrow> (writeJSON 200 (GroupBody (toGroupResource L g' (scim_base s tenantID))), st'))"

definition replaceGroup ::
    "golib \<Rightarrow> scim_server \<Rightarrow> Store \<Rightarrow> instant \<Rightarrow> scim_request \<Rightarrow> string \<Rightarrow> scim_response \<times> Store" where
  "replaceGroup L s st now r tenantID =
     (case GetGroup st tenantID (sqID r) of
        Inl ErrNotFound \<Rightarrow> (writeError 404 [] (Detail ''group not found''), st)
      | Inl e \<Rightarrow> (writeError 500 [] (StoreErr e), st)
      | Inr existing \<Rightarrow>
          (case sqGroupBody r of
             None \<Rightarrow> (writeError 400 ''invalidSyntax'' (Detail ''malformed JSON body''), st)
           | Some body \<Rightarrow> finish_group L s st now (applyGroupResource existing body) tenantID))"

definition patchGroup ::
    "golib \<Rightarrow> scim_server \<Rightarrow> Store \<Rightarrow> instant \<Rightarrow> scim_request \<Rightarrow> string \<Rightarrow> scim_response \<times> Store" where
  "patchGroup L s st now r tenantID =
     (case GetGroup st tenantID (sqID r) of
        Inl ErrNotFound \<Rightarrow> (writeError 404 [] (Detail ''group not found''), st)
      | Inl e \<Rightarrow> (writeError 500 [] (StoreErr e), st)
      | Inr existing \<Rightarrow>
          (case sqPatchBody r of
             None \<Rightarrow> (writeError 400 ''invalidSyntax'' (Detail ''malformed JSON body''), st)
           | Some ops \<Rightarrow>
               (case applyGroupPatch existing ops of
                  Inl e \<Rightarrow> (writeError 400 ''invalidValue'' (PatchErr e), st)
                | Inr g \<Rightarrow> finish_group L s st now g tenantID)))"

definition deleteGroup :: "Store \<Rightarrow> scim_request \<Rightarrow> string \<Rightarrow> scim_response \<times> Store" where
  "deleteGroup st r tenantID =
     (case DeleteGroup st tenantID (sqID r) of
        (Inl ErrNotFound, st') \<Rightarrow> (writeError 404 [] (Detail ''group not found''), st')
      | (Inl e, st') \<Rightarrow> (writeError 500 [] (StoreErr e), st')
      | (Inr _, st') \<Rightarrow> (\<lparr>spStatus = 204, spLocation = None, spBody = NoBody\<rparr>, st'))"

section \<open>Routes (Register, authenticate)\<close>

datatype scim_route =
    ListUsersRoute | CreateUserRoute | GetUserRoute | ReplaceUserRoute | PatchUserRoute | DeleteUserRoute
  | ListGroupsRoute | CreateGroupRoute | GetGroupRoute | ReplaceGroupRoute | PatchGroupRoute | DeleteGroupRoute
  | ServiceProviderConfigRoute

fun scim_dispatch ::
    "golib \<Rightarrow> scim_server \<Rightarrow> Store \<Rightarrow> string \<Rightarrow> instant \<Rightarrow> scim_route \<Rightarrow> scim_request \<Rightarrow> string
     \<Rightarrow> scim_response \<times> Store" where
  "scim_dispatch L s st uuid now ListUsersRoute r t = (listUsers L s st r t, st)"
| "scim_dispatch L s st uuid now CreateUserRoute r t = createUser L s st uuid now r t"
| "scim_dispatch L s st uuid now GetUserRoute r t = (getUser L s st r t, st)"
| "scim_dispatch L s st uuid now ReplaceUserRoute r t = replaceUser L s st now r t"
| "scim_dispatch L s st uuid now PatchUserRoute r t = patchUser L s st now r t"
| "scim_dispatch L s st uuid now DeleteUserRoute r t = deleteUser st r t"
| "scim_dispatch L s st uuid now ListGroupsRoute r t = (listGroups L s st r t, st)"
| "scim_dispatch L s st uuid now CreateGroupRoute r t = createGroup L s st uuid now r t"
| "scim_dispatch L s st uuid now GetGroupRoute r t = (getGroup L s st r t, st)"
| "scim_dispatch L s st uuid now ReplaceGroupRoute r t = replaceGroup L s st now r t"
| "scim_dispatch L s st uuid now PatchGroupRoute r t = patchGroup L s st now r t"
| "scim_dispatch L s st uuid now DeleteGroupRoute r t = deleteGroup st r t"
| "scim_dispatch L s st uuid now ServiceProviderConfigRoute r t = (writeJSON 200 ConfigBody, st)"

definition authenticate ::
    "golib \<Rightarrow> scim_server \<Rightarrow> Store \<Rightarrow> string \<Rightarrow> instant \<Rightarrow> scim_route \<Rightarrow> scim_request \<Rightarrow> scim_response \<times> Store" where
  "authenticate L s st uuid now route r =
     (let tenantID = sqTenant r
      in case map_of (svTenants s) tenantID of
           None \<Rightarrow> (writeError 404 [] (Detail ''unknown tenant''), st)
         | Some tenant \<Rightarrow>
             if tSCIMBearerToken tenant = []
                \<or> \<not> secureEqual (header_Get (sqHeader r) ''Authorization'') (''Bearer '' @ tSCIMBearerToken tenant)
             then (writeError 401 ''invalidCredentials'' (Detail ''invalid bearer token''), st)
             else scim_dispatch L s st uuid now route r tenantID)"

section \<open>Constant-time comparison\<close>

text \<open>
  What a caller relies on when it compares secrets: the comparison is equality of the texts, however
  it is computed.
\<close>

locale secret_comparison =
  fixes same :: "'a \<Rightarrow> 'a \<Rightarrow> bool"
  assumes same_iff: "same a b \<longleftrightarrow> a = b"
begin

lemma accepts_only: "\<not> same a b \<longleftrightarrow> a \<noteq> b"
  by (simp add: same_iff)

end

lemma xor_eq_0_iff: "x XOR y = 0 \<longleftrightarrow> x = (y :: byte)"
  by (metis bit.xor_cancel_left bit.xor_left_self xor.right_neutral xor_self_eq)

lemma or_xor_fold:
  assumes "length xs = length ys"
  shows "foldl (\<lambda>v (x, y). v OR (x XOR y)) v (zip xs ys) = (0 :: byte) \<longleftrightarrow> v = 0 \<and> xs = ys"
  using assms
proof (induction xs ys arbitrary: v rule: list_induct2)
  case (Cons x xs y ys)
  then show ?case by (auto simp: xor_eq_0_iff or_eq_0_iff)
qed simp

interpretation bearer: secret_comparison secureEqual
proof
  fix a b
  show "secureEqual a b \<longleftrightarrow> a = b"
    by (auto simp: secureEqual_def or_xor_fold bytes_of_inject)
qed

section \<open>Facts\<close>

lemma finish_user_GetUser:
  assumes "store_inv st" and "uTenantID u = t" and "t' \<noteq> t"
  shows "GetUser (snd (finish_user L s st now u tn)) t' i = GetUser st t' i"
  using user_dir.replace_frame_always [OF assms(1), of t' u now i] assms(2,3)
  by (auto simp: finish_user_def split: prod.splits sum.splits)

lemma finish_user_inv: "store_inv st \<Longrightarrow> store_inv (snd (finish_user L s st now u tn))"
  using ReplaceUser_inv [of st now u] by (auto simp: finish_user_def split: prod.splits sum.splits)

lemma finish_group_users: "users (snd (finish_group L s st now g tn)) = users st"
  by (auto simp: finish_group_def ReplaceGroup_def Let_def split: prod.splits sum.splits if_splits)

lemma finish_group_inv: "store_inv st \<Longrightarrow> store_inv (snd (finish_group L s st now g tn))"
  using ReplaceGroup_inv [of st now g] by (auto simp: finish_group_def split: prod.splits sum.splits)

lemma GetUser_users: "users st' = users st \<Longrightarrow> GetUser st' t i = GetUser st t i"
  by (simp add: GetUser_def)

lemma CreateGroup_users: "users (snd (CreateGroup st uuid now g)) = users st"
  by (auto simp: CreateGroup_def Let_def split: option.splits)

lemma DeleteGroup_users: "users (snd (DeleteGroup st t i)) = users st"
  by (simp add: DeleteGroup_def Let_def)

lemma existing_user_tenant:
  "GetUser st t i = Inr u \<Longrightarrow> uTenantID (applyUserResource u r) = t"
  "GetUser st t i = Inr u \<Longrightarrow> applyUserPatch u ops = Inr u' \<Longrightarrow> uTenantID u' = t"
  using GetUser_Inr [of st t i u] applyUserResource_key [of u r] applyUserPatch_key [of u ops u']
  by (auto simp: same_user_key_def)

lemma snd_createUser:
  "snd (createUser L s st uuid now r t) = st
   \<or> (\<exists>u. uTenantID u = t \<and> snd (createUser L s st uuid now r t) = snd (CreateUser st uuid now u))"
proof (cases "sqUserBody r")
  case (Some body)
  let ?u = "applyUserResource (blank_user\<lparr>uTenantID := t\<rparr>) body"
  have "uTenantID ?u = t"
    using applyUserResource_key [of "blank_user\<lparr>uTenantID := t\<rparr>" body] by (simp add: same_user_key_def)
  moreover have "snd (createUser L s st uuid now r t) = st
      \<or> snd (createUser L s st uuid now r t) = snd (CreateUser st uuid now ?u)"
    using Some by (auto simp: createUser_def Let_def split: prod.splits sum.splits store_error.splits)
  ultimately show ?thesis by blast
qed (simp add: createUser_def)

lemma snd_replaceUser:
  "snd (replaceUser L s st now r t) = st
   \<or> (\<exists>u. uTenantID u = t \<and> snd (replaceUser L s st now r t) = snd (finish_user L s st now u t))"
  using existing_user_tenant(1) [of st t "sqID r"]
  by (fastforce simp: replaceUser_def split: sum.splits store_error.splits option.splits)

lemma snd_patchUser:
  "snd (patchUser L s st now r t) = st
   \<or> (\<exists>u. uTenantID u = t \<and> snd (patchUser L s st now r t) = snd (finish_user L s st now u t))"
  using existing_user_tenant(2) [of st t "sqID r"]
  by (fastforce simp: patchUser_def split: sum.splits store_error.splits option.splits)

lemma snd_deleteUser: "snd (deleteUser st r t) = snd (DeleteUser st t (sqID r))"
  by (auto simp: deleteUser_def split: prod.splits sum.splits store_error.splits)

lemma snd_deleteGroup: "snd (deleteGroup st r t) = snd (DeleteGroup st t (sqID r))"
  by (auto simp: deleteGroup_def split: prod.splits sum.splits store_error.splits)

lemma snd_createGroup:
  "snd (createGroup L s st uuid now r t) = st
   \<or> (\<exists>g. snd (createGroup L s st uuid now r t) = snd (CreateGroup st uuid now g))"
proof (cases "sqGroupBody r")
  case (Some body)
  then have "snd (createGroup L s st uuid now r t) = st
      \<or> snd (createGroup L s st uuid now r t) = snd (CreateGroup st uuid now (applyGroupResource (new_group t) body))"
    by (auto simp: createGroup_def split: prod.splits sum.splits store_error.splits)
  then show ?thesis by blast
qed (simp add: createGroup_def)

lemma snd_replaceGroup:
  "snd (replaceGroup L s st now r t) = st
   \<or> (\<exists>g. snd (replaceGroup L s st now r t) = snd (finish_group L s st now g t))"
  by (auto simp: replaceGroup_def split: sum.splits store_error.splits option.splits)

lemma snd_patchGroup:
  "snd (patchGroup L s st now r t) = st
   \<or> (\<exists>g. snd (patchGroup L s st now r t) = snd (finish_group L s st now g t))"
  by (auto simp: patchGroup_def split: sum.splits store_error.splits option.splits)

lemma group_handler_users:
  "users (snd (createGroup L s st uuid now r t)) = users st"
  "users (snd (replaceGroup L s st now r t)) = users st"
  "users (snd (patchGroup L s st now r t)) = users st"
  using snd_createGroup [of L s st uuid now r t] snd_replaceGroup [of L s st now r t]
    snd_patchGroup [of L s st now r t]
  by (auto simp: CreateGroup_users finish_group_users)

lemma dispatch_GetUser:
  assumes "store_inv st" and "t' \<noteq> t"
  shows "GetUser (snd (scim_dispatch L s st uuid now route r t)) t' i = GetUser st t' i"
proof (cases route)
  case CreateUserRoute
  have "GetUser (snd (CreateUser st uuid now u)) t' i = GetUser st t' i" if "uTenantID u = t" for u
    using user_dir.add_frame_always [OF assms(1), of t' u "(uuid, now)" i] assms(2) that by (simp add: add_user_def)
  then show ?thesis using CreateUserRoute snd_createUser [of L s st uuid now r t] by auto
next
  case ReplaceUserRoute
  then show ?thesis
    using snd_replaceUser [of L s st now r t] finish_user_GetUser [OF assms(1) _ assms(2)] by auto
next
  case PatchUserRoute
  then show ?thesis
    using snd_patchUser [of L s st now r t] finish_user_GetUser [OF assms(1) _ assms(2)] by auto
next
  case DeleteUserRoute
  then show ?thesis
    using user_dir.remove_frame_always [of t' i t "sqID r" st] assms(2) by (simp add: snd_deleteUser)
next
  case CreateGroupRoute
  then show ?thesis
    by (simp add: GetUser_users [OF group_handler_users(1)])
next
  case ReplaceGroupRoute
  then show ?thesis
    by (simp add: GetUser_users [OF group_handler_users(2)])
next
  case PatchGroupRoute
  then show ?thesis
    by (simp add: GetUser_users [OF group_handler_users(3)])
next
  case DeleteGroupRoute
  then show ?thesis by (simp add: snd_deleteGroup GetUser_users [OF DeleteGroup_users])
qed simp_all

lemma dispatch_inv:
  assumes "store_inv st"
  shows "store_inv (snd (scim_dispatch L s st uuid now route r t))"
proof (cases route)
  case CreateUserRoute
  then show ?thesis using snd_createUser [of L s st uuid now r t] CreateUser_inv [OF assms] assms by auto
next
  case ReplaceUserRoute
  then show ?thesis using snd_replaceUser [of L s st now r t] finish_user_inv [OF assms] assms by auto
next
  case PatchUserRoute
  then show ?thesis using snd_patchUser [of L s st now r t] finish_user_inv [OF assms] assms by auto
next
  case CreateGroupRoute
  then show ?thesis using snd_createGroup [of L s st uuid now r t] CreateGroup_inv [OF assms] assms by auto
next
  case ReplaceGroupRoute
  then show ?thesis using snd_replaceGroup [of L s st now r t] finish_group_inv [OF assms] assms by auto
next
  case PatchGroupRoute
  then show ?thesis using snd_patchGroup [of L s st now r t] finish_group_inv [OF assms] assms by auto
qed (use assms in \<open>simp_all add: snd_deleteUser snd_deleteGroup delete_inv\<close>)

section \<open>Properties\<close>

text \<open>
  C11: Nothing happens without the tenant's token: unless the tenant of the path is configured, has a
  non-empty bearer token and the Authorization header is exactly \<open>Bearer \<close> followed by it, every
  route answers with an error of status 401 or 404 and leaves the database as it is.
\<close>

theorem scim_requires_token:
  assumes "\<not> (\<exists>tenant. map_of (svTenants s) (sqTenant r) = Some tenant \<and> tSCIMBearerToken tenant \<noteq> []
       \<and> header_Get (sqHeader r) ''Authorization'' = ''Bearer '' @ tSCIMBearerToken tenant)"
  shows "snd (authenticate L s st uuid now route r) = st
    \<and> spStatus (fst (authenticate L s st uuid now route r)) \<in> {401, 404}
    \<and> (\<exists>ty d. spBody (fst (authenticate L s st uuid now route r)) = ErrorBody ty d)"
  using assms
  by (auto simp: authenticate_def Let_def writeError_def bearer.same_iff split: option.splits)

text \<open>A server with one tenant, and a request to it.\<close>

definition acme_server :: scim_server where
  "acme_server = \<lparr>svTenants = [(''acme'', \<lparr>tID = ''acme'', tName = ''Acme'', tSCIMBearerToken = ''s3cret'',
     tSAMLIdPMetadataFile = [], tOIDCIssuer = [], tOIDCClientID = [], tOIDCClientSecret = [], tBackendURL = []\<rparr>)],
     svPublicBaseURL = None\<rparr>"

definition acme_request :: "string \<Rightarrow> scim_request" where
  "acme_request auth = \<lparr>sqTenant = ''acme'', sqID = ''u1'', sqHeader = [(''Authorization'', [auth])], sqFilter = [],
     sqStartIndex = [], sqCount = [], sqUserBody = None, sqGroupBody = None, sqPatchBody = None\<rparr>"

lemma canonical_Authorization: "CanonicalMIMEHeaderKey ''Authorization'' = ''Authorization''"
  by code_simp

theorem scim_requires_token_witness:
  "snd (authenticate plain_lib acme_server ops_store [] 9 DeleteUserRoute (acme_request ''Bearer wrong'')) = ops_store"
  using scim_requires_token [of acme_server "acme_request ''Bearer wrong''" plain_lib ops_store "[]" 9 DeleteUserRoute]
  by (simp add: acme_server_def acme_request_def header_Get_conv canonical_Authorization)

text \<open>
  C12: Tenants are isolated at the provisioning interface: a request that is addressed to one tenant,
  on any route and with any body, leaves the constraints of the database intact and every user of
  every other tenant as it reads.
\<close>

theorem scim_tenant_isolation:
  assumes "store_inv st" and "t' \<noteq> sqTenant r"
  shows "store_inv (snd (authenticate L s st uuid now route r))
    \<and> GetUser (snd (authenticate L s st uuid now route r)) t' i = GetUser st t' i"
  using assms dispatch_inv [OF assms(1)] dispatch_GetUser [OF assms]
  by (auto simp: authenticate_def Let_def split: option.splits)

theorem scim_tenant_isolation_witness:
  "GetUser (snd (authenticate plain_lib acme_server ops_store [] 9 DeleteUserRoute (acme_request ''Bearer s3cret''))) ''globex'' ''u1''
   = GetUser ops_store ''globex'' ''u1''"
  using scim_tenant_isolation [OF ops_store_inv, of "''globex''" "acme_request ''Bearer s3cret''"]
  by (simp add: acme_request_def)

section \<open>Paging\<close>

lemma page_slice_eq:
  assumes "1 \<le> start" and "0 \<le> cnt"
  shows "page_slice start cnt xs = take (nat cnt) (drop (nat (start - 1)) xs)"
proof -
  let ?n = "nat (start - 1)"
  have lo: "(if start - 1 < 0 then 0 else start - 1) = start - 1" using assms by simp
  show ?thesis
  proof (cases "start - 1 < int (length xs)")
    case True
    show ?thesis
    proof (cases "start - 1 + cnt > int (length xs)")
      case True
      then have "take (nat (int (length xs) - (start - 1))) (drop ?n xs) = take (nat cnt) (drop ?n xs)"
        by simp
      then show ?thesis
        using True \<open>start - 1 < int (length xs)\<close> lo unfolding page_slice_def Let_def by simp
    next
      case False
      then show ?thesis using True lo unfolding page_slice_def Let_def by simp
    qed
  next
    case False
    then have "length xs \<le> ?n" by linarith
    then show ?thesis using False lo unfolding page_slice_def Let_def by simp
  qed
qed

lemma parsePaging_bounds: "1 \<le> fst (parsePaging r)" "0 \<le> snd (parsePaging r)" "snd (parsePaging r) \<le> 500"
  by (auto simp: parsePaging_def Let_def split: option.splits)

text \<open>
  Reading a list page by page gives each entry exactly once, in order: the pages that start at
  1, 1+c, 1+2c and so on, of c entries each, together are the list.
\<close>

theorem pages_cover_list:
  assumes "0 < c" and "length xs \<le> k * c"
  shows "concat (map (\<lambda>j. page_slice (1 + int (j * c)) (int c) xs) [0..<k]) = xs"
proof -
  have "concat (map (\<lambda>j. page_slice (1 + int (j * c)) (int c) xs) [0..<k]) = take (k * c) xs" for k
  proof (induction k)
    case (Suc k)
    have "page_slice (1 + int (k * c)) (int c) xs = take c (drop (k * c) xs)"
      by (subst page_slice_eq) (simp_all del: of_nat_mult)
    then show ?case
      using Suc take_add [of "k * c" c xs] by (simp add: add.commute [of c])
  qed simp
  then show ?thesis using assms(2) by simp
qed

theorem pages_cover_list_witness:
  "concat (map (\<lambda>j. page_slice (1 + int (j * 2)) (int 2) [''a'', ''b'', ''c'']) [0..<2]) = [''a'', ''b'', ''c'']"
  by (rule pages_cover_list) simp_all

section \<open>Properties of the user handlers\<close>

text \<open>
  A filtered listing reports the number of the tenant's users that satisfy the filter and returns
  the requested page of them, converted, in the order of the listing; a page never has more than
  500 entries, whatever was asked for.
\<close>

theorem listUsers_page:
  assumes "ParseFilter (sqFilter r) = Inr (Some node)"
  shows "\<exists>resp. spStatus (listUsers L s st r t) = 200 \<and> spBody (listUsers L s st r t) = UserListBody resp
    \<and> TotalResults resp = length (filter (\<lambda>u. Eval L u node) (ListUsers st t))
    \<and> Resources resp = map (\<lambda>u. toUserResource L u (scim_base s t))
        (take (nat (snd (parsePaging r))) (drop (nat (fst (parsePaging r) - 1))
           (filter (\<lambda>u. Eval L u node) (ListUsers st t))))
    \<and> ItemsPerPage resp = length (Resources resp) \<and> ItemsPerPage resp \<le> 500"
proof -
  have "nat (snd (parsePaging r)) \<le> 500" using parsePaging_bounds(3) [of r] by simp
  then show ?thesis
    using assms parsePaging_bounds [of r]
    by (cases "parsePaging r") (simp add: listUsers_def writeJSON_def page_slice_eq Let_def)
qed

theorem listUsers_page_witness:
  "\<exists>resp. spBody (listUsers plain_lib acme_server ops_store ((acme_request [])\<lparr>sqFilter := ''active eq false''\<rparr>) ''acme'')
      = UserListBody resp
    \<and> TotalResults resp = length (filter (\<lambda>u. Eval plain_lib u (CompareNode ''active'' ''eq'' (ABool False))) (ListUsers ops_store ''acme''))
    \<and> ItemsPerPage resp \<le> 500"
proof -
  have "ParseFilter (sqFilter ((acme_request [])\<lparr>sqFilter := ''active eq false''\<rparr>)) =
      Inr (Some (CompareNode ''active'' ''eq'' (ABool False)))" by code_simp
  from listUsers_page [OF this, of plain_lib acme_server ops_store "''acme''"] show ?thesis by blast
qed

lemma toUserResource_kept: "toUserResource L (kept_user u u) base = toUserResource L u base"
  by (simp add: toUserResource_def kept_user_def)

text \<open>
  What a creation answers is what a read returns: after a POST that was answered with 201, a GET
  of the id in its Location gives status 200 and the same resource.
\<close>

theorem created_user_is_served:
  assumes "store_inv st" and "createUser L s st uuid now r t = (resp, st')" and "spStatus resp = 201"
  shows "\<exists>res. spBody resp = UserBody res \<and> spLocation resp = Some (userLocation (scim_base s t) (rID res))
    \<and> getUser L s st' (r'\<lparr>sqID := rID res\<rparr>) t = writeJSON 200 (UserBody res)"
proof -
  obtain body where "sqUserBody r = Some body"
    using assms(2,3) by (cases "sqUserBody r") (auto simp: createUser_def writeError_def)
  then obtain u' where c: "CreateUser st uuid now (applyUserResource (blank_user\<lparr>uTenantID := t\<rparr>) body) = (Inr u', st')"
    and b: "spBody resp = UserBody (toUserResource L u' (scim_base s t))"
      "spLocation resp = Some (userLocation (scim_base s t) (uID u'))"
    using assms(2,3)
    by (auto simp: createUser_def writeError_def Let_def split: if_splits prod.splits sum.splits store_error.splits)
  have "add_user st (uuid, now) (applyUserResource (blank_user\<lparr>uTenantID := t\<rparr>) body) = (Inr u', st')"
    using c by (simp add: add_user_def)
  from user_dir.add_fetch [OF assms(1) this] user_dir.add_tenant [OF this]
  have "GetUser st' t (uID u') = Inr (kept_user u' u')"
    using applyUserResource_key [of "blank_user\<lparr>uTenantID := t\<rparr>" body] by (simp add: same_user_key_def)
  then have "getUser L s st' (r'\<lparr>sqID := uID u'\<rparr>) t = writeJSON 200 (UserBody (toUserResource L u' (scim_base s t)))"
    by (simp add: getUser_def toUserResource_kept)
  moreover have "rID (toUserResource L u' (scim_base s t)) = uID u'" by (simp add: toUserResource_def)
  ultimately show ?thesis using b by auto
qed

definition carol_resource :: UserResource where
  "carol_resource = \<lparr>rSchemas = [], rID = [], rExternalID = ''x7'', rUserName = ''carol'', rName = None,
     rDisplayName = ''Carol'', rEmails = [], rActive = None, rEnterprise = None, rMeta = None\<rparr>"

theorem created_user_is_served_witness:
  "\<exists>res st'. getUser plain_lib acme_server st' ((acme_request [])\<lparr>sqID := rID res\<rparr>) ''acme'' = writeJSON 200 (UserBody res)
    \<and> rUserName res = ''carol''"
proof -
  let ?c = "createUser plain_lib acme_server ops_store ''u9'' 12 ((acme_request [])\<lparr>sqUserBody := Some carol_resource\<rparr>) ''acme''"
  have s: "spStatus (fst ?c) = 201" by code_simp
  have n: "(case spBody (fst ?c) of UserBody res \<Rightarrow> rUserName res = ''carol'' | _ \<Rightarrow> False)" by code_simp
  have "?c = (fst ?c, snd ?c)" by simp
  from created_user_is_served [OF ops_store_inv this s, of "acme_request []"] n show ?thesis by auto
qed

text \<open>Storing a record under its old user name cannot conflict.\<close>

lemma ReplaceUser_same_name:
  assumes "store_inv st" and "GetUser st t i = Inr u" and "uID u' = i" and "uTenantID u' = t"
    and "uUserName u' = uUserName u"
  shows "\<exists>u'' st'. ReplaceUser st now u' = (Inr u'', st')"
proof -
  obtain row where row: "row \<in> set (users st)" "ur_tenant_id row = t" "ur_id row = i" "ur_user_name row = uUserName u"
    using assms(2) by (auto simp: GetUser_def scanUser_def split: option.splits dest: find_SomeD)
  then have hit: "list_ex (\<lambda>r. ur_tenant_id r = t \<and> ur_id r = i) (users st)" by (auto simp: list_ex_iff)
  have "x = row" if "x \<in> set (users st)" "ur_tenant_id x = t" "ur_user_name x = uUserName u" for x
    using assms(1) that row by (auto simp: store_inv_def distinct_map inj_on_def user_name_key_def)
  then have "\<not> list_ex (\<lambda>r. \<not> (ur_tenant_id r = t \<and> ur_id r = i) \<and> ur_tenant_id r = t \<and> ur_user_name r = uUserName u) (users st)"
    unfolding list_ex_iff using row(2,3) by blast
  then show ?thesis using hit assms(3-5) by (simp add: ReplaceUser_def Let_def)
qed

lemma patch_active:
  "normalizePatchPath ''active'' = ''active''" "ToLower ''replace'' = ''replace''" "normalizePatchPath [] = []"
  by code_simp+

lemma patch_active_forms:
  assumes "op = \<lparr>poOp = ''replace'', poPath = ''active'', poValue = ABool b\<rparr>
    \<or> op = \<lparr>poOp = ''replace'', poPath = [], poValue = AObj [(''active'', ABool b)]\<rparr>"
  shows "applyUserPatch u [op] = Inr (u\<lparr>uActive := b\<rparr>)"
  using assms by (elim disjE) (simp_all add: user_patch_step_def setUserField_def patch_active Let_def)

text \<open>
  Deprovisioning takes effect: the PATCH that identity providers send to deactivate a user, in
  either of its two forms, is answered with 200, and from then on the user reads as inactive with
  the next version, every other field as it was.
\<close>

theorem deactivation_takes_effect:
  assumes "store_inv st" and "GetUser st t (sqID r) = Inr u" and "sqPatchBody r = Some [op]"
    and "op = \<lparr>poOp = ''replace'', poPath = ''active'', poValue = ABool False\<rparr>
      \<or> op = \<lparr>poOp = ''replace'', poPath = [], poValue = AObj [(''active'', ABool False)]\<rparr>"
  shows "spStatus (fst (patchUser L s st now r t)) = 200
    \<and> GetUser (snd (patchUser L s st now r t)) t (sqID r) =
        Inr (u\<lparr>uActive := False, uVersion := uVersion u + 1, uUpdatedAt := now, uAttributes := json_attrs (uAttributes u)\<rparr>)"
proof -
  let ?u = "u\<lparr>uActive := False\<rparr>"
  have key: "uTenantID u = t" "uID u = sqID r" using GetUser_Inr [OF assms(2)] by simp_all
  obtain u'' st' where rep: "ReplaceUser st now ?u = (Inr u'', st')"
    using ReplaceUser_same_name [OF assms(1,2), of ?u now] key by auto
  have h: "patchUser L s st now r t = (writeJSON 200 (UserBody (toUserResource L u'' (scim_base s t))), st')"
    using assms(2,3) patch_active_forms [OF assms(4), of u] rep by (simp add: patchUser_def finish_user_def)
  have "GetUser st' t (sqID r) = Inr (kept_user u u'')"
    using user_dir.replace_fetch [OF assms(1) rep] key assms(2) by auto
  then show ?thesis
    using h ReplaceUser_ok(1) [OF rep] by (cases u) (simp add: writeJSON_def kept_user_def)
qed

theorem deactivation_takes_effect_witness:
  "spStatus (fst (patchUser plain_lib acme_server ops_store 20 ((acme_request [])\<lparr>sqPatchBody :=
     Some [\<lparr>poOp = ''replace'', poPath = ''active'', poValue = ABool False\<rparr>]\<rparr>) ''acme'')) = 200"
proof -
  obtain u where "GetUser ops_store ''acme'' ''u1'' = Inr u"
    by (simp add: ops_store_def GetUser_def CreateGroup_def CreateUser_def empty_store_def insert_row_def
        ops_group_def group_row_of_def user_row_of_def alice_def blank_user_def Let_def)
  then show ?thesis
    using deactivation_takes_effect [OF ops_store_inv, of "''acme''"
        "(acme_request [])\<lparr>sqPatchBody := Some [\<lparr>poOp = ''replace'', poPath = ''active'', poValue = ABool False\<rparr>]\<rparr>"]
    by (simp add: acme_request_def)
qed

text \<open>
  A PUT that renames a user to a name another user of the tenant has is refused, and nothing is
  stored, but the answer is an internal server error (500) and not the conflict (409) that the
  creation of such a user gets.
\<close>

theorem rename_conflict_is_500:
  assumes "GetUser st t (sqID r) = Inr u" and "sqUserBody r = Some body"
    and "FindUserByUserName st t (rUserName body) = Inr v" and "uID v \<noteq> sqID r"
  shows "replaceUser L s st now r t = (writeError 500 [] (StoreErr ErrConflict), st)
    \<and> (rUserName body \<noteq> [] \<longrightarrow> spStatus (fst (createUser L s st uuid now r t)) = 409)"
proof
  let ?u = "applyUserResource u body"
  have key: "uTenantID ?u = t" "uID ?u = sqID r" "uUserName ?u = rUserName body"
    using GetUser_Inr [OF assms(1)] applyUserResource_key [of u body]
    by (auto simp: same_user_key_def applyUserResource_def Let_def split: option.splits)
  obtain x where x: "x \<in> set (users st)" "ur_tenant_id x = t" "ur_user_name x = rUserName body" "ur_id x \<noteq> sqID r"
    using assms(3,4) by (auto simp: FindUserByUserName_def scanUser_def split: option.splits dest: find_SomeD)
  have "list_ex (\<lambda>r'. ur_tenant_id r' = t \<and> ur_id r' = sqID r) (users st)"
    using assms(1) by (auto simp: GetUser_def list_ex_iff split: option.splits dest: find_SomeD)
  moreover have "list_ex (\<lambda>r'. \<not> (ur_tenant_id r' = t \<and> ur_id r' = sqID r) \<and> ur_tenant_id r' = t
      \<and> ur_user_name r' = rUserName body) (users st)"
    using x by (auto simp: list_ex_iff)
  ultimately have "ReplaceUser st now ?u = (Inl ErrConflict, st)" using key by (simp add: ReplaceUser_def Let_def)
  then show "replaceUser L s st now r t = (writeError 500 [] (StoreErr ErrConflict), st)"
    using assms(1,2) by (simp add: replaceUser_def finish_user_def)
  show "rUserName body \<noteq> [] \<longrightarrow> spStatus (fst (createUser L s st uuid now r t)) = 409"
    using assms(2,3) by (simp add: createUser_def writeError_def)
qed

definition two_user_store :: Store where
  "two_user_store = snd (CreateUser ops_store ''u2'' 9 (alice\<lparr>uUserName := ''carol''\<rparr>))"

theorem rename_conflict_is_500_witness:
  "replaceUser plain_lib acme_server two_user_store 30 ((acme_request [])\<lparr>sqUserBody := Some carol_resource\<rparr>) ''acme''
   = (writeError 500 [] (StoreErr ErrConflict), two_user_store)"
proof -
  let ?r = "(acme_request [])\<lparr>sqUserBody := Some carol_resource\<rparr>"
  have "(case GetUser two_user_store ''acme'' ''u1'' of Inr u \<Rightarrow> True | _ \<Rightarrow> False)"
    "(case FindUserByUserName two_user_store ''acme'' ''carol'' of Inr v \<Rightarrow> uID v = ''u2'' | _ \<Rightarrow> False)"
    by code_simp+
  then obtain u v where "GetUser two_user_store ''acme'' (sqID ?r) = Inr u"
    "FindUserByUserName two_user_store ''acme'' (rUserName carol_resource) = Inr v" "uID v \<noteq> sqID ?r"
    by (auto simp: acme_request_def carol_resource_def split: sum.splits)
  then show ?thesis
    using rename_conflict_is_500 [of two_user_store "''acme''" ?r u carol_resource v] by simp
qed

end
