(* ===== verification/Interleaving.thy ===== *)
theory Interleaving
  imports StoreLaws
begin

text \<open>
  The store under concurrent handlers.  \<open>net/http\<close> runs every request in a goroutine of its own, and \<open>Open\<close> gives the
  database one connection, so that single SQL statements are atomic while an operation of several statements is not.
  Here an operation is a thread whose steps are the statements of the code, and a schedule says which thread makes
  the next step and what the clock shows.  The properties: run alone, the statements are the operations of \<open>Store\<close>; run
  together they keep the invariant of the store and the single use of an assertion, while the single use of a
  pending request and the updates of a user are lost.
\<close>

section \<open>Threads\<close>

text \<open>
  \<open>TakeSAMLRequest\<close> and \<open>TakeOIDCRequest\<close> select a row, delete it and look at the clock; \<open>MarkAssertionUsed\<close> reads the
  clock, deletes what has expired and inserts; PUT and PATCH of a user select, change (or refuse) and update; a first
  login selects and inserts.
\<close>

datatype thread =
    SamlTake string string | SamlRead string saml_request | SamlGone saml_request | SamlDone "string option"
  | OidcTake string | OidcRead string oidc_request_row | OidcGone oidc_request_row | OidcDone "OIDCRequest option"
  | Mark string string instant | MarkPurge instant string string instant | MarkInsert string string instant
  | MarkDone string string bool
  | Update string string "User \<Rightarrow> User option" | UpdateWrite User | UpdateRefused | UpdateDone "store_error + User"
  | Provision string User | ProvisionInsert string User | ProvisionDone "store_error + User"

fun stmt :: "instant \<Rightarrow> Store \<Rightarrow> thread \<Rightarrow> Store \<times> thread" where
  "stmt now st (SamlTake requestID tenantID) =
     (case find (\<lambda>r. sr_request_id r = requestID \<and> sr_tenant_id r = tenantID) (saml_requests st) of
        None \<Rightarrow> (st, SamlDone None) | Some r \<Rightarrow> (st, SamlRead requestID r))"
| "stmt now st (SamlRead requestID r) =
     (st\<lparr>saml_requests := filter (\<lambda>r. sr_request_id r \<noteq> requestID) (saml_requests st)\<rparr>, SamlGone r)"
| "stmt now st (SamlGone r) = (st, SamlDone (if now > sr_expires_at r then None else Some (sr_relay_state r)))"
| "stmt now st (OidcTake state) =
     (case find (\<lambda>r. oState (or_request r) = state) (oidc_requests st) of
        None \<Rightarrow> (st, OidcDone None) | Some r \<Rightarrow> (st, OidcRead state r))"
| "stmt now st (OidcRead state r) =
     (st\<lparr>oidc_requests := filter (\<lambda>r. oState (or_request r) \<noteq> state) (oidc_requests st)\<rparr>, OidcGone r)"
| "stmt now st (OidcGone r) = (st, OidcDone (if now > or_expires_at r then None else Some (or_request r)))"
| "stmt now st (Mark t a e) = (st, MarkPurge now t a e)"
| "stmt now st (MarkPurge n t a e) =
     (st\<lparr>used_saml_assertions := filter (\<lambda>r. \<not> time_text (ua_expires_at r) < time_text n) (used_saml_assertions st)\<rparr>,
      MarkInsert t a e)"
| "stmt now st (MarkInsert t a e) =
     (case insert_row (\<lambda>a b. ua_tenant_id a = ua_tenant_id b \<and> ua_assertion_id a = ua_assertion_id b)
             \<lparr>ua_assertion_id = a, ua_tenant_id = t, ua_expires_at = e\<rparr> (used_saml_assertions st) of
        None \<Rightarrow> (st, MarkDone t a True)
      | Some rows \<Rightarrow> (st\<lparr>used_saml_assertions := rows\<rparr>, MarkDone t a False))"
| "stmt now st (Update t i change) =
     (case GetUser st t i of
        Inl e \<Rightarrow> (st, UpdateDone (Inl e))
      | Inr u \<Rightarrow> (st, case change u of None \<Rightarrow> UpdateRefused | Some u' \<Rightarrow> UpdateWrite u'))"
| "stmt now st (UpdateWrite u) = (case ReplaceUser st now u of (r, st') \<Rightarrow> (st', UpdateDone r))"
| "stmt now st (Provision uuid u) =
     (case FindUserByUserName st (uTenantID u) (uUserName u) of
        Inr found \<Rightarrow> (st, ProvisionDone (Inr found))
      | Inl e \<Rightarrow> (st, ProvisionInsert uuid u))"
| "stmt now st (ProvisionInsert uuid u) = (case CreateUser st uuid now u of (r, st') \<Rightarrow> (st', ProvisionDone r))"
| "stmt now st th = (st, th)"

text \<open>A schedule: which thread makes the next statement, and when.\<close>

fun interleave :: "(nat \<times> instant) list \<Rightarrow> Store \<times> thread list \<Rightarrow> Store \<times> thread list" where
  "interleave [] c = c"
| "interleave ((i, now) # sched) (st, ths) =
     (if i < length ths
      then (case stmt now st (ths ! i) of (st', th) \<Rightarrow> interleave sched (st', ths[i := th]))
      else interleave sched (st, ths))"

text \<open>An invariant of all steps is one of all schedules.\<close>

lemma interleave_invariant:
  assumes "Q st ths" and "\<forall>s\<in>set sched. okay s"
    and "\<And>i now st ths. Q st ths \<Longrightarrow> okay (i, now) \<Longrightarrow> i < length ths \<Longrightarrow>
        Q (fst (stmt now st (ths ! i))) (ths[i := snd (stmt now st (ths ! i))])"
  shows "Q (fst (interleave sched (st, ths))) (snd (interleave sched (st, ths)))"
  using assms(1,2)
proof (induction sched arbitrary: st ths)
  case (Cons s sched)
  obtain i now where s: "s = (i, now)" by (cases s)
  show ?case
  proof (cases "i < length ths")
    case True
    obtain st' th where step: "stmt now st (ths ! i) = (st', th)" by (cases "stmt now st (ths ! i)")
    have "Q st' (ths[i := th])" using assms(3) [OF Cons.prems(1) _ True, of now] Cons.prems(2) s step by simp
    then show ?thesis using Cons.IH Cons.prems(2) s True step by simp
  qed (use Cons s in simp)
qed simp

section \<open>Facts\<close>

lemma stmt_inv: "store_inv st \<Longrightarrow> store_inv (fst (stmt now st th))"
proof (cases th)
  case (UpdateWrite u)
  assume "store_inv st"
  then show ?thesis using ReplaceUser_inv [of st now u] UpdateWrite by (cases "ReplaceUser st now u") simp
next
  case (ProvisionInsert uuid u)
  assume "store_inv st"
  then show ?thesis using CreateUser_inv [of st uuid now u] ProvisionInsert by (cases "CreateUser st uuid now u") simp
next
  case (MarkInsert t a e)
  assume "store_inv st"
  then show ?thesis using MarkInsert
    by (auto simp: store_inv_def assertion_key_def split: option.splits elim!: insert_row_distinct)
qed (auto simp: store_inv_def oidc_key_def distinct_map_filterI split: option.splits sum.splits)

text \<open>A thread that has recorded, or is about to record, the assertion.\<close>

definition took :: "string \<Rightarrow> string \<Rightarrow> thread \<Rightarrow> bool" where
  "took t a th \<longleftrightarrow> th = MarkDone t a False"

fun marks_ok :: "string \<Rightarrow> string \<Rightarrow> instant \<Rightarrow> thread \<Rightarrow> bool" where
  "marks_ok t a e (Mark t' a' e') = (t' = t \<and> a' = a \<longrightarrow> e' = e)"
| "marks_ok t a e (MarkPurge n t' a' e') = ((t' = t \<and> a' = a \<longrightarrow> e' = e) \<and> \<not> time_text e < time_text n)"
| "marks_ok t a e (MarkInsert t' a' e') = (t' = t \<and> a' = a \<longrightarrow> e' = e)"
| "marks_ok t a e th = True"

definition single_mark :: "string \<Rightarrow> string \<Rightarrow> instant \<Rightarrow> Store \<Rightarrow> thread list \<Rightarrow> bool" where
  "single_mark t a e st ths \<longleftrightarrow>
     list_all (marks_ok t a e) ths
     \<and> (length (filter (took t a) ths) \<le> 1)
     \<and> (\<forall>th\<in>set ths. took t a th \<longrightarrow> has_assertion st t a e)"

lemma filter_update:
  assumes "i < length xs"
  shows "length (filter P (xs[i := x])) + (if P (xs ! i) then 1 else 0) = length (filter P xs) + (if P x then 1 else 0)"
  using assms
proof (induction xs arbitrary: i)
  case (Cons y ys)
  then show ?case by (cases i) auto
qed simp

text \<open>Statements on other tables leave the recorded assertions alone.\<close>

lemma single_mark_step:
  assumes "single_mark t a e st ths" and "\<not> time_text e < time_text now" and "i < length ths"
  shows "single_mark t a e (fst (stmt now st (ths ! i))) (ths[i := snd (stmt now st (ths ! i))])"
proof -
  let ?th = "ths ! i" and ?st = "fst (stmt now st (ths ! i))" and ?th' = "snd (stmt now st (ths ! i))"
  have ok: "marks_ok t a e ?th" using assms(1,3) by (simp add: single_mark_def list_all_length)
  have mine: "took t a ?th \<Longrightarrow> ?th' = ?th" by (simp add: took_def)
  have ok': "marks_ok t a e ?th'"
    using ok assms(2) by (cases ?th) (auto split: option.splits sum.splits prod.splits)
  have keep: "has_assertion st t a e \<Longrightarrow> has_assertion ?st t a e"
    using ok by (cases ?th) (auto simp: has_assertion_def ReplaceUser_def CreateUser_def Let_def list_ex_iff
        split: option.splits sum.splits prod.splits dest!: insert_row_Some)
  have new: "took t a ?th' \<Longrightarrow> \<not> took t a ?th \<Longrightarrow> has_assertion ?st t a e \<and> \<not> has_assertion st t a e"
    using ok by (cases ?th) (auto simp: took_def has_assertion_def list_ex_iff split: option.splits sum.splits prod.splits dest!: insert_row_Some)
  have cnt: "length (filter (took t a) (ths[i := ?th'])) + (if took t a ?th then 1 else 0)
      = length (filter (took t a) ths) + (if took t a ?th' then 1 else 0)"
    by (rule filter_update [OF assms(3)])
  have none: "length (filter (took t a) ths) = 0" if "\<not> has_assertion st t a e"
    using assms(1) that by (auto simp: single_mark_def filter_empty_conv)
  have one: "length (filter (took t a) (ths[i := ?th'])) \<le> 1"
  proof (cases "took t a ?th' \<and> \<not> took t a ?th")
    case True
    then show ?thesis using cnt none new by simp
  next
    case False
    then show ?thesis using cnt assms(1) mine by (auto simp: single_mark_def split: if_splits)
  qed
  have "\<forall>th\<in>set (ths[i := ?th']). took t a th \<longrightarrow> has_assertion ?st t a e"
  proof (intro ballI impI)
    fix th assume "th \<in> set (ths[i := ?th'])" "took t a th"
    then consider "th = ?th'" "\<not> took t a ?th" | "th \<in> set ths"
      using mine set_update_subset_insert [of ths i ?th'] nth_mem [OF assms(3)] by (cases "took t a ?th") auto
    then show "has_assertion ?st t a e"
      using new \<open>took t a th\<close> keep assms(1) by cases (auto simp: single_mark_def)
  qed
  then show ?thesis
    using one ok' assms(1) by (auto simp: single_mark_def list_all_iff dest: set_update_subset_insert [THEN subsetD])
qed

fun starting :: "thread \<Rightarrow> bool" where
  "starting (SamlTake r t) = True"
| "starting (OidcTake s) = True"
| "starting (Mark t a e) = True"
| "starting (Update t i f) = True"
| "starting (Provision uuid u) = True"
| "starting _ = False"

section \<open>Properties\<close>


text \<open>
  Whatever statements of whatever operations follow each other, the keys and UNIQUE constraints of the store hold.
\<close>

theorem concurrent_store_inv:
  assumes "store_inv st"
  shows "store_inv (fst (interleave sched (st, ths)))"
  using interleave_invariant [of "\<lambda>st ths. store_inv st" st ths sched "\<lambda>s. True"] assms stmt_inv by simp


text \<open>
  C21: A pending login can be taken twice.  TakeOIDCRequest and TakeSAMLRequest select and delete in two statements, so
  two callbacks with the same state, or two responses to the same request, whose statements alternate both get the
  pending request.
\<close>

theorem concurrent_takes_both_succeed:
  assumes "find (\<lambda>r. oState (or_request r) = s) (oidc_requests st) = Some o_row" and "now \<le> or_expires_at o_row"
    and "find (\<lambda>r. sr_request_id r = rid \<and> sr_tenant_id r = t) (saml_requests st) = Some s_row" and "now \<le> sr_expires_at s_row"
  shows "snd (interleave (concat (replicate 3 [(0, now), (1, now)])) (st, [OidcTake s, OidcTake s]))
      = [OidcDone (Some (or_request o_row)), OidcDone (Some (or_request o_row))]
    \<and> snd (interleave (concat (replicate 3 [(0, now), (1, now)])) (st, [SamlTake rid t, SamlTake rid t]))
      = [SamlDone (Some (sr_relay_state s_row)), SamlDone (Some (sr_relay_state s_row))]"
  using assms by (simp add: numeral_3_eq_3)

text \<open>
  C22: An update of a user can be lost.  When two changes of one user, which keep its name, alternate their statements,
  both are answered as successful and with the same version, and the store is the one that the second change leaves
  alone: nothing of the first one, a deactivation for instance, is left.
\<close>

theorem concurrent_update_lost:
  assumes "store_inv st" and "GetUser st t i = Inr u" and "f u = Some v" and "g u = Some w"
    and "uTenantID v = t" and "uID v = i" and "uUserName v = uUserName u" and "uVersion v = uVersion u"
    and "uTenantID w = t" and "uID w = i" and "uUserName w = uUserName u" and "uVersion w = uVersion u"
  shows "\<exists>st' x y. interleave [(0, n1), (1, n2), (0, n3), (1, n4)] (st, [Update t i f, Update t i g])
      = (st', [UpdateDone (Inr x), UpdateDone (Inr y)]) \<and> uVersion x = uVersion y \<and> st' = snd (ReplaceUser st n4 w)"
proof -
  obtain row where row: "find (\<lambda>r. ur_tenant_id r = t \<and> ur_id r = i) (users st) = Some row" "u = scanUser row"
    using assms(2) by (auto simp: GetUser_def split: option.splits)
  then have r: "row \<in> set (users st)" "ur_tenant_id row = t" "ur_id row = i" by (auto dest: find_SomeD)
  have name: "uUserName u = ur_user_name row" by (simp add: row(2) scanUser_def)
  have ids: "distinct (map ur_id (users st))" "distinct (map user_name_key (users st))"
    using assms(1) by (simp_all add: store_inv_def)
  have free: "\<not> list_ex (\<lambda>r. \<not> (ur_tenant_id r = t \<and> ur_id r = i) \<and> ur_tenant_id r = t \<and> ur_user_name r = uUserName u) (users st)"
    using ids(2) r by (auto simp: list_ex_iff name distinct_map inj_on_def user_name_key_def)
  have hit: "list_ex (\<lambda>r. ur_tenant_id r = t \<and> ur_id r = i) (users st)" using r by (auto simp: list_ex_iff)
  define F where "F n x r = (if ur_tenant_id r = t \<and> ur_id r = i
      then update_user_row r (x\<lparr>uUpdatedAt := n, uVersion := uVersion x + 1\<rparr>) else r)" for n x r
  have R: "ReplaceUser s n x = (Inr (x\<lparr>uUpdatedAt := n, uVersion := uVersion x + 1\<rparr>), s\<lparr>users := map (F n x) (users s)\<rparr>)"
    if "list_ex (\<lambda>r. ur_tenant_id r = t \<and> ur_id r = i) (users s)"
      "\<not> list_ex (\<lambda>r. \<not> (ur_tenant_id r = t \<and> ur_id r = i) \<and> ur_tenant_id r = t \<and> ur_user_name r = uUserName u) (users s)"
      "uTenantID x = t" "uID x = i" "uUserName x = uUserName u" for s n x
    using that by (simp add: ReplaceUser_def Let_def F_def [abs_def])
  let ?st1 = "snd (ReplaceUser st n3 v)"
  have twice: "ReplaceUser ?st1 n4 w = (Inr (w\<lparr>uUpdatedAt := n4, uVersion := uVersion w + 1\<rparr>), snd (ReplaceUser st n4 w))"
  proof -
    have st1: "?st1 = st\<lparr>users := map (F n3 v) (users st)\<rparr>" using R [OF hit free assms(5-7)] by simp
    then have u1: "users ?st1 = map (F n3 v) (users st)" by simp
    have "update_user_row row (v\<lparr>uUpdatedAt := n3, uVersion := uVersion v + 1\<rparr>) \<in> set (users ?st1)"
      unfolding u1 using r by (force simp: F_def)
    then have "list_ex (\<lambda>r. ur_tenant_id r = t \<and> ur_id r = i) (users ?st1)"
      unfolding list_ex_iff by (rule bexI [rotated]) (simp add: update_user_row_def r)
    moreover have "r' \<in> set (users st)" if "r' \<in> set (users ?st1)" and other: "\<not> (ur_tenant_id r' = t \<and> ur_id r' = i)" for r'
    proof -
      obtain r0 where r0: "r0 \<in> set (users st)" "r' = F n3 v r0"
        using \<open>r' \<in> set (users ?st1)\<close> unfolding u1 by auto
      show ?thesis
      proof (cases "ur_tenant_id r0 = t \<and> ur_id r0 = i")
        case True
        then have "ur_tenant_id r' = t" "ur_id r' = i" by (simp_all add: r0(2) F_def update_user_row_def)
        then show ?thesis using other by simp
      next
        case False
        then have "r' = r0" using r0(2) by (simp only: F_def if_False)
        then show ?thesis using r0(1) by simp
      qed
    qed
    then have "\<not> list_ex (\<lambda>r. \<not> (ur_tenant_id r = t \<and> ur_id r = i) \<and> ur_tenant_id r = t \<and> ur_user_name r = uUserName u) (users ?st1)"
      using free by (fastforce simp: list_ex_iff)
    ultimately have "ReplaceUser ?st1 n4 w = (Inr (w\<lparr>uUpdatedAt := n4, uVersion := uVersion w + 1\<rparr>), ?st1\<lparr>users := map (F n4 w) (users ?st1)\<rparr>)"
      using assms(9-11) by (intro R) auto
    moreover have "F n4 w (F n3 v r) = F n4 w r" for r by (simp add: F_def update_user_row_def)
    then have "?st1\<lparr>users := map (F n4 w) (users ?st1)\<rparr> = st\<lparr>users := map (F n4 w) (users st)\<rparr>" by (simp add: st1)
    moreover have "snd (ReplaceUser st n4 w) = st\<lparr>users := map (F n4 w) (users st)\<rparr>" using R [OF hit free assms(9-11)] by simp
    ultimately show ?thesis by simp
  qed
  show ?thesis
    using R [OF hit free assms(5-7), of n3] twice assms(2-4,8,12) by simp
qed

text \<open>
  Two first logins of one user at the same time: one creates the user, the other is refused.
\<close>

theorem concurrent_first_login_conflict:
  assumes "FindUserByUserName st (uTenantID u) (uUserName u) = Inl e" and "uID u = []" and "uID v = []"
    and "uTenantID v = uTenantID u" and "uUserName v = uUserName u" and "\<forall>r\<in>set (users st). ur_id r \<noteq> k1"
  shows "\<exists>st' x. interleave [(0, n1), (1, n2), (0, n3), (1, n4)] (st, [Provision k1 u, Provision k2 v])
      = (st', [ProvisionDone (Inr x), ProvisionDone (Inl ErrConflict)])"
proof -
  have free: "\<forall>r\<in>set (users st). \<not> (ur_tenant_id r = uTenantID u \<and> ur_user_name r = uUserName u)"
    using assms(1) by (auto simp: FindUserByUserName_def find_None_iff split: option.splits)
  then show ?thesis using assms
    by (auto simp: CreateUser_def Let_def insert_row_def list_ex_iff user_clash_def user_row_of_def)
qed

section \<open>Samples\<close>

definition racing_store :: Store where
  "racing_store = snd (PutSAMLRequest (snd (PutOIDCRequest (snd (CreateUser empty_store ''u-1'' 1
     \<lparr>uID = [], uTenantID = ''acme'', uExternalID = [], uUserName = ''bob'', uGivenName = [], uFamilyName = [], uDisplayName = ''Bob'',
      uEmail = [], uDepartment = [], uActive = True, uAttributes = [], uVersion = 0, uCreatedAt = 0, uUpdatedAt = 0\<rparr>)) 1
     (oidc_request_of ''s'' (''acme'', ''n'', ''v'', ''/'')) 10)) 1 ''_r'' ''acme'' ''/home'' 10)"

definition new_user :: User where
  "new_user = \<lparr>uID = [], uTenantID = ''acme'', uExternalID = [], uUserName = ''carol'', uGivenName = [], uFamilyName = [],
     uDisplayName = [], uEmail = [], uDepartment = [], uActive = True, uAttributes = [], uVersion = 0, uCreatedAt = 0, uUpdatedAt = 0\<rparr>"

lemma racing_store_inv: "store_inv racing_store"
  unfolding racing_store_def by (intro request_inv CreateUser_inv store_inv_empty)

lemmas racing_rows = racing_store_def CreateUser_def PutOIDCRequest_def PutSAMLRequest_def insert_row_def empty_store_def Let_def

theorem concurrent_store_inv_witness:
  "store_inv (fst (interleave [(0, 2), (1, 3), (0, 4), (1, 5)] (racing_store, [Mark ''acme'' ''_a'' 9, SamlTake ''_r'' ''acme''])))"
  by (rule concurrent_store_inv [OF racing_store_inv])


theorem concurrent_takes_both_succeed_witness:
  "\<exists>r. snd (interleave (concat (replicate 3 [(0, 5), (1, 5)])) (racing_store, [OidcTake ''s'', OidcTake ''s'']))
      = [OidcDone (Some r), OidcDone (Some r)]"
proof -
  obtain o_row where o: "find (\<lambda>r. oState (or_request r) = ''s'') (oidc_requests racing_store) = Some o_row" "5 \<le> or_expires_at o_row"
    by (simp add: racing_rows oidc_request_of_def)
  obtain s_row where s: "find (\<lambda>r. sr_request_id r = ''_r'' \<and> sr_tenant_id r = ''acme'') (saml_requests racing_store) = Some s_row"
    "5 \<le> sr_expires_at s_row" by (simp add: racing_rows)
  show ?thesis using concurrent_takes_both_succeed [OF o s] by blast
qed

text \<open>A deactivation and a change of the name that is displayed.\<close>

theorem concurrent_update_lost_witness:
  "\<exists>st' x y v. interleave [(0, 2), (1, 2), (0, 3), (1, 4)] (racing_store,
        [Update ''acme'' ''u-1'' (\<lambda>u. Some (u\<lparr>uActive := False\<rparr>)), Update ''acme'' ''u-1'' (\<lambda>u. Some (u\<lparr>uDisplayName := ''Bobby''\<rparr>))])
      = (st', [UpdateDone (Inr x), UpdateDone (Inr y)]) \<and> uVersion x = uVersion y
    \<and> GetUser st' ''acme'' ''u-1'' = Inr v \<and> uActive v \<and> uDisplayName v = ''Bobby''"
proof -
  obtain u where u: "GetUser racing_store ''acme'' ''u-1'' = Inr u" "uTenantID u = ''acme''" "uID u = ''u-1''"
    by (simp add: racing_rows GetUser_def user_row_of_def scanUser_def null_string_def nullable_def)
  let ?w = "u\<lparr>uDisplayName := ''Bobby''\<rparr>"
  have lost: "\<exists>st' x y. interleave [(0, 2), (1, 2), (0, 3), (1, 4)] (racing_store,
        [Update ''acme'' ''u-1'' (\<lambda>u. Some (u\<lparr>uActive := False\<rparr>)), Update ''acme'' ''u-1'' (\<lambda>u. Some (u\<lparr>uDisplayName := ''Bobby''\<rparr>))])
      = (st', [UpdateDone (Inr x), UpdateDone (Inr y)]) \<and> uVersion x = uVersion y \<and> st' = snd (ReplaceUser racing_store 4 ?w)"
    by (rule concurrent_update_lost [OF racing_store_inv u(1) refl refl]) (simp_all add: u)
  have "\<exists>v. GetUser (snd (ReplaceUser racing_store 4 ?w)) ''acme'' ''u-1'' = Inr v \<and> uActive v \<and> uDisplayName v = ''Bobby''"
    using u(1) by (auto simp: racing_rows GetUser_def ReplaceUser_def user_row_of_def scanUser_def null_string_def nullable_def
        boolInt_def update_user_row_def)
  then show ?thesis using lost by blast
qed

theorem concurrent_first_login_conflict_witness:
  "\<exists>st' x. interleave [(0, 2), (1, 3), (0, 4), (1, 5)] (racing_store, [Provision ''u-2'' new_user, Provision ''u-3'' new_user])
      = (st', [ProvisionDone (Inr x), ProvisionDone (Inl ErrConflict)])"
proof (rule concurrent_first_login_conflict)
  show "FindUserByUserName racing_store (uTenantID new_user) (uUserName new_user) = Inl ErrNotFound"
    by (simp add: racing_rows FindUserByUserName_def new_user_def user_row_of_def)
qed (simp_all add: racing_rows new_user_def user_row_of_def)

end
