(* ===== verification/XmlDoc.thy ===== *)
theory XmlDoc
  imports Values
begin

text \<open>
  The token view of an XML document, \<open>internal/saml/xmldoc.go\<close>, and the two searches of \<open>xmldsig.go\<close>
  that work on it.  The decoder of \<open>encoding/xml\<close> is a parameter: it gives the tokens of a document,
  and the raw scanner the same tokens with the input offset behind each.  Positions are indices into
  the token list, as in the code.
\<close>

section \<open>Documents\<close>

type_synonym xname = "string \<times> string"
type_synonym xattr = "xname \<times> string"

datatype xtoken =
    StartElement xname "xattr list"
  | EndElement
  | CharData string
  | OtherToken

record xmllib =
  decode_tokens :: "string \<Rightarrow> xtoken list option"
    \<comment> \<open>\<open>Decoder.Token\<close> until the end, strict mode; \<open>None\<close> on a syntax error\<close>
  decode_raw :: "string \<Rightarrow> (xtoken \<times> nat) list option"
    \<comment> \<open>\<open>Decoder.RawToken\<close> until the end, each token with \<open>InputOffset\<close>\<close>

type_synonym nsScope = "(string \<times> string) list"

record xmldoc =
  tokens :: "xtoken list"
  matchEnd :: "(nat \<times> nat) list"
  nsAtStart :: "(nat \<times> nsScope) list"

text \<open>The zero values Go reads from a map that lacks the key.\<close>

definition match_end :: "xmldoc \<Rightarrow> nat \<Rightarrow> nat" where
  "match_end d i = (case map_of (matchEnd d) i of None \<Rightarrow> 0 | Some e \<Rightarrow> e)"

definition ns_lookup :: "nsScope \<Rightarrow> string \<Rightarrow> string" where
  "ns_lookup s p = (case map_of s p of None \<Rightarrow> [] | Some u \<Rightarrow> u)"

definition ns_at_start :: "xmldoc \<Rightarrow> nat \<Rightarrow> nsScope" where
  "ns_at_start d i = (case map_of (nsAtStart d) i of None \<Rightarrow> [] | Some s \<Rightarrow> s)"

text \<open>The loop over the attributes of a start tag that records its namespace declarations.\<close>

definition declare_ns :: "nsScope \<Rightarrow> xattr list \<Rightarrow> nsScope" where
  "declare_ns scope attrs =
     foldl (\<lambda>s a. if fst (fst a) = ''xmlns'' then put s (snd (fst a)) (snd a)
                  else if fst (fst a) = [] \<and> snd (fst a) = ''xmlns'' then put s [] (snd a)
                  else s) scope attrs"

fun index_loop ::
    "nat \<Rightarrow> xtoken list \<Rightarrow> (nat \<times> nsScope) list \<Rightarrow> nsScope \<Rightarrow> (nat \<times> nat) list \<Rightarrow> (nat \<times> nsScope) list
     \<Rightarrow> (nat \<times> nat) list \<times> (nat \<times> nsScope) list" where
  "index_loop i [] stack cur ends scopes = (ends, scopes)"
| "index_loop i (StartElement nm attrs # ts) stack cur ends scopes =
     index_loop (Suc i) ts ((i, cur) # stack) (declare_ns cur attrs) ends ((i, cur) # scopes)"
| "index_loop i (EndElement # ts) stack cur ends scopes =
     (case stack of
        [] \<Rightarrow> index_loop (Suc i) ts stack cur ends scopes
      | (s, scope) # stack' \<Rightarrow> index_loop (Suc i) ts stack' scope ((s, i) # ends) scopes)"
| "index_loop i (CharData t # ts) stack cur ends scopes = index_loop (Suc i) ts stack cur ends scopes"
| "index_loop i (OtherToken # ts) stack cur ends scopes = index_loop (Suc i) ts stack cur ends scopes"

definition index_doc :: "xtoken list \<Rightarrow> xmldoc" where
  "index_doc toks =
     (case index_loop 0 toks [] [] [] [] of (ends, scopes) \<Rightarrow> \<lparr>tokens = toks, matchEnd = ends, nsAtStart = scopes\<rparr>)"

definition parseXMLDoc :: "xmllib \<Rightarrow> string \<Rightarrow> xmldoc option" where
  "parseXMLDoc X b = map_option index_doc (decode_tokens X b)"

section \<open>Searches\<close>

definition se_name :: "xmldoc \<Rightarrow> nat \<Rightarrow> xname" where
  "se_name d i = (case tokens d ! i of StartElement nm attrs \<Rightarrow> nm | _ \<Rightarrow> ([], []))"

definition se_attrs :: "xmldoc \<Rightarrow> nat \<Rightarrow> xattr list" where
  "se_attrs d i = (case tokens d ! i of StartElement nm attrs \<Rightarrow> attrs | _ \<Rightarrow> [])"

definition is_start :: "xmldoc \<Rightarrow> nat \<Rightarrow> bool" where
  "is_start d i = (case tokens d ! i of StartElement nm attrs \<Rightarrow> True | _ \<Rightarrow> False)"

definition attr_value :: "xattr list \<Rightarrow> string \<Rightarrow> string option" where
  "attr_value attrs local = map_option snd (find (\<lambda>a. snd (fst a) = local) attrs)"

definition attr_or_empty :: "xattr list \<Rightarrow> string \<Rightarrow> string" where
  "attr_or_empty attrs local = (case attr_value attrs local of None \<Rightarrow> [] | Some v \<Rightarrow> v)"

definition findByID :: "xmldoc \<Rightarrow> string \<Rightarrow> (nat \<times> nat) option" where
  "findByID d rid =
     (case find (\<lambda>i. is_start d i \<and> map_of (matchEnd d) i \<noteq> None
                   \<and> list_ex (\<lambda>a. snd (fst a) = ''ID'' \<and> snd a = rid) (se_attrs d i)) [0..<length (tokens d)] of
        None \<Rightarrow> None | Some i \<Rightarrow> Some (i, match_end d i))"

definition rootRange :: "xmldoc \<Rightarrow> (nat \<times> nat) option" where
  "rootRange d =
     (case find (\<lambda>i. is_start d i \<and> map_of (matchEnd d) i \<noteq> None) [0..<length (tokens d)] of
        None \<Rightarrow> None | Some i \<Rightarrow> Some (i, match_end d i))"

definition findDescendant :: "xmldoc \<Rightarrow> nat \<Rightarrow> nat \<Rightarrow> string \<Rightarrow> string \<Rightarrow> (nat \<times> nat) option" where
  "findDescendant d start fin space local =
     (case find (\<lambda>i. is_start d i \<and> snd (se_name d i) = local \<and> (space = [] \<or> fst (se_name d i) = space)
                   \<and> map_of (matchEnd d) i \<noteq> None) [start + 1..<fin] of
        None \<Rightarrow> None | Some i \<Rightarrow> Some (i, match_end d i))"

text \<open>
  The loops that skip subtrees carry fuel; \<open>fin - start\<close> rounds are enough when every start tag has
  its end tag behind it (\<open>scan_fuel_enough\<close> below), which the strict decoder guarantees.
\<close>

fun all_descendants_loop :: "nat \<Rightarrow> xmldoc \<Rightarrow> nat \<Rightarrow> nat \<Rightarrow> string \<Rightarrow> string \<Rightarrow> (nat \<times> nat) list" where
  "all_descendants_loop 0 d i fin space local = []"
| "all_descendants_loop (Suc n) d i fin space local =
     (if i \<ge> fin then []
      else if \<not> is_start d i then all_descendants_loop n d (i + 1) fin space local
      else let e = match_end d i
           in if snd (se_name d i) = local \<and> (space = [] \<or> fst (se_name d i) = space)
              then (i, e) # all_descendants_loop n d (e + 1) fin space local
              else all_descendants_loop n d (i + 1) fin space local)"

definition findAllDescendants :: "xmldoc \<Rightarrow> nat \<Rightarrow> nat \<Rightarrow> string \<Rightarrow> string \<Rightarrow> (nat \<times> nat) list" where
  "findAllDescendants d start fin space local = all_descendants_loop (fin - start) d (start + 1) fin space local"

fun direct_child_loop :: "nat \<Rightarrow> xmldoc \<Rightarrow> nat \<Rightarrow> nat \<Rightarrow> string \<Rightarrow> string \<Rightarrow> (nat \<times> nat) option" where
  "direct_child_loop 0 d i fin space local = None"
| "direct_child_loop (Suc n) d i fin space local =
     (if i \<ge> fin then None
      else if \<not> is_start d i then direct_child_loop n d (i + 1) fin space local
      else let e = match_end d i
           in if snd (se_name d i) = local \<and> fst (se_name d i) = space then Some (i, e)
              else direct_child_loop n d (e + 1) fin space local)"

definition findDirectChild :: "xmldoc \<Rightarrow> nat \<times> nat \<Rightarrow> string \<Rightarrow> string \<Rightarrow> (nat \<times> nat) option" where
  "findDirectChild d rng space local =
     direct_child_loop (snd rng - fst rng) d (fst rng + 1) (snd rng) space local"

definition elementText :: "xmldoc \<Rightarrow> nat \<times> nat \<Rightarrow> string" where
  "elementText d rng =
     concat (map (\<lambda>i. case tokens d ! i of CharData t \<Rightarrow> t | _ \<Rightarrow> []) [fst rng + 1..<snd rng])"

section \<open>Facts\<close>

definition well_matched :: "xmldoc \<Rightarrow> bool" where
  "well_matched d \<longleftrightarrow> (\<forall>i. i < length (tokens d) \<longrightarrow> is_start d i \<longrightarrow> i < match_end d i \<and> match_end d i < length (tokens d))"

text \<open>Proper nesting of start and end tags, as the strict decoder guarantees it.\<close>

fun balanced :: "nat \<Rightarrow> xtoken list \<Rightarrow> bool" where
  "balanced n [] = (n = 0)"
| "balanced n (StartElement nm attrs # ts) = balanced (Suc n) ts"
| "balanced n (EndElement # ts) = (0 < n \<and> balanced (n - 1) ts)"
| "balanced n (t # ts) = balanced n ts"

lemma scan_fuel_enough:
  assumes "well_matched d" and "fin \<le> length (tokens d)" and "fin - i \<le> n"
  shows "direct_child_loop n d i fin space local = direct_child_loop (fin - i) d i fin space local"
    and "all_descendants_loop n d i fin space local = all_descendants_loop (fin - i) d i fin space local"
  using assms(3)
proof (induction n arbitrary: i rule: less_induct)
  case (less n)
  have c: "direct_child_loop n d i fin space local = direct_child_loop (fin - i) d i fin space local
      \<and> all_descendants_loop n d i fin space local = all_descendants_loop (fin - i) d i fin space local"
    if ni: "fin - i \<le> n" for i
  proof (cases "i < fin")
    case False
    then show ?thesis by (cases n) simp_all
  next
    case True
    then obtain n' k where n: "n = Suc n'" and k: "fin - i = Suc k" and kn: "k \<le> n'" and ki: "k = fin - (i + 1)"
      using ni by (cases n; cases "fin - i") auto
    have step: "direct_child_loop m d j fin space local = direct_child_loop (fin - j) d j fin space local"
      "all_descendants_loop m d j fin space local = all_descendants_loop (fin - j) d j fin space local"
      if "m < n" "fin - j \<le> m" for m j
      using less.IH [OF that(1)] that by auto
    have next1: "fin - (i + 1) \<le> n'" "fin - (i + 1) \<le> k" and lt: "n' < n" "k < n"
      using n kn ki by auto
    have next2: "fin - (match_end d i + 1) \<le> n'" "fin - (match_end d i + 1) \<le> k" if "is_start d i"
    proof -
      have "i < match_end d i" using assms(1,2) that True by (auto simp: well_matched_def)
      then show "fin - (match_end d i + 1) \<le> n'" "fin - (match_end d i + 1) \<le> k" using ki kn by auto
    qed
    have one: "direct_child_loop n' d (i + 1) fin space local = direct_child_loop k d (i + 1) fin space local"
      "all_descendants_loop n' d (i + 1) fin space local = all_descendants_loop k d (i + 1) fin space local"
      using step [OF lt(1) next1(1)] step [OF lt(2) next1(2)] by simp_all
    have two: "direct_child_loop n' d (match_end d i + 1) fin space local = direct_child_loop k d (match_end d i + 1) fin space local"
      "all_descendants_loop n' d (match_end d i + 1) fin space local = all_descendants_loop k d (match_end d i + 1) fin space local"
      if "is_start d i"
      using step [OF lt(1) next2(1) [OF that]] step [OF lt(2) next2(2) [OF that]] by simp_all
    show ?thesis
      unfolding n k using one two by (cases "is_start d i") (auto simp: Let_def)
  qed
  { case 1 then show ?case using c by blast }
  { case 2 then show ?case using c by blast }
qed

text \<open>Every open start tag and every start tag ahead gets its end tag, behind it.\<close>

definition is_start_tok :: "xtoken \<Rightarrow> bool" where
  "is_start_tok t = (case t of StartElement nm attrs \<Rightarrow> True | _ \<Rightarrow> False)"

definition starts_from :: "nat \<Rightarrow> xtoken list \<Rightarrow> nat set" where
  "starts_from i ts = {i + k | k. k < length ts \<and> is_start_tok (ts ! k)}"

lemma starts_from_Cons:
  "starts_from i (t # ts) = (if is_start_tok t then {i} else {}) \<union> starts_from (Suc i) ts"
proof -
  have "starts_from i (t # ts) = {i + k | k. k = 0 \<and> is_start_tok t} \<union> {i + Suc k | k. k < length ts \<and> is_start_tok (ts ! k)}"
    unfolding starts_from_def by (auto simp: less_Suc_eq_0_disj)
  then show ?thesis by (auto simp: starts_from_def)
qed

lemma starts_from_ge: "s \<in> starts_from i ts \<Longrightarrow> i \<le> s"
  by (auto simp: starts_from_def)

lemma index_loop_ends:
  assumes "balanced (length stack) ts" and "index_loop i ts stack cur ends scopes = (ends', scopes')"
    and "\<forall>s\<in>set (map fst stack). s < i" and "distinct (map fst stack)"
  shows "(\<forall>s\<in>set (map fst stack) \<union> starts_from i ts. \<exists>e. map_of ends' s = Some e \<and> s < e \<and> e < i + length ts)
    \<and> (\<forall>s. s \<notin> set (map fst stack) \<union> starts_from i ts \<longrightarrow> map_of ends' s = map_of ends s)"
  using assms
proof (induction i ts stack cur ends scopes rule: index_loop.induct)
  case (1 i stack cur ends scopes)
  then show ?case by (simp add: starts_from_def)
next
  case (2 i nm attrs ts stack cur ends scopes)
  then have "(\<forall>s\<in>set (map fst ((i, cur) # stack)) \<union> starts_from (Suc i) ts.
        \<exists>e. map_of ends' s = Some e \<and> s < e \<and> e < Suc i + length ts)
      \<and> (\<forall>s. s \<notin> set (map fst ((i, cur) # stack)) \<union> starts_from (Suc i) ts \<longrightarrow> map_of ends' s = map_of ends s)"
    by (intro "2.IH") auto
  then show ?case by (auto simp: starts_from_Cons is_start_tok_def)
next
  case (3 i ts stack cur ends scopes)
  then obtain s0 scope stack' where st: "stack = (s0, scope) # stack'" by (cases stack) auto
  have ih: "(\<forall>s\<in>set (map fst stack') \<union> starts_from (Suc i) ts.
        \<exists>e. map_of ends' s = Some e \<and> s < e \<and> e < Suc i + length ts)
      \<and> (\<forall>s. s \<notin> set (map fst stack') \<union> starts_from (Suc i) ts \<longrightarrow> map_of ends' s = map_of ((s0, i) # ends) s)"
    using "3.prems" st by (intro "3.IH"(2) [OF st]) auto
  have "s0 \<notin> set (map fst stack') \<union> starts_from (Suc i) ts"
    using "3.prems"(3,4) st starts_from_ge [of s0 "Suc i" ts] by auto
  then have "map_of ends' s0 = Some i" using ih by simp
  then show ?case using ih st "3.prems"(3) by (auto simp: starts_from_Cons is_start_tok_def)
next
  case (4 i t ts stack cur ends scopes)
  have "\<forall>s\<in>set (map fst stack). s < Suc i" using "4.prems"(3) by auto
  with 4 show ?case by (simp add: starts_from_Cons is_start_tok_def)
next
  case (5 i ts stack cur ends scopes)
  have "\<forall>s\<in>set (map fst stack). s < Suc i" using "5.prems"(3) by auto
  with 5 show ?case by (simp add: starts_from_Cons is_start_tok_def)
qed

lemma is_start_conv: "is_start d i = is_start_tok (tokens d ! i)"
  by (simp add: is_start_def is_start_tok_def)

lemma index_doc_well_matched:
  assumes "balanced 0 toks"
  shows "well_matched (index_doc toks)"
proof -
  obtain ends scopes where r: "index_loop 0 toks [] [] [] [] = (ends, scopes)" by fastforce
  have "\<forall>s\<in>starts_from 0 toks. \<exists>e. map_of ends s = Some e \<and> s < e \<and> e < length toks"
    using index_loop_ends [OF _ r] assms by simp
  then show ?thesis
    by (fastforce simp: well_matched_def index_doc_def r is_start_conv starts_from_def match_end_def)
qed

end
