(* ===== verification/Canon.thy ===== *)
theory Canon
  imports XmlDoc
begin

text \<open>
  Exclusive canonicalization, \<open>internal/saml/canon.go\<close>: the literal names of a start tag from its
  source text, and the rendering of a subtree with the excluded signature left out.  The recursion
  over nested elements is bounded by \<open>maxCanonDepth\<close>; the model counts the levels that are left
  instead of the depth, so that running out of levels is exactly the code's \<open>tooDeep\<close>.
\<close>

section \<open>Raw start tags\<close>

text \<open>The loop of \<open>captureRawTags\<close>, with the offset behind the previous token and the token index.\<close>

fun raw_tags_loop :: "string \<Rightarrow> nat \<Rightarrow> nat \<Rightarrow> (xtoken \<times> nat) list \<Rightarrow> (nat \<times> string) list" where
  "raw_tags_loop src i offset [] = []"
| "raw_tags_loop src i offset ((t, fin) # ts) =
     (case t of
        StartElement nm attrs \<Rightarrow> (i, TrimSpace (drop offset (take fin src))) # raw_tags_loop src (Suc i) fin ts
      | _ \<Rightarrow> raw_tags_loop src (Suc i) fin ts)"

definition captureRawTags :: "xmllib \<Rightarrow> string \<Rightarrow> (nat \<times> string) list option" where
  "captureRawTags X src = map_option (raw_tags_loop src 0 0) (decode_raw X src)"

definition isSpaceByte :: "char \<Rightarrow> bool" where
  "isSpaceByte b = (b = CHR '' '' \<or> code_of b = 9 \<or> code_of b = 10 \<or> code_of b = 13)"

definition is_quote :: "char \<Rightarrow> bool" where
  "is_quote c = (c = CHR 0x22 \<or> code_of c = 39)"

text \<open>The attribute loop of \<open>qname\<close> on the rest of the tag.\<close>

definition attr_step :: "string \<Rightarrow> (string \<times> string option) option" where
  "attr_step s0 =
     (let s = dropWhile isSpaceByte s0
      in if s = [] \<or> hd s = CHR ''/'' \<or> hd s = CHR ''>'' then None
         else let nm = takeWhile (\<lambda>c. c \<noteq> CHR ''='' \<and> \<not> isSpaceByte c) s;
                  v = dropWhile isSpaceByte (drop 1 (dropWhile (\<lambda>c. c \<noteq> CHR ''='') s))
              in if v = [] \<or> \<not> is_quote (hd v) then Some (nm, None)
                 else Some (nm, Some (drop 1 (dropWhile (\<lambda>c. c \<noteq> hd v) (tl v)))))"

lemma attr_step_shorter: "attr_step s = Some (nm, Some rest) \<Longrightarrow> length rest < length s"
proof -
  assume a: "attr_step s = Some (nm, Some rest)"
  define s1 where "s1 = dropWhile isSpaceByte s"
  define v where "v = dropWhile isSpaceByte (drop 1 (dropWhile (\<lambda>c. c \<noteq> CHR ''='') s1))"
  have "v \<noteq> []" and r: "rest = drop 1 (dropWhile (\<lambda>c. c \<noteq> hd v) (tl v))"
    using a unfolding attr_step_def Let_def s1_def [symmetric] v_def [symmetric] by (auto split: if_splits)
  have "length v \<le> length (drop 1 (dropWhile (\<lambda>c. c \<noteq> CHR ''='') s1))"
    unfolding v_def by (rule length_dropWhile_le)
  also have "\<dots> \<le> length (dropWhile (\<lambda>c. c \<noteq> CHR ''='') s1)" by simp
  also have "\<dots> \<le> length s1" by (rule length_dropWhile_le)
  also have "\<dots> \<le> length s" unfolding s1_def by (rule length_dropWhile_le)
  finally have "length v \<le> length s" .
  moreover have "length rest \<le> length (tl v)"
    unfolding r using length_dropWhile_le [of "\<lambda>c. c \<noteq> hd v" "tl v"] by simp
  ultimately show "length rest < length s" using \<open>v \<noteq> []\<close> by (cases v) auto
qed

function attr_names :: "string \<Rightarrow> string list" where
  "attr_names s =
     (case attr_step s of
        None \<Rightarrow> []
      | Some (nm, None) \<Rightarrow> [nm]
      | Some (nm, Some rest) \<Rightarrow> nm # attr_names rest)"
  by pat_completeness auto
termination
  by (relation "measure length") (auto dest: attr_step_shorter)

declare attr_names.simps [simp del]

definition qname :: "string \<Rightarrow> string \<times> string list" where
  "qname rawTag =
     (let s = drop 1 (dropWhile (\<lambda>c. c \<noteq> CHR ''<'') rawTag);
          name_char = (\<lambda>c. \<not> isSpaceByte c \<and> c \<noteq> CHR ''>'' \<and> c \<noteq> CHR ''/'')
      in (takeWhile name_char s, attr_names (dropWhile name_char s)))"

definition splitQName :: "string \<Rightarrow> string \<times> string" where
  "splitQName qn = (case Cut qn CHR '':'' of None \<Rightarrow> ([], qn) | Some (p, l) \<Rightarrow> (p, l))"

section \<open>Escaping\<close>

definition escape_attr_char :: "char \<Rightarrow> string" where
  "escape_attr_char c =
     (if c = CHR ''&'' then ''&amp;''
      else if c = CHR ''<'' then ''&lt;''
      else if c = CHR 0x22 then ''&quot;''
      else if code_of c = 9 then ''&#x9;''
      else if code_of c = 10 then ''&#xA;''
      else if code_of c = 13 then ''&#xD;''
      else [c])"

definition escapeAttr :: "string \<Rightarrow> string" where
  "escapeAttr s = concat (map escape_attr_char s)"

definition escape_text_char :: "char \<Rightarrow> string" where
  "escape_text_char c =
     (if c = CHR ''&'' then ''&amp;''
      else if c = CHR ''<'' then ''&lt;''
      else if c = CHR ''>'' then ''&gt;''
      else if code_of c = 13 then ''&#xD;''
      else [c])"

definition escapeText :: "string \<Rightarrow> string" where
  "escapeText s = concat (map escape_text_char s)"

section \<open>Rendering\<close>

definition maxCanonDepth :: nat where
  "maxCanonDepth = 256"

definition is_xmlns :: "xattr \<Rightarrow> bool" where
  "is_xmlns a = (fst (fst a) = ''xmlns'' \<or> (fst (fst a) = [] \<and> snd (fst a) = ''xmlns''))"

text \<open>The attributes that are not declarations, each with its literal name (\<open>attrQs[idx]\<close>).\<close>

definition plain_attrs :: "xattr list \<Rightarrow> string list \<Rightarrow> (xattr \<times> string) list" where
  "plain_attrs attrs attrQs = filter (\<lambda>aq. \<not> is_xmlns (fst aq)) (zip attrs (attrQs @ replicate (length attrs) []))"

text \<open>\<open>addIfNeeded\<close> over the element's prefix and those of its attributes; then sorted by prefix.\<close>

definition needed_decls :: "nsScope \<Rightarrow> nsScope \<Rightarrow> string list \<Rightarrow> (string \<times> string) list" where
  "needed_decls effective rendered pfxs =
     sort_key fst
       (map (\<lambda>p. (p, ns_lookup effective p))
          (filter (\<lambda>p. map_of rendered p \<noteq> Some (ns_lookup effective p)) (rev (remdups (rev pfxs)))))"

definition render_decl :: "string \<times> string \<Rightarrow> string" where
  "render_decl n =
     '' '' @ (if fst n = [] then ''xmlns'' else ''xmlns:'' @ fst n) @ [CHR ''='', CHR 0x22] @ escapeAttr (snd n) @ [CHR 0x22]"

definition attr_uri :: "nsScope \<Rightarrow> string \<Rightarrow> string" where
  "attr_uri effective q = (let p = fst (splitQName q) in if p = [] then [] else ns_lookup effective p)"

definition sorted_attrs :: "nsScope \<Rightarrow> (xattr \<times> string) list \<Rightarrow> (string \<times> string) list" where
  "sorted_attrs effective attrs =
     map (\<lambda>aq. (snd aq, snd (fst aq)))
       (sort_key (\<lambda>aq. (attr_uri effective (snd aq), snd (splitQName (snd aq)))) attrs)"

definition render_attr :: "string \<times> string \<Rightarrow> string" where
  "render_attr qv = '' '' @ fst qv @ [CHR ''='', CHR 0x22] @ escapeAttr (snd qv) @ [CHR 0x22]"

text \<open>The child loop of \<open>render\<close>, over the rendering of one child; its fuel is the width of the range.\<close>

fun render_children ::
    "nat \<Rightarrow> xmldoc \<Rightarrow> nat list \<Rightarrow> (nat \<Rightarrow> nat \<Rightarrow> string \<times> bool) \<Rightarrow> nat \<Rightarrow> nat \<Rightarrow> string \<times> bool" where
  "render_children 0 doc excl child i fin = ([], False)"
| "render_children (Suc n) doc excl child i fin =
     (if i \<ge> fin then ([], False)
      else case tokens doc ! i of
             StartElement nm attrs \<Rightarrow>
               (let childEnd = match_end doc i;
                    (out1, deep1) = (if i \<in> set excl then ([], False) else child i childEnd);
                    (out2, deep2) = render_children n doc excl child (childEnd + 1) fin
                in (out1 @ out2, deep1 \<or> deep2))
           | CharData t \<Rightarrow>
               (let (out2, deep2) = render_children n doc excl child (i + 1) fin
                in (escapeText t @ out2, deep2))
           | _ \<Rightarrow> render_children n doc excl child (i + 1) fin)"

primrec render ::
    "nat \<Rightarrow> xmldoc \<Rightarrow> (nat \<times> string) list \<Rightarrow> nat list \<Rightarrow> nat \<Rightarrow> nat \<Rightarrow> nsScope \<Rightarrow> string \<times> bool" where
  "render 0 doc raw excl start fin rendered = (if start \<in> set excl then ([], False) else ([], True))"
| "render (Suc n) doc raw excl start fin rendered =
     (if start \<in> set excl then ([], False)
      else case map_of raw start of
             None \<Rightarrow> ([], False)
           | Some rawTag \<Rightarrow>
               let (tagQ, attrQs) = qname rawTag;
                   effective = declare_ns (ns_at_start doc start) (se_attrs doc start);
                   attrs = plain_attrs (se_attrs doc start) attrQs;
                   needed = needed_decls effective rendered
                              (fst (splitQName tagQ) # filter (\<lambda>p. p \<noteq> []) (map (\<lambda>aq. fst (splitQName (snd aq))) attrs));
                   newRendered = foldl (\<lambda>s pu. put s (fst pu) (snd pu)) rendered needed;
                   (body, deep) = render_children (fin - start) doc excl
                     (\<lambda>i e. render n doc raw excl i e newRendered) (start + 1) fin
               in (''<'' @ tagQ @ concat (map render_decl needed)
                   @ concat (map render_attr (sorted_attrs effective attrs)) @ ''>'' @ body @ ''</'' @ tagQ @ ''>'', deep))"

definition canonicalize :: "xmldoc \<Rightarrow> (nat \<times> string) list \<Rightarrow> nat \<times> nat \<Rightarrow> nat list \<Rightarrow> string option" where
  "canonicalize doc raw rng excl =
     (case render (Suc maxCanonDepth) doc raw excl (fst rng) (snd rng) [] of
        (out, tooDeep) \<Rightarrow> if tooDeep then None else Some out)"

section \<open>Evaluation\<close>

text \<open>
  Code equations that compare characters and name every intermediate value by a function of its own,
  so that samples are evaluated in one pass.
\<close>

lemma code_of_chars:
  "code_of c = 9 \<longleftrightarrow> c = CHR 0x09" "code_of c = 10 \<longleftrightarrow> c = CHR 0x0A" "code_of c = 13 \<longleftrightarrow> c = CHR 0x0D"
  "code_of c = 39 \<longleftrightarrow> c = CHR 0x27"
  using of_char_eq_iff [where 'a = nat, of c "CHR 0x09"] of_char_eq_iff [where 'a = nat, of c "CHR 0x0A"]
    of_char_eq_iff [where 'a = nat, of c "CHR 0x0D"] of_char_eq_iff [where 'a = nat, of c "CHR 0x27"]
  by (simp_all add: code_of_def)

lemma isSpaceByte_code [code]: "isSpaceByte b = (b \<in> set [CHR '' '', CHR 0x09, CHR 0x0A, CHR 0x0D])"
  by (simp add: isSpaceByte_def code_of_chars)

lemma is_quote_code [code]: "is_quote c = (c = CHR 0x22 \<or> c = CHR 0x27)"
  by (simp add: is_quote_def code_of_chars)

lemma escape_attr_char_code [code]:
  "escape_attr_char c =
     (if c = CHR ''&'' then ''&amp;''
      else if c = CHR ''<'' then ''&lt;''
      else if c = CHR 0x22 then ''&quot;''
      else if c = CHR 0x09 then ''&#x9;''
      else if c = CHR 0x0A then ''&#xA;''
      else if c = CHR 0x0D then ''&#xD;''
      else [c])"
  by (simp add: escape_attr_char_def code_of_chars)

lemma escape_text_char_code [code]:
  "escape_text_char c =
     (if c = CHR ''&'' then ''&amp;''
      else if c = CHR ''<'' then ''&lt;''
      else if c = CHR ''>'' then ''&gt;''
      else if c = CHR 0x0D then ''&#xD;''
      else [c])"
  by (simp add: escape_text_char_def code_of_chars)

definition join_child :: "(nat \<Rightarrow> string \<times> bool) \<Rightarrow> nat \<Rightarrow> string \<times> bool \<Rightarrow> string \<times> bool" where
  "join_child rest childEnd out = (fst out @ fst (rest (childEnd + 1)), snd out \<or> snd (rest (childEnd + 1)))"

definition with_end :: "nat list \<Rightarrow> (nat \<Rightarrow> nat \<Rightarrow> string \<times> bool) \<Rightarrow> (nat \<Rightarrow> string \<times> bool) \<Rightarrow> nat \<Rightarrow> nat \<Rightarrow> string \<times> bool" where
  "with_end excl child rest i childEnd = join_child rest childEnd (if i \<in> set excl then ([], False) else child i childEnd)"

definition rest_of :: "nat \<Rightarrow> xmldoc \<Rightarrow> nat list \<Rightarrow> (nat \<Rightarrow> nat \<Rightarrow> string \<times> bool) \<Rightarrow> nat \<Rightarrow> nat \<Rightarrow> string \<times> bool" where
  "rest_of n doc excl child fin i = render_children n doc excl child i fin"

definition add_text :: "string \<Rightarrow> string \<times> bool \<Rightarrow> string \<times> bool" where
  "add_text t out = (t @ fst out, snd out)"

lemma render_children_code [code]:
  "render_children 0 doc excl child i fin = ([], False)"
  "render_children (Suc n) doc excl child i fin =
     (if i \<ge> fin then ([], False)
      else case tokens doc ! i of
             StartElement nm attrs \<Rightarrow> with_end excl child (rest_of n doc excl child fin) i (match_end doc i)
           | CharData t \<Rightarrow> add_text (escapeText t) (rest_of n doc excl child fin (i + 1))
           | _ \<Rightarrow> rest_of n doc excl child fin (i + 1))"
  by (auto simp: with_end_def join_child_def rest_of_def add_text_def Let_def split: xtoken.splits prod.splits)

definition child_of ::
    "nat \<Rightarrow> xmldoc \<Rightarrow> (nat \<times> string) list \<Rightarrow> nat list \<Rightarrow> nsScope \<Rightarrow> nat \<Rightarrow> nat \<Rightarrow> string \<times> bool" where
  "child_of n doc raw excl rendered i e = render n doc raw excl i e rendered"

definition tagged :: "string \<Rightarrow> string \<Rightarrow> string \<times> bool \<Rightarrow> string \<times> bool" where
  "tagged tagQ decls body = (''<'' @ tagQ @ decls @ ''>'' @ fst body @ ''</'' @ tagQ @ ''>'', snd body)"

definition render_needed ::
    "(nsScope \<Rightarrow> nat \<Rightarrow> nat \<Rightarrow> string \<times> bool) \<Rightarrow> xmldoc \<Rightarrow> nat list \<Rightarrow> nat \<Rightarrow> nat \<Rightarrow> nsScope \<Rightarrow> string
     \<Rightarrow> string \<Rightarrow> (string \<times> string) list \<Rightarrow> string \<times> bool" where
  "render_needed child doc excl start fin rendered tagQ as needed =
     tagged tagQ (concat (map render_decl needed) @ as)
       (render_children (fin - start) doc excl (child (foldl (\<lambda>s pu. put s (fst pu) (snd pu)) rendered needed)) (start + 1) fin)"

definition render_attrs ::
    "(nsScope \<Rightarrow> nat \<Rightarrow> nat \<Rightarrow> string \<times> bool) \<Rightarrow> xmldoc \<Rightarrow> nat list \<Rightarrow> nat \<Rightarrow> nat \<Rightarrow> nsScope \<Rightarrow> string
     \<Rightarrow> nsScope \<Rightarrow> (xattr \<times> string) list \<Rightarrow> string \<times> bool" where
  "render_attrs child doc excl start fin rendered tagQ effective attrs =
     render_needed child doc excl start fin rendered tagQ (concat (map render_attr (sorted_attrs effective attrs)))
       (needed_decls effective rendered
          (fst (splitQName tagQ) # filter (\<lambda>p. p \<noteq> []) (map (\<lambda>aq. fst (splitQName (snd aq))) attrs)))"

definition render_tag ::
    "(nsScope \<Rightarrow> nat \<Rightarrow> nat \<Rightarrow> string \<times> bool) \<Rightarrow> xmldoc \<Rightarrow> nat list \<Rightarrow> nat \<Rightarrow> nat \<Rightarrow> nsScope
     \<Rightarrow> string \<times> string list \<Rightarrow> string \<times> bool" where
  "render_tag child doc excl start fin rendered tag =
     render_attrs child doc excl start fin rendered (fst tag)
       (declare_ns (ns_at_start doc start) (se_attrs doc start)) (plain_attrs (se_attrs doc start) (snd tag))"

lemma render_code [code]:
  "render 0 doc raw excl start fin rendered = (if start \<in> set excl then ([], False) else ([], True))"
  "render (Suc n) doc raw excl start fin rendered =
     (if start \<in> set excl then ([], False)
      else case map_of raw start of
             None \<Rightarrow> ([], False)
           | Some rawTag \<Rightarrow> render_tag (child_of n doc raw excl) doc excl start fin rendered (qname rawTag))"
  by (simp_all add: render_tag_def render_attrs_def render_needed_def tagged_def child_of_def [abs_def] Let_def
      split: option.splits prod.splits)

end
