(* ===== verification/Encoding.thy ===== *)
theory Encoding
  imports Prelude
begin

text \<open>
  The encodings of the standard library that the login flows use: base64 in its padded standard and
  its unpadded URL form, and percent-encoding of query parameters.
\<close>

section \<open>Base64\<close>

definition std_alphabet :: string where
  "std_alphabet = ''ABCDEFGHIJKLMNOPQRSTUVWXYZabcdefghijklmnopqrstuvwxyz0123456789+/''"

definition url_alphabet :: string where
  "url_alphabet = ''ABCDEFGHIJKLMNOPQRSTUVWXYZabcdefghijklmnopqrstuvwxyz0123456789-_''"

fun position :: "char \<Rightarrow> string \<Rightarrow> nat option" where
  "position c [] = None"
| "position c (x # xs) = (if x = c then Some 0 else map_option Suc (position c xs))"

definition sextets :: "string \<Rightarrow> string \<Rightarrow> nat list option" where
  "sextets alphabet cs = those (map (\<lambda>c. position c alphabet) cs)"

definition unpack3 :: "nat \<Rightarrow> string" where
  "unpack3 v = [char_of (v div 65536), char_of (v div 256 mod 256), char_of (v mod 256)]"

definition pack4 :: "nat list \<Rightarrow> nat" where
  "pack4 ds = foldl (\<lambda>v d. 64 * v + d) 0 ds"

text \<open>One group of the last characters: two or three significant ones give one or two bytes.\<close>

definition decode_group :: "string \<Rightarrow> string \<Rightarrow> string option" where
  "decode_group alphabet cs =
     map_option (\<lambda>ds. take (length cs - 1) (unpack3 (pack4 (take 4 (ds @ [0, 0]))))) (sextets alphabet cs)"

fun decode_loop :: "string \<Rightarrow> bool \<Rightarrow> string \<Rightarrow> string option" where
  "decode_loop alphabet padded (a # b # c # d # rest) =
     (if padded \<and> d = CHR ''='' then
        (if rest \<noteq> [] then None
         else decode_group alphabet (if c = CHR ''='' then [a, b] else [a, b, c]))
      else (case decode_group alphabet [a, b, c, d] of
              None \<Rightarrow> None
            | Some bytes \<Rightarrow> map_option (\<lambda>r. bytes @ r) (decode_loop alphabet padded rest)))"
| "decode_loop alphabet padded [] = Some []"
| "decode_loop alphabet padded cs = (if padded \<or> length cs = 1 then None else decode_group alphabet cs)"

definition strip_newlines :: "string \<Rightarrow> string" where
  "strip_newlines s = filter (\<lambda>c. code_of c \<noteq> 10 \<and> code_of c \<noteq> 13) s"

definition std_decode :: "string \<Rightarrow> string option" where
  "std_decode s = decode_loop std_alphabet True (strip_newlines s)"

definition rawurl_decode :: "string \<Rightarrow> string option" where
  "rawurl_decode s = decode_loop url_alphabet False (strip_newlines s)"

fun encode_loop :: "string \<Rightarrow> bool \<Rightarrow> string \<Rightarrow> string" where
  "encode_loop alphabet padded (a # b # c # rest) =
     (let v = code_of a * 65536 + code_of b * 256 + code_of c
      in [alphabet ! (v div 262144), alphabet ! (v div 4096 mod 64), alphabet ! (v div 64 mod 64), alphabet ! (v mod 64)]
         @ encode_loop alphabet padded rest)"
| "encode_loop alphabet padded [a, b] =
     (let v = code_of a * 65536 + code_of b * 256
      in [alphabet ! (v div 262144), alphabet ! (v div 4096 mod 64), alphabet ! (v div 64 mod 64)]
         @ (if padded then ''='' else []))"
| "encode_loop alphabet padded [a] =
     (let v = code_of a * 65536
      in [alphabet ! (v div 262144), alphabet ! (v div 4096 mod 64)] @ (if padded then ''=='' else []))"
| "encode_loop alphabet padded [] = []"

definition std_encode :: "string \<Rightarrow> string" where
  "std_encode s = encode_loop std_alphabet True s"

definition rawurl_encode :: "string \<Rightarrow> string" where
  "rawurl_encode s = encode_loop url_alphabet False s"

section \<open>Percent-encoding\<close>

definition upper_hex :: "nat \<Rightarrow> char" where
  "upper_hex d = ''0123456789ABCDEF'' ! d"

definition query_char :: "char \<Rightarrow> string" where
  "query_char c =
     (if is_upper c \<or> is_lower c \<or> is_digit c \<or> c \<in> set ''-_.~'' then [c]
      else if c = CHR '' '' then ''+''
      else [CHR ''%'', upper_hex (code_of c div 16), upper_hex (code_of c mod 16)])"

definition QueryEscape :: "string \<Rightarrow> string" where
  "QueryEscape s = concat (map query_char s)"

section \<open>Round trips\<close>

lemma position_nth: "distinct xs \<Longrightarrow> i < length xs \<Longrightarrow> position (xs ! i) xs = Some i"
proof (induction xs arbitrary: i)
  case (Cons x xs)
  then show ?case by (cases i) auto
qed simp

lemma alphabets [simp]:
  "distinct std_alphabet" "length std_alphabet = 64" "CHR ''='' \<notin> set std_alphabet"
  "distinct url_alphabet" "length url_alphabet = 64" "CHR ''='' \<notin> set url_alphabet"
  by (code_simp)+

lemma unpack3_bytes: "unpack3 (code_of a * 65536 + code_of b * 256 + code_of c) = [a, b, c]"
proof -
  let ?v = "code_of c + 256 * (code_of b + 256 * code_of a)"
  have "(code_of c + 256 * y) div 256 = y" "(code_of c + 256 * y) mod 256 = code_of c" for y by simp_all
  from this [of "code_of b + 256 * code_of a"]
  have "?v div 256 = code_of b + 256 * code_of a" "?v mod 256 = code_of c" .
  moreover have "?v div 65536 = ?v div 256 div 256" by (simp add: div_mult2_eq [symmetric])
  ultimately have "unpack3 ?v = [a, b, c]" by (simp add: unpack3_def code_of_def)
  moreover have "code_of a * 65536 + code_of b * 256 + code_of c = ?v" by simp
  ultimately show ?thesis by metis
qed

lemma sextet_sum:
  "64 * (64 * (64 * (v div 262144) + v div 4096 mod 64) + v div 64 mod 64) + v mod 64 = (v::nat)"
proof -
  have "v div 4096 = v div 64 div 64" "v div 262144 = v div 64 div 64 div 64"
    by (simp_all add: div_mult2_eq [symmetric])
  then show ?thesis by simp
qed

lemma decode_group_nth:
  assumes "distinct al" and "\<forall>d\<in>set ds. d < length al"
  shows "decode_group al (map ((!) al) ds) = Some (take (length ds - 1) (unpack3 (pack4 (take 4 (ds @ [0, 0])))))"
proof -
  have "those (map (\<lambda>c. position c al) (map ((!) al) ds)) = Some ds"
    using assms by (induction ds) (simp_all add: position_nth)
  then show ?thesis by (simp add: decode_group_def sextets_def)
qed

lemma decode_groups:
  assumes "distinct al" and "length al = 64" and "p < 64" "q < 64" "r < 64" "t < 64"
  shows "decode_group al [al ! p, al ! q, al ! r, al ! t] = Some (unpack3 (pack4 [p, q, r, t]))"
    and "decode_group al [al ! p, al ! q, al ! r] = Some (take 2 (unpack3 (pack4 [p, q, r, 0])))"
    and "decode_group al [al ! p, al ! q] = Some (take 1 (unpack3 (pack4 [p, q, 0, 0])))"
  using decode_group_nth [OF assms(1), of "[p, q, r, t]"] decode_group_nth [OF assms(1), of "[p, q, r]"]
    decode_group_nth [OF assms(1), of "[p, q]"] assms by (simp_all add: unpack3_def)

lemma decode_group_bytes:
  assumes "distinct al" and "length al = 64" and v: "v = code_of a * 65536 + code_of b * 256 + code_of c"
  shows "decode_group al [al ! (v div 262144), al ! (v div 4096 mod 64), al ! (v div 64 mod 64), al ! (v mod 64)]
      = Some [a, b, c]"
    and "code_of c = 0 \<Longrightarrow>
      decode_group al [al ! (v div 262144), al ! (v div 4096 mod 64), al ! (v div 64 mod 64)] = Some [a, b]"
    and "code_of c = 0 \<Longrightarrow> code_of b = 0 \<Longrightarrow>
      decode_group al [al ! (v div 262144), al ! (v div 4096 mod 64)] = Some [a]"
proof -
  have bound: "v div 262144 < 64" using v code_of_bound [of a] code_of_bound [of b] code_of_bound [of c]
    by (simp add: less_mult_imp_div_less del: code_of_bound)
  have m: "x mod 64 < 64" for x :: nat by simp
  note groups = decode_groups [OF assms(1,2) bound m [of "v div 4096"] m [of "v div 64"] m [of v]]
  have s: "pack4 [v div 262144, v div 4096 mod 64, v div 64 mod 64, v mod 64] = v"
    using sextet_sum [of v] by (simp only: pack4_def foldl.simps mult_0_right add_0_left)
  have u: "unpack3 v = [a, b, c]" using v unpack3_bytes by (simp only:)
  show "decode_group al [al ! (v div 262144), al ! (v div 4096 mod 64), al ! (v div 64 mod 64), al ! (v mod 64)]
      = Some [a, b, c]"
    unfolding groups s u ..
  show "decode_group al [al ! (v div 262144), al ! (v div 4096 mod 64), al ! (v div 64 mod 64)] = Some [a, b]"
    if c: "code_of c = 0"
  proof -
    have "v = 64 * (code_of a * 1024 + code_of b * 4)" using v c by simp
    then have z: "v mod 64 = 0" by (simp only: mod_mult_self1_is_0)
    show ?thesis unfolding groups s [unfolded z] u by (simp only: take_Suc_Cons take_0 numeral_2_eq_2)
  qed
  show "decode_group al [al ! (v div 262144), al ! (v div 4096 mod 64)] = Some [a]"
    if c: "code_of c = 0" and b: "code_of b = 0"
  proof -
    have v': "v = 64 * (64 * (code_of a * 16))" using v b c by simp
    then have z: "v mod 64 = 0" by (simp only: mod_mult_self1_is_0)
    have "v div 64 = 64 * (code_of a * 16)" unfolding v' by (rule nonzero_mult_div_cancel_left) simp
    then have z': "v div 64 mod 64 = 0" by (simp only: mod_mult_self1_is_0)
    show ?thesis unfolding groups s [unfolded z z'] u by (simp only: take_Suc_Cons take_0 One_nat_def)
  qed
qed

lemma decode_encode:
  assumes "distinct al" "length al = 64" "CHR ''='' \<notin> set al"
  shows "decode_loop al padded (encode_loop al padded s) = Some s"
  using assms
proof (induction al padded s rule: encode_loop.induct)
  case (1 al padded a b c rest)
  let ?v = "code_of a * 65536 + code_of b * 256 + code_of c"
  have "al ! (?v mod 64) \<in> set al" using 1 by simp
  then have "al ! (?v mod 64) \<noteq> CHR ''=''" using 1(4) by metis
  then show ?case using 1 decode_group_bytes(1) [OF 1(2,3) refl, of a b c] by (simp add: Let_def)
next
  case (2 al padded a b)
  have n: "al ! i \<noteq> CHR ''=''" if "i < 64" for i using 2(2,3) that nth_mem by metis
  have "code_of (CHR 0x00) = 0" by (simp add: code_of_def)
  then show ?case
    using decode_group_bytes(2) [OF 2(1,2) refl, of "CHR 0x00" a b] n [of "(code_of a * 65536 + code_of b * 256) div 64 mod 64"]
    by (cases padded) (simp_all add: Let_def)
next
  case (3 al padded a)
  have "code_of (CHR 0x00) = 0" by (simp add: code_of_def)
  then show ?case
    using decode_group_bytes(3) [OF 3(1,2) refl, of "CHR 0x00" "CHR 0x00" a]
    by (cases padded) (simp_all add: Let_def)
qed simp

lemma set_encode_loop: "length al = 64 \<Longrightarrow> set (encode_loop al padded s) \<subseteq> insert CHR ''='' (set al)"
proof (induction al padded s rule: encode_loop.induct)
  case (1 al padded a b c rest)
  let ?v = "code_of a * 65536 + code_of b * 256 + code_of c"
  have "?v div 262144 < 64" using code_of_bound [of a] code_of_bound [of b] code_of_bound [of c]
    by (simp add: less_mult_imp_div_less del: code_of_bound)
  then show ?case using 1 by (auto simp: Let_def)
next
  case (2 al padded a b)
  have "(code_of a * 65536 + code_of b * 256) div 262144 < 64" using code_of_bound [of a] code_of_bound [of b]
    by (simp add: less_mult_imp_div_less del: code_of_bound)
  then show ?case using 2 by (auto simp: Let_def)
next
  case (3 al padded a)
  have "code_of a * 65536 div 262144 < 64" using code_of_bound [of a]
    by (simp add: less_mult_imp_div_less del: code_of_bound)
  then show ?case using 3 by (auto simp: Let_def)
qed simp

lemma no_space_alphabet: "\<forall>c\<in>set (std_alphabet @ url_alphabet @ ''=''). 32 < code_of c"
  by code_simp

lemma encoded_visible:
  "c \<in> set (std_encode s) \<Longrightarrow> 32 < code_of c" "c \<in> set (rawurl_encode s) \<Longrightarrow> 32 < code_of c"
  using set_encode_loop [of std_alphabet True s] set_encode_loop [of url_alphabet False s] no_space_alphabet
  by (auto simp: std_encode_def rawurl_encode_def)

lemma std_decode_encode [simp]: "std_decode (std_encode s) = Some s"
proof -
  have "strip_newlines (std_encode s) = std_encode s"
    using encoded_visible(1) by (fastforce simp: strip_newlines_def filter_id_conv)
  then show ?thesis by (simp add: std_decode_def std_encode_def decode_encode)
qed

lemma rawurl_decode_encode [simp]: "rawurl_decode (rawurl_encode s) = Some s"
proof -
  have "strip_newlines (rawurl_encode s) = rawurl_encode s"
    using encoded_visible(2) by (fastforce simp: strip_newlines_def filter_id_conv)
  then show ?thesis by (simp add: rawurl_decode_def rawurl_encode_def decode_encode)
qed

lemma decodeBase64_spaces [simp]: "std_decode (strip_spaces (std_encode s)) = Some s"
proof -
  have "strip_spaces (std_encode s) = std_encode s"
    using encoded_visible(1) by (fastforce simp: strip_spaces_def is_space_def filter_id_conv)
  then show ?thesis by simp
qed

text \<open>\<open>url.QueryUnescape\<close>, which undoes the percent-encoding.\<close>

fun unhex :: "char \<Rightarrow> nat option" where
  "unhex c = position c ''0123456789ABCDEF''"

fun QueryUnescape :: "string \<Rightarrow> string option" where
  "QueryUnescape [] = Some []"
| "QueryUnescape (c # r) =
     (if c = CHR ''%'' then
        (case r of
           a # b # r' \<Rightarrow>
             (case (unhex a, unhex b) of
                (Some x, Some y) \<Rightarrow> map_option (\<lambda>t. char_of (16 * x + y) # t) (QueryUnescape r')
              | _ \<Rightarrow> None)
         | _ \<Rightarrow> None)
      else map_option (\<lambda>t. (if c = CHR ''+'' then CHR '' '' else c) # t) (QueryUnescape r))"

lemma unhex_upper: "d < 16 \<Longrightarrow> unhex (upper_hex d) = Some d"
proof -
  assume "d < 16"
  moreover have "\<forall>d\<in>set [0..<16]. unhex (upper_hex d) = Some d" by code_simp
  ultimately show ?thesis by simp
qed

lemma query_char_unescape: "QueryUnescape (query_char c @ r) = map_option (\<lambda>t. c # t) (QueryUnescape r)"
proof -
  have pl: "\<not> is_upper (CHR ''+'')" "\<not> is_lower (CHR ''+'')" "\<not> is_digit (CHR ''+'')" "\<not> is_upper (CHR ''%'')" "\<not> is_lower (CHR ''%'')" "\<not> is_digit (CHR ''%'')"
    by code_simp+
  have "16 * (code_of c div 16) + code_of c mod 16 = code_of c" by simp
  moreover have "char_of (code_of c) = c" by (simp add: code_of_def)
  moreover have "code_of c div 16 < 16" using code_of_bound [of c] by (simp add: less_mult_imp_div_less del: code_of_bound)
  ultimately show ?thesis
    using unhex_upper [of "code_of c div 16"] unhex_upper [of "code_of c mod 16"] pl
    by (auto simp: query_char_def simp del: unhex.simps)
qed

lemma QueryUnescape_Escape [simp]: "QueryUnescape (QueryEscape s) = Some s"
proof -
  have "QueryUnescape (concat (map query_char s)) = Some s"
    by (induction s) (simp_all add: query_char_unescape del: QueryUnescape.simps, simp)
  then show ?thesis by (simp add: QueryEscape_def)
qed

lemma QueryEscape_inject [simp]: "QueryEscape s = QueryEscape t \<longleftrightarrow> s = t"
  by (metis QueryUnescape_Escape option.inject)

lemma rawurl_encode_inject [simp]: "rawurl_encode s = rawurl_encode t \<longleftrightarrow> s = t"
  by (metis rawurl_decode_encode option.inject)

section \<open>Evaluation\<close>

text \<open>Code equations over binary integers, so that the encodings can be evaluated on samples.\<close>

lemma char_of_int: "char_of (int n) = (char_of n :: char)"
  by (simp add: char_of_def bit_of_nat_iff_bit)

definition unpack3_int :: "int \<Rightarrow> string" where
  "unpack3_int v = [char_of (v div 65536), char_of (v div 256 mod 256), char_of (v mod 256)]"

lemma unpack3_int: "unpack3_int (int v) = unpack3 v"
  unfolding unpack3_int_def unpack3_def char_of_int [symmetric] by (simp only: of_nat_div of_nat_mod of_nat_numeral)

definition pack4_int :: "nat list \<Rightarrow> int" where
  "pack4_int ds = foldl (\<lambda>v d. 64 * v + int d) 0 ds"

lemma pack4_int: "pack4_int ds = int (pack4 ds)"
proof -
  have "foldl (\<lambda>v d. 64 * v + int d) (int n) ds = int (foldl (\<lambda>v d. 64 * v + d) n ds)" for n
  proof (induction ds arbitrary: n)
    case (Cons d ds)
    from Cons.IH [of "64 * n + d"] show ?case by simp
  qed simp
  from this [of 0] show ?thesis by (simp add: pack4_int_def pack4_def)
qed

lemma decode_group_code [code]:
  "decode_group alphabet cs =
     map_option (\<lambda>ds. take (length cs - 1) (unpack3_int (pack4_int (take 4 (ds @ [0, 0]))))) (sextets alphabet cs)"
  by (simp add: decode_group_def pack4_int unpack3_int)

definition chunk_int :: "int \<Rightarrow> string \<Rightarrow> string" where
  "chunk_int v al = [al ! nat (v div 262144), al ! nat (v div 4096 mod 64), al ! nat (v div 64 mod 64), al ! nat (v mod 64)]"

lemma chunk_int:
  "chunk_int (int v) al = [al ! (v div 262144), al ! (v div 4096 mod 64), al ! (v div 64 mod 64), al ! (v mod 64)]"
  by (simp add: chunk_int_def nat_div_distrib nat_mod_distrib)

lemma of_char_int: "of_char c = int (code_of c)"
  by (simp add: code_of_def of_nat_of_char)

lemma pack_int:
  shows pack3_int: "of_char a * 65536 + of_char b * 256 + of_char c = int (code_of a * 65536 + code_of b * 256 + code_of c)"
    and pack2_int: "of_char a * 65536 + of_char b * 256 = int (code_of a * 65536 + code_of b * 256)"
    and pack1_int: "of_char a * 65536 = int (code_of a * 65536)"
  by (simp_all add: of_char_int)

lemma encode_loop_code [code]:
  "encode_loop alphabet padded (a # b # c # rest) =
     chunk_int (of_char a * 65536 + of_char b * 256 + of_char c) alphabet @ encode_loop alphabet padded rest"
  "encode_loop alphabet padded [a, b] =
     take 3 (chunk_int (of_char a * 65536 + of_char b * 256) alphabet) @ (if padded then ''='' else [])"
  "encode_loop alphabet padded [a] =
     take 2 (chunk_int (of_char a * 65536) alphabet) @ (if padded then ''=='' else [])"
  "encode_loop alphabet padded [] = []"
  subgoal unfolding pack3_int chunk_int encode_loop.simps Let_def by (rule refl)
  subgoal unfolding pack2_int chunk_int encode_loop.simps Let_def by (simp only: take_Suc_Cons take_0 numeral_3_eq_3)
  subgoal unfolding pack1_int chunk_int encode_loop.simps Let_def by (simp only: take_Suc_Cons take_0 numeral_2_eq_2)
  subgoal by (rule encode_loop.simps)
  done

end
