(* ===== verification/XmlDsig.thy ===== *)
theory XmlDsig
  imports Canon Encoding ScimServer
begin

text \<open>
  Signature verification of SAML responses, \<open>internal/saml/xmldsig.go\<close>, and the validation of the
  verified assertion, \<open>internal/saml/response.go\<close>.  SHA-256, RSA verification, the XML decoder and
  \<open>time.Parse\<close> are parameters; a certificate is its RSA public key, or not an RSA certificate.
\<close>

section \<open>Parameters\<close>

datatype certificate = RSACert string | OtherCert

record samllib =
  sl_xml :: xmllib
  sl_sha256 :: "string \<Rightarrow> string"
  sl_rsa_verify :: "string \<Rightarrow> string \<Rightarrow> string \<Rightarrow> bool"
    \<comment> \<open>\<open>rsa.VerifyPKCS1v15\<close> with SHA-256: key, digest, signature\<close>
  sl_time_parse :: "string \<Rightarrow> string \<Rightarrow> instant option"
    \<comment> \<open>\<open>time.Parse\<close>: layout, text\<close>
  sl_parse_cert :: "string \<Rightarrow> certificate option"
    \<comment> \<open>\<open>x509.ParseCertificate\<close>\<close>

datatype saml_error =
    XMLError
  | EmptyDocument
  | NotAResponse
  | AssertionCount nat
  | NotSigned
  | NoID
  | Missing string
  | ReferenceMismatch
  | UnsupportedAlgorithm string
  | BadBase64 string
  | TooDeep
  | DigestMismatch
  | NotRSA
  | BadSignature
  | WrongDestination
  | WrongRecipient
  | BadTime string
  | ConfirmationExpired
  | WrongRequest
  | NotYetValid
  | AssertionExpired
  | WrongAudience

section \<open>Signatures (xmldsig.go)\<close>

definition dsNS :: string where
  "dsNS = ''http://www.w3.org/2000/09/xmldsig#''"

definition samlNS :: string where
  "samlNS = ''urn:oasis:names:tc:SAML:2.0:assertion''"

definition sampNS :: string where
  "sampNS = ''urn:oasis:names:tc:SAML:2.0:protocol''"

definition digestAlgByURI :: "string \<Rightarrow> bool" where
  "digestAlgByURI uri = (uri \<in> set [''http://www.w3.org/2001/04/xmlenc#sha256'',
     ''http://www.w3.org/2001/04/xmldsig-more#sha256''])"

definition sigAlgByURI :: "string \<Rightarrow> bool" where
  "sigAlgByURI uri = (uri = ''http://www.w3.org/2001/04/xmldsig-more#rsa-sha256'')"

definition hmacEqual :: "string \<Rightarrow> string \<Rightarrow> bool" where
  "hmacEqual a b =
     (if length a \<noteq> length b then False
      else foldl (\<lambda>v (x, y). v OR (x XOR y)) 0 (zip (bytes_of a) (bytes_of b)) = (0 :: byte))"

interpretation digest: secret_comparison hmacEqual
proof
  fix a b
  show "hmacEqual a b \<longleftrightarrow> a = b"
    by (auto simp: hmacEqual_def or_xor_fold bytes_of_inject)
qed

definition verifyEnvelopedSignature ::
    "samllib \<Rightarrow> xmldoc \<Rightarrow> (nat \<times> string) list \<Rightarrow> nat \<times> nat \<Rightarrow> nat \<times> nat \<Rightarrow> certificate \<Rightarrow> saml_error + unit" where
  "verifyEnvelopedSignature S doc raw parent sig cert =
     (let parentID = attr_or_empty (se_attrs doc (fst parent)) ''ID''
      in ensure NoID (parentID \<noteq> [])
        (require (Missing ''SignedInfo'') (findDirectChild doc sig dsNS ''SignedInfo'') (\<lambda>si.
         require (Missing ''Reference'') (findDirectChild doc si dsNS ''Reference'') (\<lambda>ref.
         ensure ReferenceMismatch (TrimPrefix (attr_or_empty (se_attrs doc (fst ref)) ''URI'') ''#'' = parentID)
        (require (Missing ''DigestMethod'') (findDirectChild doc ref dsNS ''DigestMethod'') (\<lambda>dm.
         let digestAlgURI = attr_or_empty (se_attrs doc (fst dm)) ''Algorithm''
         in ensure (UnsupportedAlgorithm digestAlgURI) (digestAlgByURI digestAlgURI)
        (require (Missing ''DigestValue'') (findDirectChild doc ref dsNS ''DigestValue'') (\<lambda>dv.
         require (BadBase64 ''DigestValue'') (std_decode (TrimSpace (elementText doc dv))) (\<lambda>wantDigest.
         require TooDeep (canonicalize doc raw parent [fst sig]) (\<lambda>canonicalTarget.
         ensure DigestMismatch (hmacEqual (sl_sha256 S canonicalTarget) wantDigest)
        (require (Missing ''SignatureMethod'') (findDirectChild doc si dsNS ''SignatureMethod'') (\<lambda>sm.
         let sigAlgURI = attr_or_empty (se_attrs doc (fst sm)) ''Algorithm''
         in ensure (UnsupportedAlgorithm sigAlgURI) (sigAlgByURI sigAlgURI)
        (require (Missing ''SignatureValue'') (findDirectChild doc sig dsNS ''SignatureValue'') (\<lambda>sv.
         require (BadBase64 ''SignatureValue'') (std_decode (TrimSpace (elementText doc sv))) (\<lambda>sigBytes.
         require TooDeep (canonicalize doc raw si []) (\<lambda>canonicalSignedInfo.
         case cert of
           OtherCert \<Rightarrow> Inl NotRSA
         | RSACert pub \<Rightarrow>
             ensure BadSignature (sl_rsa_verify S pub (sl_sha256 S canonicalSignedInfo) sigBytes) (Inr ())
        ))))))))))))))))"

record VerifiedAssertion =
  vaDoc :: xmldoc
  vaAssertion :: "nat \<times> nat"
  vaResponse :: "nat \<times> nat"

definition verify_if_signed ::
    "samllib \<Rightarrow> xmldoc \<Rightarrow> (nat \<times> string) list \<Rightarrow> nat \<times> nat \<Rightarrow> (nat \<times> nat) option \<Rightarrow> certificate
     \<Rightarrow> saml_error + 'a \<Rightarrow> saml_error + 'a" where
  "verify_if_signed S doc raw parent sig cert k =
     (case sig of
        None \<Rightarrow> k
      | Some sg \<Rightarrow> andthen (verifyEnvelopedSignature S doc raw parent sg cert) (\<lambda>_. k))"

text \<open>The checks on the parsed document, and the whole with the two scans of its text.\<close>

definition verify_document ::
    "samllib \<Rightarrow> xmldoc \<Rightarrow> (nat \<times> string) list \<Rightarrow> certificate \<Rightarrow> saml_error + VerifiedAssertion" where
  "verify_document S doc raw cert =
     require EmptyDocument (rootRange doc) (\<lambda>root.
     ensure NotAResponse (snd (se_name doc (fst root)) = ''Response'' \<and> fst (se_name doc (fst root)) = sampNS)
       (case findAllDescendants doc (fst root) (snd root) samlNS ''Assertion'' of
          [a] \<Rightarrow>
            (let respSig = findDirectChild doc root dsNS ''Signature'';
                 assertSig = findDirectChild doc a dsNS ''Signature''
             in if respSig = None \<and> assertSig = None then Inl NotSigned
                else verify_if_signed S doc raw root respSig cert
                      (verify_if_signed S doc raw a assertSig cert
                        (Inr \<lparr>vaDoc = doc, vaAssertion = a, vaResponse = root\<rparr>)))
        | as \<Rightarrow> Inl (AssertionCount (length as))))"

definition VerifySAMLResponseSignature ::
    "samllib \<Rightarrow> string \<Rightarrow> certificate \<Rightarrow> saml_error + VerifiedAssertion" where
  "VerifySAMLResponseSignature S rawXML cert =
     require XMLError (parseXMLDoc (sl_xml S) rawXML) (\<lambda>doc.
     require XMLError (captureRawTags (sl_xml S) rawXML) (\<lambda>raw. verify_document S doc raw cert))"

section \<open>Validation (response.go)\<close>

record Assertion =
  aAssertionID :: string
  aNameID :: string
  aNameIDFormat :: string
  aIssuer :: string
  aInResponseTo :: string
  aAttributes :: "(string \<times> string list) list"
  aNotBefore :: "instant option"
  aNotOnOrAfter :: instant

definition parseSAMLTime :: "samllib \<Rightarrow> string \<Rightarrow> instant option" where
  "parseSAMLTime S s =
     (let s = TrimSpace s
      in case sl_time_parse S ''2006-01-02T15:04:05Z07:00'' s of
           Some t \<Rightarrow> Some t
         | None \<Rightarrow> sl_time_parse S ''2006-01-02T15:04:05Z'' s)"

definition findSubjectConfirmationData :: "xmldoc \<Rightarrow> nat \<times> nat \<Rightarrow> (nat \<times> nat) option" where
  "findSubjectConfirmationData doc sub =
     (case findDirectChild doc sub samlNS ''SubjectConfirmation'' of
        None \<Rightarrow> None
      | Some sc \<Rightarrow> findDirectChild doc sc samlNS ''SubjectConfirmationData'')"

definition text_of :: "xmldoc \<Rightarrow> nat \<times> nat \<Rightarrow> string" where
  "text_of doc rng = TrimSpace (elementText doc rng)"

definition checkAudience :: "xmldoc \<Rightarrow> nat \<times> nat \<Rightarrow> string \<Rightarrow> saml_error + unit" where
  "checkAudience doc cond spEntityID =
     require (Missing ''AudienceRestriction'') (findDirectChild doc cond samlNS ''AudienceRestriction'') (\<lambda>ar.
     ensure WrongAudience
       (list_ex (\<lambda>aud. text_of doc aud = spEntityID) (findAllDescendants doc (fst ar) (snd ar) samlNS ''Audience''))
       (Inr ()))"

text \<open>\<open>a.Attributes[name] = append(a.Attributes[name], values...)\<close>\<close>

definition append_values :: "(string \<times> string list) list \<Rightarrow> string \<times> string list \<Rightarrow> (string \<times> string list) list" where
  "append_values m nv =
     (if fst nv = [] then m
      else put m (fst nv) ((case map_of m (fst nv) of None \<Rightarrow> [] | Some vs \<Rightarrow> vs) @ snd nv))"

definition attribute_of :: "xmldoc \<Rightarrow> nat \<times> nat \<Rightarrow> string \<times> string list" where
  "attribute_of doc rng =
     (let attrs = se_attrs doc (fst rng); name = attr_or_empty attrs ''Name'';
          name = (if name = [] then attr_or_empty attrs ''FriendlyName'' else name)
      in (name, map (text_of doc) (findAllDescendants doc (fst rng) (snd rng) samlNS ''AttributeValue'')))"

definition read_attributes :: "xmldoc \<Rightarrow> nat \<times> nat \<Rightarrow> (string \<times> string list) list" where
  "read_attributes doc a =
     foldl append_values []
       (concat (map (\<lambda>s. map (attribute_of doc) (findAllDescendants doc (fst s) (snd s) samlNS ''Attribute''))
          (findAllDescendants doc (fst a) (snd a) samlNS ''AttributeStatement'')))"

text \<open>The checks of the two validity windows.\<close>

definition check_confirmation :: "samllib \<Rightarrow> xattr list \<Rightarrow> instant \<Rightarrow> int \<Rightarrow> saml_error + unit" where
  "check_confirmation S scdA now clockSkew =
     (case attr_value scdA ''NotOnOrAfter'' of
        None \<Rightarrow> Inr ()
      | Some noa \<Rightarrow> require (BadTime ''SubjectConfirmationData'') (parseSAMLTime S noa)
          (\<lambda>t. ensure ConfirmationExpired (\<not> now > t + clockSkew) (Inr ())))"

definition check_not_before :: "samllib \<Rightarrow> xattr list \<Rightarrow> instant \<Rightarrow> int \<Rightarrow> saml_error + instant option" where
  "check_not_before S condA now clockSkew =
     (case attr_value condA ''NotBefore'' of
        None \<Rightarrow> Inr None
      | Some nb \<Rightarrow> require (BadTime ''NotBefore'') (parseSAMLTime S nb)
          (\<lambda>t. ensure NotYetValid (\<not> now + clockSkew < t) (Inr (Some t))))"

definition check_not_after :: "samllib \<Rightarrow> xattr list \<Rightarrow> instant \<Rightarrow> int \<Rightarrow> saml_error + instant" where
  "check_not_after S condA now clockSkew =
     require (Missing ''NotOnOrAfter'') (attr_value condA ''NotOnOrAfter'') (\<lambda>noa.
     require (BadTime ''NotOnOrAfter'') (parseSAMLTime S noa) (\<lambda>t.
     ensure AssertionExpired (\<not> now > t + clockSkew) (Inr t)))"

text \<open>The checks of the claims of a verified assertion, and the whole.\<close>

definition validate_assertion ::
    "samllib \<Rightarrow> VerifiedAssertion \<Rightarrow> string \<Rightarrow> string \<Rightarrow> string \<Rightarrow> instant \<Rightarrow> int \<Rightarrow> saml_error + Assertion" where
  "validate_assertion S verified spEntityID acsURL expectedRequestID now clockSkew =
     (let doc = vaDoc verified; a = vaAssertion verified;
           dest = attr_value (se_attrs doc (fst (vaResponse verified))) ''Destination''
       in ensure WrongDestination (dest = None \<or> dest = Some acsURL)
         (require (Missing ''Subject'') (findDirectChild doc a samlNS ''Subject'') (\<lambda>sub.
          let nid = findDirectChild doc sub samlNS ''NameID'';
              nameID = (case nid of None \<Rightarrow> [] | Some n \<Rightarrow> text_of doc n)
          in ensure (Missing ''NameID'') (nameID \<noteq> [])
         (require (Missing ''SubjectConfirmationData'') (findSubjectConfirmationData doc sub) (\<lambda>scd.
          let scdA = se_attrs doc (fst scd); recipient = attr_value scdA ''Recipient'';
              irt = attr_or_empty scdA ''InResponseTo''
          in ensure WrongRecipient (recipient = None \<or> recipient = Some acsURL)
         (andthen (check_confirmation S scdA now clockSkew) (\<lambda>_.
          ensure WrongRequest (expectedRequestID = [] \<or> irt = expectedRequestID)
         (require (Missing ''Conditions'') (findDirectChild doc a samlNS ''Conditions'') (\<lambda>cond.
          andthen (check_not_before S (se_attrs doc (fst cond)) now clockSkew) (\<lambda>notBefore.
          andthen (check_not_after S (se_attrs doc (fst cond)) now clockSkew) (\<lambda>notOnOrAfter.
          andthen (checkAudience doc cond spEntityID) (\<lambda>_.
          Inr \<lparr>aAssertionID = attr_or_empty (se_attrs doc (fst a)) ''ID'', aNameID = nameID,
               aNameIDFormat = (case nid of None \<Rightarrow> [] | Some n \<Rightarrow> attr_or_empty (se_attrs doc (fst n)) ''Format''),
               aIssuer = (case findDirectChild doc a samlNS ''Issuer'' of None \<Rightarrow> [] | Some i \<Rightarrow> text_of doc i),
               aInResponseTo = irt, aAttributes = read_attributes doc a,
               aNotBefore = notBefore, aNotOnOrAfter = notOnOrAfter\<rparr>))))))))))))"

definition ParseAndVerifyResponse ::
    "samllib \<Rightarrow> string \<Rightarrow> certificate \<Rightarrow> string \<Rightarrow> string \<Rightarrow> string \<Rightarrow> instant \<Rightarrow> int \<Rightarrow> saml_error + Assertion" where
  "ParseAndVerifyResponse S rawXML cert spEntityID acsURL expectedRequestID now clockSkew =
     andthen (VerifySAMLResponseSignature S rawXML cert) (\<lambda>verified.
       validate_assertion S verified spEntityID acsURL expectedRequestID now clockSkew)"

end
