(* ===== verification/Login.thy ===== *)
theory Login
  imports Directory
begin

text \<open>
  What the two login flows share: just-in-time provisioning of the user that logs in, the session
  that is issued and its cookie.  Both servers mirror each other (\<open>internal/saml/sp.go\<close>,
  \<open>internal/oidc/handlers.go\<close>); the contract of their \<open>jitProvisionUser\<close> is a locale with one
  interpretation for each.
\<close>

section \<open>Provisioning\<close>

text \<open>
  A provisioning operation for a kind \<open>'c\<close> of identity: the name it logs in with, and the operation on
  the database with the random id, the time and the tenant.
\<close>

locale provisioning =
  fixes provision :: "Store \<Rightarrow> string \<Rightarrow> instant \<Rightarrow> string \<Rightarrow> 'c \<Rightarrow> (store_error + User) \<times> Store"
    and login_name :: "'c \<Rightarrow> string"
  assumes known: "FindUserByUserName st t (login_name c) = Inr u \<Longrightarrow> provision st uuid now t c = (Inr u, st)"
    and unknown: "FindUserByUserName st t (login_name c) = Inl e \<Longrightarrow>
      \<exists>u. uID u = [] \<and> uTenantID u = t \<and> uUserName u = login_name c \<and> uActive u
        \<and> provision st uuid now t c = CreateUser st uuid now u"
begin

lemma cases_of_provision:
  obtains u where "FindUserByUserName st t (login_name c) = Inr u" "provision st uuid now t c = (Inr u, st)"
  | u where "FindUserByUserName st t (login_name c) = Inl ErrNotFound"
      "uID u = []" "uTenantID u = t" "uUserName u = login_name c" "uActive u"
      "provision st uuid now t c = CreateUser st uuid now u"
proof (cases "FindUserByUserName st t (login_name c)")
  case (Inl e)
  then have "e = ErrNotFound" by (auto simp: FindUserByUserName_def split: option.splits)
  with Inl unknown [OF Inl] that(2) show ?thesis by blast
next
  case (Inr u)
  then show ?thesis using known that(1) by blast
qed

text \<open>The user that is returned belongs to the tenant, has the name, and is stored.\<close>

lemma provision_user:
  assumes "provision st uuid now t c = (Inr u, st')"
  shows "uTenantID u = t \<and> uUserName u = login_name c
    \<and> (\<exists>r\<in>set (users st'). ur_id r = uID u \<and> ur_tenant_id r = t \<and> ur_user_name r = login_name c)"
proof (cases rule: cases_of_provision [of st t c uuid now])
  case (1 v)
  then have "v = u" "st' = st" using assms by auto
  then show ?thesis using 1(1)
    by (auto simp: FindUserByUserName_def scanUser_def split: option.splits dest!: find_SomeD)
next
  case (2 v)
  then show ?thesis using assms
    by (auto simp: CreateUser_def Let_def insert_row_def user_row_of_def split: if_splits)
qed

text \<open>Nothing but a row of \<open>users\<close> can appear, and only for a name the tenant did not have.\<close>

lemma provision_frame:
  "\<exists>rows. snd (provision st uuid now t c) = st\<lparr>users := users st @ rows\<rparr>
    \<and> (rows = [] \<or> (\<exists>r. rows = [r] \<and> ur_tenant_id r = t \<and> ur_user_name r = login_name c \<and> ur_active r = 1
        \<and> FindUserByUserName st t (login_name c) = Inl ErrNotFound))"
proof (cases rule: cases_of_provision [of st t c uuid now])
  case (1 v)
  then show ?thesis by (intro exI [of _ "[]"]) simp
next
  case (2 v)
  let ?v = "v\<lparr>uID := uuid, uCreatedAt := now, uUpdatedAt := now, uVersion := 1\<rparr>"
  show ?thesis
  proof (cases "list_ex (user_clash (user_row_of ?v)) (users st)")
    case True
    then show ?thesis using 2 by (intro exI [of _ "[]"]) (simp add: CreateUser_def Let_def insert_row_def)
  next
    case False
    then show ?thesis using 2
      by (intro exI [of _ "[user_row_of ?v]"])
         (simp add: CreateUser_def Let_def insert_row_def user_row_of_def boolInt_def)
  qed
qed

lemma provision_inv: "store_inv st \<Longrightarrow> store_inv (snd (provision st uuid now t c))"
  by (cases rule: cases_of_provision [of st t c uuid now]) (auto intro: CreateUser_inv)

text \<open>A second login of the same identity finds the user of the first one.\<close>

lemma provision_again:
  assumes "provision st uuid now t c = (Inr u, st')"
  shows "\<exists>u'. provision st' uuid' now' t c = (Inr u', st') \<and> uID u' = uID u"
proof (cases rule: cases_of_provision [of st t c uuid now])
  case (1 v)
  then show ?thesis using assms known by auto
next
  case (2 v)
  let ?v = "v\<lparr>uID := uuid, uCreatedAt := now, uUpdatedAt := now, uVersion := 1\<rparr>"
  have u: "u = ?v" and st': "st' = st\<lparr>users := users st @ [user_row_of ?v]\<rparr>"
    using 2 assms by (auto simp: CreateUser_def Let_def insert_row_def split: if_splits)
  have "find (\<lambda>r. ur_tenant_id r = t \<and> ur_user_name r = login_name c) (users st) = None"
    using 2(1) by (auto simp: FindUserByUserName_def split: option.splits)
  then have "FindUserByUserName st' t (login_name c) = Inr (scanUser (user_row_of ?v))"
    using 2 st' by (simp add: FindUserByUserName_def find_append user_row_of_def)
  then show ?thesis using known u by (auto simp: scanUser_def user_row_of_def)
qed

end

section \<open>Sessions\<close>

record Cookie =
  ckValue :: string
  ckSecure :: bool
  ckExpires :: instant

text \<open>A session row as a login leaves it.\<close>

lemma CreateSession_Inr:
  assumes "CreateSession st rnd now sess ttl = (Inr sess', st')"
  shows "sess' = sess\<lparr>sID := the rnd, sCreatedAt := now, sExpiresAt := now + ttl\<rparr> \<and> rnd \<noteq> None
    \<and> st' = st\<lparr>sessions := sessions st @ [sess'\<lparr>sAttributes := json_attrs (sAttributes sess')\<rparr>]\<rparr>
    \<and> (\<forall>s\<in>set (sessions st). sID s \<noteq> sID sess')"
  using assms by (auto simp: CreateSession_def Let_def insert_row_def list_ex_iff split: option.splits if_splits)

lemma CreateSession_then_GetSession:
  assumes "CreateSession st rnd now sess ttl = (Inr sess', st')" and "now' \<le> now + ttl"
  shows "GetSession st' now' (sID sess') = (Inr (sess'\<lparr>sAttributes := json_attrs (sAttributes sess')\<rparr>), st')"
proof -
  note c = CreateSession_Inr [OF assms(1)]
  then have "find (\<lambda>s. sID s = sID sess') (sessions st) = None" by (auto simp: find_None_iff_ball)
  then show ?thesis using c assms(2) by (auto simp: GetSession_def find_append)
qed

end
