(* ===== verification/SamlSp.thy ===== *)
theory SamlSp
  imports XmlDsig Login
begin

text \<open>
  The SAML service provider, \<open>internal/saml/sp.go\<close>, with the IdP metadata (\<open>metadata.go\<close>) and the
  request side (\<open>request.go\<close>).  The key files (\<open>keys.go\<close>), DEFLATE, RSA signing, reading a file and
  the request ids are parameters.  Handlers return what they answer and the new state of the
  database and of the server's caches.
\<close>

section \<open>IdP metadata (metadata.go)\<close>

definition mdNS :: string where
  "mdNS = ''urn:oasis:names:tc:SAML:2.0:metadata''"

record IdPMetadata =
  idpEntityID :: string
  idpSSORedirectURL :: string
  idpSSOPostURL :: string
  idpSigningCertificates :: "certificate list"

datatype metadata_error = MetadataXML | MetadataRoot | NoEntityID | NoIDPSSODescriptor | NoBinding | NoCertificate

definition sso_step :: "xmldoc \<Rightarrow> string \<times> string \<Rightarrow> nat \<times> nat \<Rightarrow> string \<times> string" where
  "sso_step doc urls rng =
     (let attrs = se_attrs doc (fst rng); binding = attr_or_empty attrs ''Binding''; loc = attr_or_empty attrs ''Location''
      in if binding = ''urn:oasis:names:tc:SAML:2.0:bindings:HTTP-Redirect'' then (loc, snd urls)
         else if binding = ''urn:oasis:names:tc:SAML:2.0:bindings:HTTP-POST'' then (fst urls, loc)
         else urls)"

definition signing_certs :: "samllib \<Rightarrow> xmldoc \<Rightarrow> nat \<times> nat \<Rightarrow> certificate list" where
  "signing_certs S doc kd =
     (let use = attr_value (se_attrs doc (fst kd)) ''use''
      in if use \<noteq> None \<and> use \<noteq> Some ''signing'' then []
         else concat (map (\<lambda>c. case std_decode (strip_spaces (elementText doc c)) of
                                 None \<Rightarrow> []
                               | Some der \<Rightarrow> (case sl_parse_cert S der of None \<Rightarrow> [] | Some cert \<Rightarrow> [cert]))
                (findAllDescendants doc (fst kd) (snd kd) dsNS ''X509Certificate'')))"

definition ParseIdPMetadata :: "samllib \<Rightarrow> string \<Rightarrow> metadata_error + IdPMetadata" where
  "ParseIdPMetadata S data =
     require MetadataXML (parseXMLDoc (sl_xml S) data) (\<lambda>doc.
     require MetadataXML (rootRange doc) (\<lambda>root.
     ensure MetadataRoot (snd (se_name doc (fst root)) = ''EntityDescriptor'' \<and> fst (se_name doc (fst root)) = mdNS)
       (let entityID = attr_or_empty (se_attrs doc (fst root)) ''entityID''
        in ensure NoEntityID (entityID \<noteq> [])
          (require NoIDPSSODescriptor (findDirectChild doc root mdNS ''IDPSSODescriptor'') (\<lambda>idp.
           let urls = foldl (sso_step doc) ([], []) (findAllDescendants doc (fst idp) (snd idp) mdNS ''SingleSignOnService'');
               certs = concat (map (signing_certs S doc) (findAllDescendants doc (fst idp) (snd idp) mdNS ''KeyDescriptor''))
           in ensure NoBinding (fst urls \<noteq> [] \<or> snd urls \<noteq> [])
             (ensure NoCertificate (certs \<noteq> [])
               (Inr \<lparr>idpEntityID = entityID, idpSSORedirectURL = fst urls, idpSSOPostURL = snd urls,
                     idpSigningCertificates = certs\<rparr>)))))))"

section \<open>Requests (request.go)\<close>

record SP =
  spEntityID :: string
  spACSURL :: string
  spPrivateKey :: string
  spCertDER :: string

record splib =
  pl_deflate :: "string \<Rightarrow> string option"
  pl_inflate :: "string \<Rightarrow> string option"
  pl_rsa_sign :: "string \<Rightarrow> string \<Rightarrow> string option"
    \<comment> \<open>\<open>rsa.SignPKCS1v15\<close> with SHA-256: key, digest\<close>
  pl_fmt_utc :: "instant \<Rightarrow> string"
    \<comment> \<open>\<open>Time.UTC().Format("2006-01-02T15:04:05Z")\<close>\<close>
  pl_key_pair :: "string \<Rightarrow> string \<Rightarrow> string \<Rightarrow> (string \<times> string) option"
    \<comment> \<open>\<open>LoadOrCreateSPKeyPair\<close>: key path, certificate path, entity id\<close>
  pl_read_file :: "string \<Rightarrow> string option"

definition quoted :: "string \<Rightarrow> string" where
  "quoted s = [CHR 0x22] @ s @ [CHR 0x22]"

definition NewAuthnRequestID :: "string \<Rightarrow> string" where
  "NewAuthnRequestID uuid = CHR ''_'' # filter (\<lambda>c. c \<noteq> CHR ''-'') uuid"

definition buildAuthnRequestXML :: "splib \<Rightarrow> string \<Rightarrow> string \<Rightarrow> string \<Rightarrow> string \<Rightarrow> instant \<Rightarrow> string" where
  "buildAuthnRequestXML P rid entityID acsURL destination issueInstant =
     ''<samlp:AuthnRequest xmlns:samlp='' @ quoted sampNS @ '' xmlns:saml='' @ quoted samlNS @ '' ID='' @ quoted rid
     @ '' Version='' @ quoted ''2.0'' @ '' IssueInstant='' @ quoted (pl_fmt_utc P issueInstant)
     @ '' Destination='' @ quoted (escapeAttr destination)
     @ '' AssertionConsumerServiceURL='' @ quoted (escapeAttr acsURL)
     @ '' ProtocolBinding='' @ quoted ''urn:oasis:names:tc:SAML:2.0:bindings:HTTP-POST'' @ ''>''
     @ ''<saml:Issuer>'' @ escapeText entityID @ ''</saml:Issuer>''
     @ ''<samlp:NameIDPolicy Format='' @ quoted ''urn:oasis:names:tc:SAML:1.1:nameid-format:emailAddress''
     @ '' AllowCreate='' @ quoted ''true'' @ ''></samlp:NameIDPolicy>''
     @ ''</samlp:AuthnRequest>''"

datatype request_error = NoRedirectBinding | DeflateFailed | SignFailed

definition rsa_sha256_uri :: string where
  "rsa_sha256_uri = ''http://www.w3.org/2001/04/xmldsig-more#rsa-sha256''"

definition BuildRedirectURL ::
    "samllib \<Rightarrow> splib \<Rightarrow> SP \<Rightarrow> IdPMetadata \<Rightarrow> string \<Rightarrow> string \<Rightarrow> instant \<Rightarrow> request_error + string \<times> string" where
  "BuildRedirectURL S P sp idp relayState uuid now =
     ensure NoRedirectBinding (idpSSORedirectURL idp \<noteq> [])
       (let requestID = NewAuthnRequestID uuid;
            reqXML = buildAuthnRequestXML P requestID (spEntityID sp) (spACSURL sp) (idpSSORedirectURL idp) now
        in require DeflateFailed (pl_deflate P reqXML) (\<lambda>deflated.
           let qs = ''SAMLRequest='' @ QueryEscape (std_encode deflated);
               qs = (if relayState \<noteq> [] then qs @ ''&RelayState='' @ QueryEscape relayState else qs);
               qs = qs @ ''&SigAlg='' @ QueryEscape rsa_sha256_uri
           in require SignFailed (pl_rsa_sign P (spPrivateKey sp) (sl_sha256 S qs)) (\<lambda>sigBytes.
              Inr (idpSSORedirectURL idp @ ''?'' @ qs @ ''&Signature='' @ QueryEscape (std_encode sigBytes), requestID))))"

text \<open>
  \<open>VerifyRedirectSignature\<close> on the parsed query; the value of a parameter that is absent is empty.
\<close>

definition VerifyRedirectSignature :: "samllib \<Rightarrow> (string \<Rightarrow> string) option \<Rightarrow> certificate \<Rightarrow> bool" where
  "VerifyRedirectSignature S values cert =
     (case values of
        None \<Rightarrow> False
      | Some get \<Rightarrow>
          if get ''Signature'' = [] \<or> get ''SigAlg'' = [] \<or> \<not> sigAlgByURI (get ''SigAlg'') then False
          else let parts = map (\<lambda>k. k @ ''='' @ QueryEscape (get k))
                     (filter (\<lambda>k. get k \<noteq> []) [''SAMLRequest'', ''SAMLResponse'', ''RelayState'', ''SigAlg''])
               in (case (std_decode (get ''Signature''), cert) of
                     (Some sigBytes, RSACert pub) \<Rightarrow> sl_rsa_verify S pub (sl_sha256 S (Join parts ''&'')) sigBytes
                   | _ \<Rightarrow> False))"

definition InflateAndDecodeSAMLMessage :: "splib \<Rightarrow> string \<Rightarrow> string option" where
  "InflateAndDecodeSAMLMessage P b64 = (case std_decode b64 of None \<Rightarrow> None | Some c \<Rightarrow> pl_inflate P c)"

definition SPMetadataXML :: "SP \<Rightarrow> string" where
  "SPMetadataXML sp =
     ''<md:EntityDescriptor xmlns:md='' @ quoted mdNS @ '' xmlns:ds='' @ quoted dsNS
     @ '' entityID='' @ quoted (escapeAttr (spEntityID sp)) @ ''>''
     @ ''<md:SPSSODescriptor AuthnRequestsSigned='' @ quoted ''true'' @ '' WantAssertionsSigned='' @ quoted ''true''
     @ '' protocolSupportEnumeration='' @ quoted ''urn:oasis:names:tc:SAML:2.0:protocol'' @ ''>''
     @ ''<md:KeyDescriptor use='' @ quoted ''signing'' @ ''><ds:KeyInfo><ds:X509Data><ds:X509Certificate>''
     @ std_encode (spCertDER sp)
     @ ''</ds:X509Certificate></ds:X509Data></ds:KeyInfo></md:KeyDescriptor>''
     @ ''<md:AssertionConsumerService Binding='' @ quoted ''urn:oasis:names:tc:SAML:2.0:bindings:HTTP-POST''
     @ '' Location='' @ quoted (escapeAttr (spACSURL sp)) @ '' index='' @ quoted ''0'' @ '' isDefault='' @ quoted ''true''
     @ ''></md:AssertionConsumerService>''
     @ ''</md:SPSSODescriptor></md:EntityDescriptor>''"

section \<open>The server (sp.go)\<close>

record saml_server =
  ssTenants :: "(string \<times> Tenant) list"
  ssKeyDir :: string
  ssPublicBaseURL :: "(string \<Rightarrow> string) option"
  ssSPs :: "(string \<times> SP) list"
  ssIdPCache :: "(string \<times> IdPMetadata) list"

definition saml_base :: "saml_server \<Rightarrow> string \<Rightarrow> string" where
  "saml_base s tenantID = (case ssPublicBaseURL s of Some f \<Rightarrow> f tenantID | None \<Rightarrow> ''http://localhost:8443'')"

definition spFor :: "splib \<Rightarrow> saml_server \<Rightarrow> string \<Rightarrow> SP option \<times> saml_server" where
  "spFor P s tenantID =
     (case map_of (ssSPs s) tenantID of
        Some sp \<Rightarrow> (Some sp, s)
      | None \<Rightarrow>
          let entityID = saml_base s tenantID @ ''/saml/'' @ tenantID @ ''/metadata''
          in case pl_key_pair P (ssKeyDir s @ ''/'' @ tenantID @ ''.key.pem'') (ssKeyDir s @ ''/'' @ tenantID @ ''.cert.pem'') entityID of
               None \<Rightarrow> (None, s)
             | Some (priv, der) \<Rightarrow>
                 let sp = \<lparr>spEntityID = entityID, spACSURL = saml_base s tenantID @ ''/saml/'' @ tenantID @ ''/acs'',
                           spPrivateKey = priv, spCertDER = der\<rparr>
                 in (Some sp, s\<lparr>ssSPs := put (ssSPs s) tenantID sp\<rparr>))"

definition idpFor :: "samllib \<Rightarrow> splib \<Rightarrow> saml_server \<Rightarrow> string \<Rightarrow> Tenant \<Rightarrow> IdPMetadata option \<times> saml_server" where
  "idpFor S P s tenantID tenant =
     (case map_of (ssIdPCache s) tenantID of
        Some m \<Rightarrow> (Some m, s)
      | None \<Rightarrow>
          (case pl_read_file P (tSAMLIdPMetadataFile tenant) of
             None \<Rightarrow> (None, s)
           | Some data \<Rightarrow>
               (case ParseIdPMetadata S data of
                  Inl e \<Rightarrow> (None, s)
                | Inr m \<Rightarrow> (Some m, s\<lparr>ssIdPCache := put (ssIdPCache s) tenantID m\<rparr>))))"

definition saml_tenant :: "saml_server \<Rightarrow> string \<Rightarrow> Tenant option" where
  "saml_tenant s tenantID =
     (case map_of (ssTenants s) tenantID of
        None \<Rightarrow> None
      | Some tenant \<Rightarrow> if tSAMLIdPMetadataFile tenant = [] then None else Some tenant)"

datatype saml_reply = Failed nat string | MetadataReply string | RedirectTo string

definition saml_metadata :: "splib \<Rightarrow> saml_server \<Rightarrow> string \<Rightarrow> saml_reply \<times> saml_server" where
  "saml_metadata P s tenantID =
     (case map_of (ssTenants s) tenantID of
        None \<Rightarrow> (Failed 404 ''not found'', s)
      | Some _ \<Rightarrow>
          (case spFor P s tenantID of
             (None, s') \<Rightarrow> (Failed 500 ''key pair'', s')
           | (Some sp, s') \<Rightarrow> (MetadataReply (SPMetadataXML sp), s')))"

definition saml_login ::
    "samllib \<Rightarrow> splib \<Rightarrow> saml_server \<Rightarrow> Store \<Rightarrow> string \<Rightarrow> instant \<Rightarrow> instant \<Rightarrow> string \<Rightarrow> string
     \<Rightarrow> saml_reply \<times> saml_server \<times> Store" where
  "saml_login S P s st uuid now1 now2 tenantID returnTo =
     (case saml_tenant s tenantID of
        None \<Rightarrow> (Failed 404 ''not found'', s, st)
      | Some tenant \<Rightarrow>
          (case spFor P s tenantID of
             (None, s1) \<Rightarrow> (Failed 500 ''key pair'', s1, st)
           | (Some sp, s1) \<Rightarrow>
               (case idpFor S P s1 tenantID tenant of
                  (None, s2) \<Rightarrow> (Failed 502 ''idp metadata unavailable'', s2, st)
                | (Some idp, s2) \<Rightarrow>
                    (case BuildRedirectURL S P sp idp returnTo uuid now1 of
                       Inl e \<Rightarrow> (Failed 500 ''request'', s2, st)
                     | Inr (redirectURL, requestID) \<Rightarrow>
                         (case PutSAMLRequest st now2 requestID tenantID returnTo (minutes 10) of
                            (Inl e, st') \<Rightarrow> (Failed 500 ''store'', s2, st')
                          | (Inr _, st') \<Rightarrow> (RedirectTo redirectURL, s2, st'))))))"

subsection \<open>The assertion consumer service\<close>

definition decodeBase64Lenient :: "string \<Rightarrow> string option" where
  "decodeBase64Lenient s = std_decode (strip_spaces s)"

definition map_value :: "string list \<Rightarrow> any" where
  "map_value v = (case v of [x] \<Rightarrow> AStr x | _ \<Rightarrow> AStrs v)"

definition department_claim :: string where
  "department_claim = ''http://schemas.xmlsoap.org/ws/2005/05/identity/claims/department''"

definition mapAssertionAttributes :: "Assertion \<Rightarrow> attrs" where
  "mapAssertionAttributes a =
     (let out = map (\<lambda>kv. (fst kv, map_value (snd kv))) (aAttributes a)
      in if map_of out ''Department'' \<noteq> None then out
         else (case map_of (aAttributes a) department_claim of
                 Some (d # _) \<Rightarrow> put out ''Department'' (AStr d)
               | _ \<Rightarrow> out))"

text \<open>
  \<open>jitProvisionUser\<close> of \<open>sp.go\<close>: the user whose name is the subject, created if there is none.
\<close>

definition jitProvisionUser ::
    "Store \<Rightarrow> string \<Rightarrow> instant \<Rightarrow> string \<Rightarrow> Assertion \<Rightarrow> attrs \<Rightarrow> (store_error + User) \<times> Store" where
  "jitProvisionUser st uuid now tenantID a attrs =
     (case FindUserByUserName st tenantID (aNameID a) of
        Inr u \<Rightarrow> (Inr u, st)
      | Inl e \<Rightarrow>
          if e \<noteq> ErrNotFound then (Inl e, st)
          else CreateUser st uuid now
                 (blank_user\<lparr>uTenantID := tenantID, uUserName := aNameID a, uEmail := aNameID a,
                    uDepartment := (case map_of attrs ''Department'' of Some (AStr d) \<Rightarrow> d | _ \<Rightarrow> []),
                    uActive := True, uAttributes := []\<rparr>))"

interpretation saml_jit: provisioning
  "\<lambda>st uuid now t ca. jitProvisionUser st uuid now t (fst ca) (snd ca)" "\<lambda>ca. aNameID (fst ca)"
proof (unfold_locales, goal_cases)
  case (1 st t c u uuid now)
  then show ?case by (simp add: jitProvisionUser_def)
next
  case (2 st t c e uuid now)
  then have "e = ErrNotFound" by (auto simp: FindUserByUserName_def split: option.splits)
  with 2 show ?case
    by (intro exI [of _ "blank_user\<lparr>uTenantID := t, uUserName := aNameID (fst c), uEmail := aNameID (fst c),
          uDepartment := (case map_of (snd c) ''Department'' of Some (AStr d) \<Rightarrow> d | _ \<Rightarrow> []),
          uActive := True, uAttributes := []\<rparr>"])
       (simp add: jitProvisionUser_def blank_user_def)
qed

datatype acs_result = AcsFailed nat string | AcsLoggedIn Session Cookie string

text \<open>The readings of the clock and the random values one call uses.\<close>

record acs_inputs =
  inTenant :: string
  inForm :: "string option"
    \<comment> \<open>the form value \<open>SAMLResponse\<close>, \<open>None\<close> when the form does not parse\<close>
  inVerify :: "nat \<Rightarrow> instant"
    \<comment> \<open>read once for each certificate that is tried\<close>
  inMark :: instant
  inTake :: instant
  inUser :: instant
  inSession :: instant
  inUUID :: string
  inRandom :: "string option"

fun try_certs :: "samllib \<Rightarrow> string \<Rightarrow> SP \<Rightarrow> (nat \<Rightarrow> instant) \<Rightarrow> nat \<Rightarrow> certificate list \<Rightarrow> Assertion option" where
  "try_certs S rawXML sp clock k [] = None"
| "try_certs S rawXML sp clock k (cert # certs) =
     (case ParseAndVerifyResponse S rawXML cert (spEntityID sp) (spACSURL sp) [] (clock k) (minutes 2) of
        Inr a \<Rightarrow> Some a
      | Inl _ \<Rightarrow> try_certs S rawXML sp clock (Suc k) certs)"

definition zero_time :: instant where
  "zero_time = seconds (- 62135596800)"

definition acs_session ::
    "saml_server \<Rightarrow> Store \<Rightarrow> acs_inputs \<Rightarrow> Assertion \<Rightarrow> string \<Rightarrow> acs_result \<times> Store" where
  "acs_session s st c a relayState =
     (let tenantID = inTenant c; attrs = mapAssertionAttributes a
      in case jitProvisionUser st (inUUID c) (inUser c) tenantID a attrs of
           (Inl e, st1) \<Rightarrow> (AcsFailed 500 ''store'', st1)
         | (Inr user, st1) \<Rightarrow>
             let attrs = put attrs ''Groups'' (AStrs (GroupsForUser st1 tenantID (uID user)));
                 sess = \<lparr>sID = [], sTenantID = tenantID, sUserID = uID user, sSubject = aNameID a,
                         sAttributes = attrs, sAuthMethod = ''saml'', sCreatedAt = 0, sExpiresAt = 0\<rparr>
             in (case CreateSession st1 (inRandom c) (inSession c) sess (hours 8) of
                   (Inl e, st2) \<Rightarrow> (AcsFailed 500 ''store'', st2)
                 | (Inr sess', st2) \<Rightarrow>
                     (AcsLoggedIn sess' \<lparr>ckValue = sID sess', ckSecure = HasPrefix (saml_base s tenantID) ''https://'',
                                         ckExpires = sExpiresAt sess'\<rparr> relayState, st2)))"

definition acs_accept :: "saml_server \<Rightarrow> Store \<Rightarrow> acs_inputs \<Rightarrow> Assertion \<Rightarrow> acs_result \<times> Store" where
  "acs_accept s st c a =
     (if aAssertionID a = [] then (AcsFailed 403 ''SAML assertion missing ID'', st)
      else
        let expiresAt = (if aNotOnOrAfter a = zero_time then inMark c + hours 24 else aNotOnOrAfter a)
        in case MarkAssertionUsed st (inMark c) (inTenant c) (aAssertionID a) expiresAt of
             (True, st1) \<Rightarrow> (AcsFailed 403 ''this SAML assertion has already been used'', st1)
           | (False, st1) \<Rightarrow>
               (case TakeSAMLRequest st1 (inTake c) (aInResponseTo a) (inTenant c) of
                  (taken, st2) \<Rightarrow>
                    if aInResponseTo a \<noteq> [] \<and> taken = None
                    then (AcsFailed 403 ''AuthnRequest not found, expired, or already used'', st2)
                    else acs_session s st2 c a (case taken of None \<Rightarrow> [] | Some rs \<Rightarrow> rs)))"

definition acs :: "samllib \<Rightarrow> splib \<Rightarrow> saml_server \<Rightarrow> Store \<Rightarrow> acs_inputs \<Rightarrow> acs_result \<times> saml_server \<times> Store" where
  "acs S P s st c =
     (case saml_tenant s (inTenant c) of
        None \<Rightarrow> (AcsFailed 404 ''not found'', s, st)
      | Some tenant \<Rightarrow>
          (case spFor P s (inTenant c) of
             (None, s1) \<Rightarrow> (AcsFailed 500 ''key pair'', s1, st)
           | (Some sp, s1) \<Rightarrow>
               (case idpFor S P s1 (inTenant c) tenant of
                  (None, s2) \<Rightarrow> (AcsFailed 502 ''idp metadata unavailable'', s2, st)
                | (Some idp, s2) \<Rightarrow>
                    (case inForm c of
                       None \<Rightarrow> (AcsFailed 400 ''bad form'', s2, st)
                     | Some b64 \<Rightarrow>
                         if b64 = [] then (AcsFailed 400 ''missing SAMLResponse'', s2, st)
                         else
                           (case decodeBase64Lenient b64 of
                              None \<Rightarrow> (AcsFailed 400 ''invalid SAMLResponse encoding'', s2, st)
                            | Some rawXML \<Rightarrow>
                                (case try_certs S rawXML sp (inVerify c) 0 (idpSigningCertificates idp) of
                                   None \<Rightarrow> (AcsFailed 403 ''SAML response verification failed'', s2, st)
                                 | Some a \<Rightarrow> (case acs_accept s2 st c a of (res, st') \<Rightarrow> (res, s2, st'))))))))"

end
