(* ===== verification/SamlLaws.thy ===== *)
theory SamlLaws
  imports SamlSp
begin

text \<open>
  What a login through SAML guarantees: the checks behind an accepted assertion, the single use of
  assertions and requests over sequences of calls, and where these guarantees end.
\<close>

section \<open>Accepted responses\<close>

text \<open>A signature that was verified over an element, in the terms of the document.\<close>

definition signed_by :: "samllib \<Rightarrow> xmldoc \<Rightarrow> (nat \<times> string) list \<Rightarrow> nat \<times> nat \<Rightarrow> nat \<times> nat \<Rightarrow> certificate \<Rightarrow> bool" where
  "signed_by S doc raw parent sig cert \<longleftrightarrow>
     (\<exists>pub si ref target canonSI sigBytes dv sv.
        cert = RSACert pub
        \<and> findDirectChild doc parent dsNS ''Signature'' = Some sig
        \<and> findDirectChild doc sig dsNS ''SignedInfo'' = Some si
        \<and> findDirectChild doc si dsNS ''Reference'' = Some ref
        \<and> findDirectChild doc ref dsNS ''DigestValue'' = Some dv
        \<and> attr_or_empty (se_attrs doc (fst parent)) ''ID'' \<noteq> []
        \<and> TrimPrefix (attr_or_empty (se_attrs doc (fst ref)) ''URI'') ''#'' = attr_or_empty (se_attrs doc (fst parent)) ''ID''
        \<and> canonicalize doc raw parent [fst sig] = Some target
        \<and> std_decode (TrimSpace (elementText doc dv)) = Some (sl_sha256 S target)
        \<and> canonicalize doc raw si [] = Some canonSI
        \<and> findDirectChild doc sig dsNS ''SignatureValue'' = Some sv
        \<and> std_decode (TrimSpace (elementText doc sv)) = Some sigBytes
        \<and> sl_rsa_verify S pub (sl_sha256 S canonSI) sigBytes)"

lemma verifyEnvelopedSignature_signed:
  assumes "verifyEnvelopedSignature S doc raw parent sig cert = Inr ()"
    and "findDirectChild doc parent dsNS ''Signature'' = Some sig"
  shows "signed_by S doc raw parent sig cert"
proof (cases cert)
  case (RSACert pub)
  then show ?thesis
    using assms by (simp add: verifyEnvelopedSignature_def signed_by_def Let_def digest.same_iff) blast
next
  case OtherCert
  then show ?thesis using assms(1) by (auto simp: verifyEnvelopedSignature_def Let_def)
qed

lemma verify_if_signed_Inr [simp]:
  "verify_if_signed S doc raw parent sg cert k = Inr x \<longleftrightarrow>
     k = Inr x \<and> (\<forall>sig. sg = Some sig \<longrightarrow> verifyEnvelopedSignature S doc raw parent sig cert = Inr ())"
  by (auto simp: verify_if_signed_def split: option.splits)

lemma VerifySAML_Inr:
  assumes "VerifySAMLResponseSignature S rawXML cert = Inr v"
  shows "parseXMLDoc (sl_xml S) rawXML = Some (vaDoc v)
    \<and> (\<exists>raw. captureRawTags (sl_xml S) rawXML = Some raw
        \<and> rootRange (vaDoc v) = Some (vaResponse v)
        \<and> findAllDescendants (vaDoc v) (fst (vaResponse v)) (snd (vaResponse v)) samlNS ''Assertion'' = [vaAssertion v]
        \<and> (\<exists>e sig. (e = vaResponse v \<or> e = vaAssertion v) \<and> signed_by S (vaDoc v) raw e sig cert))"
proof -
  obtain doc raw root where d: "parseXMLDoc (sl_xml S) rawXML = Some doc" "captureRawTags (sl_xml S) rawXML = Some raw"
    "rootRange doc = Some root"
    and k: "(case findAllDescendants doc (fst root) (snd root) samlNS ''Assertion'' of
          [a] \<Rightarrow>
            (let respSig = findDirectChild doc root dsNS ''Signature'';
                 assertSig = findDirectChild doc a dsNS ''Signature''
             in if respSig = None \<and> assertSig = None then Inl NotSigned
                else verify_if_signed S doc raw root respSig cert
                      (verify_if_signed S doc raw a assertSig cert
                        (Inr \<lparr>vaDoc = doc, vaAssertion = a, vaResponse = root\<rparr>)))
        | as \<Rightarrow> Inl (AssertionCount (length as))) = Inr v"
    using assms by (auto simp: VerifySAMLResponseSignature_def verify_document_def)
  obtain a where a: "findAllDescendants doc (fst root) (snd root) samlNS ''Assertion'' = [a]"
    using k by (auto split: list.splits)
  let ?r = "findDirectChild doc root dsNS ''Signature''" and ?a = "findDirectChild doc a dsNS ''Signature''"
  have k': "(if ?r = None \<and> ?a = None then Inl NotSigned
      else verify_if_signed S doc raw root ?r cert
            (verify_if_signed S doc raw a ?a cert (Inr \<lparr>vaDoc = doc, vaAssertion = a, vaResponse = root\<rparr>))) = Inr v"
    using k unfolding a Let_def by simp
  then have some: "?r \<noteq> None \<or> ?a \<noteq> None" by (metis sum.distinct(1))
  with k' have "verify_if_signed S doc raw root ?r cert
      (verify_if_signed S doc raw a ?a cert (Inr \<lparr>vaDoc = doc, vaAssertion = a, vaResponse = root\<rparr>)) = Inr v" by metis
  then have v: "v = \<lparr>vaDoc = doc, vaAssertion = a, vaResponse = root\<rparr>"
    and ver: "\<forall>sig. ?r = Some sig \<longrightarrow> verifyEnvelopedSignature S doc raw root sig cert = Inr ()"
      "\<forall>sig. ?a = Some sig \<longrightarrow> verifyEnvelopedSignature S doc raw a sig cert = Inr ()"
    unfolding verify_if_signed_Inr by blast+
  have "\<exists>e sig. (e = root \<or> e = a) \<and> signed_by S doc raw e sig cert"
  proof (cases ?r)
    case None
    then obtain sig where "?a = Some sig" using some by auto
    then have "signed_by S doc raw a sig cert" using ver(2) by (intro verifyEnvelopedSignature_signed) auto
    then show ?thesis by (intro exI [of _ a] exI [of _ sig]) simp
  next
    case (Some sig)
    then have "signed_by S doc raw root sig cert" using ver(1) by (intro verifyEnvelopedSignature_signed) auto
    then show ?thesis by (intro exI [of _ root] exI [of _ sig]) simp
  qed
  then show ?thesis using d a v by auto
qed

lemma VerifySAML_unique:
  "VerifySAMLResponseSignature S rawXML c1 = Inr v1 \<Longrightarrow> VerifySAMLResponseSignature S rawXML c2 = Inr v2 \<Longrightarrow> v1 = v2"
  by (auto dest!: VerifySAML_Inr)

text \<open>The assertion that is returned depends on the document only.\<close>

definition assertion_of :: "samllib \<Rightarrow> VerifiedAssertion \<Rightarrow> Assertion \<Rightarrow> bool" where
  "assertion_of S v a \<longleftrightarrow>
     (let doc = vaDoc v; as = vaAssertion v
      in \<exists>sub scd cond noa.
        findDirectChild doc as samlNS ''Subject'' = Some sub
        \<and> findSubjectConfirmationData doc sub = Some scd
        \<and> findDirectChild doc as samlNS ''Conditions'' = Some cond
        \<and> aAssertionID a = attr_or_empty (se_attrs doc (fst as)) ''ID''
        \<and> aNameID a = (case findDirectChild doc sub samlNS ''NameID'' of None \<Rightarrow> [] | Some n \<Rightarrow> text_of doc n)
        \<and> aNameIDFormat a = (case findDirectChild doc sub samlNS ''NameID'' of None \<Rightarrow> []
             | Some n \<Rightarrow> attr_or_empty (se_attrs doc (fst n)) ''Format'')
        \<and> aIssuer a = (case findDirectChild doc as samlNS ''Issuer'' of None \<Rightarrow> [] | Some i \<Rightarrow> text_of doc i)
        \<and> aInResponseTo a = attr_or_empty (se_attrs doc (fst scd)) ''InResponseTo''
        \<and> aAttributes a = read_attributes doc as
        \<and> aNotBefore a = Option.bind (attr_value (se_attrs doc (fst cond)) ''NotBefore'') (parseSAMLTime S)
        \<and> attr_value (se_attrs doc (fst cond)) ''NotOnOrAfter'' = Some noa
        \<and> parseSAMLTime S noa = Some (aNotOnOrAfter a))"

definition in_audience :: "xmldoc \<Rightarrow> nat \<times> nat \<Rightarrow> string \<Rightarrow> bool" where
  "in_audience doc as entity \<longleftrightarrow>
     (\<exists>cond ar. findDirectChild doc as samlNS ''Conditions'' = Some cond
        \<and> findDirectChild doc cond samlNS ''AudienceRestriction'' = Some ar
        \<and> (\<exists>aud\<in>set (findAllDescendants doc (fst ar) (snd ar) samlNS ''Audience''). text_of doc aud = entity))"

lemma ParseAndVerify_Inr:
  assumes "ParseAndVerifyResponse S rawXML cert entity acsURL expected now skew = Inr a"
  shows "\<exists>v. VerifySAMLResponseSignature S rawXML cert = Inr v \<and> assertion_of S v a
    \<and> in_audience (vaDoc v) (vaAssertion v) entity \<and> aNameID a \<noteq> []
    \<and> now \<le> aNotOnOrAfter a + skew \<and> (\<forall>nb. aNotBefore a = Some nb \<longrightarrow> nb \<le> now + skew)
    \<and> (expected \<noteq> [] \<longrightarrow> aInResponseTo a = expected)"
proof -
  obtain v where v: "VerifySAMLResponseSignature S rawXML cert = Inr v"
    using assms by (auto simp: ParseAndVerifyResponse_def split: sum.splits)
  let ?d = "vaDoc v" and ?a = "vaAssertion v"
  note b = assms [unfolded ParseAndVerifyResponse_def validate_assertion_def v andthen_def [of "Inr v"] sum.case Let_def
      andthen_Inr require_Inr ensure_Inr sum.inject]
  from b obtain sub scd cond nb t where
    f: "findDirectChild ?d ?a samlNS ''Subject'' = Some sub" "findSubjectConfirmationData ?d sub = Some scd"
      "findDirectChild ?d ?a samlNS ''Conditions'' = Some cond"
    and name: "(case findDirectChild ?d sub samlNS ''NameID'' of None \<Rightarrow> [] | Some n \<Rightarrow> text_of ?d n) \<noteq> []"
    and req: "expected = [] \<or> attr_or_empty (se_attrs ?d (fst scd)) ''InResponseTo'' = expected"
    and nb: "check_not_before S (se_attrs ?d (fst cond)) now skew = Inr nb"
    and t: "check_not_after S (se_attrs ?d (fst cond)) now skew = Inr t"
    and aud: "checkAudience ?d cond entity = Inr ()"
    and a: "\<lparr>aAssertionID = attr_or_empty (se_attrs ?d (fst ?a)) ''ID'',
        aNameID = (case findDirectChild ?d sub samlNS ''NameID'' of None \<Rightarrow> [] | Some n \<Rightarrow> text_of ?d n),
        aNameIDFormat = (case findDirectChild ?d sub samlNS ''NameID'' of None \<Rightarrow> []
          | Some n \<Rightarrow> attr_or_empty (se_attrs ?d (fst n)) ''Format''),
        aIssuer = (case findDirectChild ?d ?a samlNS ''Issuer'' of None \<Rightarrow> [] | Some i \<Rightarrow> text_of ?d i),
        aInResponseTo = attr_or_empty (se_attrs ?d (fst scd)) ''InResponseTo'', aAttributes = read_attributes ?d ?a,
        aNotBefore = nb, aNotOnOrAfter = t\<rparr> = a"
    by (elim exE conjE) (rule that, assumption+, simp)
  have "nb = Option.bind (attr_value (se_attrs ?d (fst cond)) ''NotBefore'') (parseSAMLTime S)
      \<and> (\<forall>x. nb = Some x \<longrightarrow> x \<le> now + skew)"
    using nb by (auto simp: check_not_before_def split: option.splits)
  moreover have "\<exists>noa. attr_value (se_attrs ?d (fst cond)) ''NotOnOrAfter'' = Some noa \<and> parseSAMLTime S noa = Some t
      \<and> now \<le> t + skew"
    using t by (auto simp: check_not_after_def)
  moreover have "in_audience ?d ?a entity"
    using aud f(3) by (auto simp: checkAudience_def in_audience_def list_ex_iff)
  ultimately show ?thesis
    using v f name req
    by (intro exI [of _ v]) (auto simp: a [symmetric] assertion_of_def Let_def simp del: split_paired_Ex)
qed

lemma assertion_of_unique: "assertion_of S v a \<Longrightarrow> assertion_of S v a' \<Longrightarrow> a = a'"
  by (cases a; cases a') (auto simp: assertion_of_def Let_def)

lemma ParseAndVerify_unique:
  assumes "ParseAndVerifyResponse S rawXML c1 e1 u1 r1 n1 k1 = Inr a1"
    and "ParseAndVerifyResponse S rawXML c2 e2 u2 r2 n2 k2 = Inr a2"
  shows "a1 = a2"
  using ParseAndVerify_Inr [OF assms(1)] ParseAndVerify_Inr [OF assms(2)] VerifySAML_unique assertion_of_unique
  by metis

section \<open>The assertion consumer service\<close>

definition saml_entity :: "saml_server \<Rightarrow> string \<Rightarrow> string" where
  "saml_entity s t = saml_base s t @ ''/saml/'' @ t @ ''/metadata''"

text \<open>Every cached service provider is the one of its tenant.\<close>

definition sps_ok :: "saml_server \<Rightarrow> bool" where
  "sps_ok s \<longleftrightarrow> (\<forall>t sp. map_of (ssSPs s) t = Some sp \<longrightarrow>
     spEntityID sp = saml_entity s t \<and> spACSURL sp = saml_base s t @ ''/saml/'' @ t @ ''/acs'')"

lemma spFor_ok:
  assumes "sps_ok s"
  shows "sps_ok (snd (spFor P s t))"
    and "fst (spFor P s t) = Some sp \<Longrightarrow> spEntityID sp = saml_entity s t \<and> spACSURL sp = saml_base s t @ ''/saml/'' @ t @ ''/acs''"
    and "saml_base (snd (spFor P s t)) = saml_base s"
    and "ssTenants (snd (spFor P s t)) = ssTenants s"
  using assms
  by (auto simp: spFor_def sps_ok_def saml_entity_def saml_base_def Let_def map_of_put fun_eq_iff
      split: option.splits if_splits)

lemma idpFor_ok:
  "sps_ok s \<Longrightarrow> sps_ok (snd (idpFor S P s t tenant))"
  "saml_base (snd (idpFor S P s t tenant)) = saml_base s"
  "fst (idpFor S P s t tenant) = Some m \<Longrightarrow> map_of (ssIdPCache (snd (idpFor S P s t tenant))) t = Some m"
  by (auto simp: idpFor_def sps_ok_def saml_entity_def saml_base_def map_of_put fun_eq_iff
      split: option.splits sum.splits if_splits)

lemma try_certs_Some:
  assumes "try_certs S raw sp clock k certs = Some a"
  shows "\<exists>cert\<in>set certs. \<exists>i. ParseAndVerifyResponse S raw cert (spEntityID sp) (spACSURL sp) [] (clock i) (minutes 2) = Inr a"
  using assms by (induction S raw sp clock k certs rule: try_certs.induct) (auto split: sum.splits)

lemma MarkAssertionUsed_False:
  assumes "MarkAssertionUsed st now t a e = (False, st')"
  shows "(\<forall>r\<in>set (used_saml_assertions st). ua_tenant_id r = t \<and> ua_assertion_id r = a \<longrightarrow>
            time_text (ua_expires_at r) < time_text now)
    \<and> (\<exists>rows. st' = st\<lparr>used_saml_assertions := rows\<rparr>) \<and> has_assertion st' t a e"
  using assms accepted_has_assertion [of st now t a e]
  by (auto simp: MarkAssertionUsed_def Let_def insert_row_def list_ex_iff split: option.splits if_splits)

lemma TakeSAMLRequest_frame: "\<exists>rows. snd (TakeSAMLRequest st now r t) = st\<lparr>saml_requests := rows\<rparr>"
proof (cases "find (\<lambda>q. sr_request_id q = r \<and> sr_tenant_id q = t) (saml_requests st)")
  case None
  then show ?thesis by (intro exI [of _ "saml_requests st"]) (simp add: TakeSAMLRequest_def)
next
  case (Some q)
  then show ?thesis by (auto simp: TakeSAMLRequest_def Let_def)
qed

lemma TakeSAMLRequest_Some:
  "fst (TakeSAMLRequest st now r t) = Some relay \<Longrightarrow>
   \<exists>q\<in>set (saml_requests st). sr_request_id q = r \<and> sr_tenant_id q = t \<and> sr_relay_state q = relay \<and> now \<le> sr_expires_at q"
  by (auto simp: TakeSAMLRequest_def Let_def split: option.splits if_splits dest!: find_SomeD)

text \<open>The session of a login, whatever the assertion says.\<close>

lemma acs_session_LoggedIn:
  assumes "acs_session s st c a relay = (AcsLoggedIn sess ck relay', st')"
  shows "relay' = relay \<and> sTenantID sess = inTenant c \<and> sSubject sess = aNameID a \<and> sAuthMethod sess = ''saml''
    \<and> sExpiresAt sess = inSession c + hours 8 \<and> inRandom c = Some (sID sess)
    \<and> ckValue ck = sID sess \<and> ckExpires ck = sExpiresAt sess \<and> (ckSecure ck \<longleftrightarrow> HasPrefix (saml_base s (inTenant c)) ''https://'')
    \<and> (\<forall>r\<in>set (sessions st). sID r \<noteq> sID sess)
    \<and> GetSession st' (inSession c) (sID sess) = (Inr (sess\<lparr>sAttributes := json_attrs (sAttributes sess)\<rparr>), st')
    \<and> (\<exists>u\<in>set (users st'). ur_id u = sUserID sess \<and> ur_tenant_id u = inTenant c \<and> ur_user_name u = aNameID a)
    \<and> used_saml_assertions st' = used_saml_assertions st \<and> saml_requests st' = saml_requests st"
proof -
  let ?attrs = "mapAssertionAttributes a"
  obtain user st1 where j: "jitProvisionUser st (inUUID c) (inUser c) (inTenant c) a ?attrs = (Inr user, st1)"
    using assms by (auto simp: acs_session_def Let_def split: prod.splits sum.splits)
  define ga where "ga = put ?attrs ''Groups'' (AStrs (GroupsForUser st1 (inTenant c) (uID user)))"
  define se where "se = \<lparr>sID = [], sTenantID = inTenant c, sUserID = uID user, sSubject = aNameID a,
      sAttributes = ga, sAuthMethod = ''saml'', sCreatedAt = 0, sExpiresAt = 0\<rparr>"
  have c: "CreateSession st1 (inRandom c) (inSession c) se (hours 8) = (Inr sess, st')" "relay' = relay"
    and ck: "ck = \<lparr>ckValue = sID sess, ckSecure = HasPrefix (saml_base s (inTenant c)) ''https://'', ckExpires = sExpiresAt sess\<rparr>"
    using assms j by (auto simp: acs_session_def Let_def se_def ga_def split: prod.splits sum.splits)
  note cs = CreateSession_Inr [OF c(1)]
  note u = saml_jit.provision_user [of st "inUUID c" "inUser c" "inTenant c" "(a, ?attrs)" user st1]
  obtain rows where st1: "st1 = st\<lparr>users := users st @ rows\<rparr>"
    using saml_jit.provision_frame [of st "inUUID c" "inUser c" "inTenant c" "(a, ?attrs)"] j by auto
  show ?thesis
    using cs u j st1 c(2) CreateSession_then_GetSession [OF c(1), of "inSession c"]
    by (simp add: se_def ck hours_def minutes_def seconds_def) auto
qed


lemma acs_accept_LoggedIn:
  assumes "acs_accept s st c a = (AcsLoggedIn sess ck relay, st')"
  shows "aAssertionID a \<noteq> []
    \<and> (\<forall>r\<in>set (used_saml_assertions st). ua_tenant_id r = inTenant c \<and> ua_assertion_id r = aAssertionID a \<longrightarrow>
          time_text (ua_expires_at r) < time_text (inMark c))
    \<and> has_assertion st' (inTenant c) (aAssertionID a) (if aNotOnOrAfter a = zero_time then inMark c + hours 24 else aNotOnOrAfter a)
    \<and> (aInResponseTo a \<noteq> [] \<longrightarrow> (\<exists>q\<in>set (saml_requests st). sr_request_id q = aInResponseTo a \<and> sr_tenant_id q = inTenant c
          \<and> sr_relay_state q = relay \<and> inTake c \<le> sr_expires_at q))
    \<and> (\<exists>st0 relay0. sessions st0 = sessions st \<and> users st0 = users st \<and> acs_session s st0 c a relay0 = (AcsLoggedIn sess ck relay, st'))"
proof -
  let ?e = "if aNotOnOrAfter a = zero_time then inMark c + hours 24 else aNotOnOrAfter a"
  have id: "aAssertionID a \<noteq> []" using assms by (auto simp: acs_accept_def)
  obtain st1 where m: "MarkAssertionUsed st (inMark c) (inTenant c) (aAssertionID a) ?e = (False, st1)"
    using assms id by (auto simp: acs_accept_def Let_def split: prod.splits bool.splits)
  obtain taken st2 where t: "TakeSAMLRequest st1 (inTake c) (aInResponseTo a) (inTenant c) = (taken, st2)"
    by (cases "TakeSAMLRequest st1 (inTake c) (aInResponseTo a) (inTenant c)")
  let ?r = "case taken of None \<Rightarrow> [] | Some rs \<Rightarrow> rs"
  have ses: "acs_session s st2 c a ?r = (AcsLoggedIn sess ck relay, st')"
    and ok: "aInResponseTo a \<noteq> [] \<Longrightarrow> taken \<noteq> None"
    using assms id m t by (auto simp: acs_accept_def Let_def split: if_splits)
  note mf = MarkAssertionUsed_False [OF m]
  obtain rows where st2: "st2 = st1\<lparr>saml_requests := rows\<rparr>"
    using TakeSAMLRequest_frame [of st1 "inTake c" "aInResponseTo a" "inTenant c"] t by auto
  note sl = acs_session_LoggedIn [OF ses]
  have "has_assertion st' (inTenant c) (aAssertionID a) ?e"
    using mf sl st2 by (auto simp: has_assertion_def)
  moreover have "aInResponseTo a \<noteq> [] \<longrightarrow> (\<exists>q\<in>set (saml_requests st). sr_request_id q = aInResponseTo a
      \<and> sr_tenant_id q = inTenant c \<and> sr_relay_state q = relay \<and> inTake c \<le> sr_expires_at q)"
  proof
    assume "aInResponseTo a \<noteq> []"
    then obtain rs where "taken = Some rs" using ok by auto
    then show "\<exists>q\<in>set (saml_requests st). sr_request_id q = aInResponseTo a
      \<and> sr_tenant_id q = inTenant c \<and> sr_relay_state q = relay \<and> inTake c \<le> sr_expires_at q"
      using TakeSAMLRequest_Some [of st1 "inTake c" "aInResponseTo a" "inTenant c" rs] t sl mf by auto
  qed
  moreover have "sessions st2 = sessions st \<and> users st2 = users st" using st2 mf by auto
  ultimately show ?thesis using id mf ses by blast
qed

lemma acs_LoggedIn:
  assumes "acs S P s st c = (AcsLoggedIn sess ck relay, s', st')"
  obtains tenant sp s1 idp b64 raw a where
    "map_of (ssTenants s) (inTenant c) = Some tenant" "tSAMLIdPMetadataFile tenant \<noteq> []"
    "spFor P s (inTenant c) = (Some sp, s1)" "idpFor S P s1 (inTenant c) tenant = (Some idp, s')"
    "inForm c = Some b64" "decodeBase64Lenient b64 = Some raw"
    "try_certs S raw sp (inVerify c) 0 (idpSigningCertificates idp) = Some a"
    "acs_accept s' st c a = (AcsLoggedIn sess ck relay, st')"
  using assms
  by (auto simp: acs_def saml_tenant_def split: option.splits prod.splits if_splits)

text \<open>
  C1: A SAML login is granted only to a tenant with SAML configured, on a response one of whose
  signatures, over the response or its single assertion, verifies under a certificate of that
  tenant's identity provider; the assertion has this service provider among its audiences, was
  checked inside its validity window widened by two minutes, carries an id with no live record of
  an earlier use and, if it answers a request, a pending request of the same tenant, whose relay state
  the login continues with; and the session that is issued is new, belongs to that tenant, to the
  stored user of that tenant named by the assertion's subject, and ends after eight hours.
\<close>

theorem saml_login_sound:
  assumes "sps_ok s" and "acs S P s st c = (AcsLoggedIn sess ck relay, s', st')"
  shows "\<exists>tenant idp cert b64 raw v a now.
    map_of (ssTenants s) (inTenant c) = Some tenant \<and> tSAMLIdPMetadataFile tenant \<noteq> []
    \<and> map_of (ssIdPCache s') (inTenant c) = Some idp \<and> cert \<in> set (idpSigningCertificates idp)
    \<and> inForm c = Some b64 \<and> decodeBase64Lenient b64 = Some raw \<and> parseXMLDoc (sl_xml S) raw = Some (vaDoc v)
    \<and> findAllDescendants (vaDoc v) (fst (vaResponse v)) (snd (vaResponse v)) samlNS ''Assertion'' = [vaAssertion v]
    \<and> (\<exists>rawTags e sig. (e = vaResponse v \<or> e = vaAssertion v) \<and> signed_by S (vaDoc v) rawTags e sig cert)
    \<and> assertion_of S v a \<and> in_audience (vaDoc v) (vaAssertion v) (saml_entity s (inTenant c))
    \<and> now \<in> range (inVerify c) \<and> now \<le> aNotOnOrAfter a + minutes 2
    \<and> (\<forall>nb. aNotBefore a = Some nb \<longrightarrow> nb \<le> now + minutes 2)
    \<and> aAssertionID a \<noteq> []
    \<and> (\<forall>r\<in>set (used_saml_assertions st). ua_tenant_id r = inTenant c \<and> ua_assertion_id r = aAssertionID a \<longrightarrow>
          time_text (ua_expires_at r) < time_text (inMark c))
    \<and> (aInResponseTo a \<noteq> [] \<longrightarrow> (\<exists>q\<in>set (saml_requests st). sr_request_id q = aInResponseTo a
          \<and> sr_tenant_id q = inTenant c \<and> sr_relay_state q = relay \<and> inTake c \<le> sr_expires_at q))
    \<and> sTenantID sess = inTenant c \<and> sSubject sess = aNameID a \<and> aNameID a \<noteq> [] \<and> sAuthMethod sess = ''saml''
    \<and> sExpiresAt sess = inSession c + hours 8 \<and> ckValue ck = sID sess
    \<and> (\<forall>r\<in>set (sessions st). sID r \<noteq> sID sess)
    \<and> GetSession st' (inSession c) (sID sess) = (Inr (sess\<lparr>sAttributes := json_attrs (sAttributes sess)\<rparr>), st')
    \<and> (\<exists>u\<in>set (users st'). ur_id u = sUserID sess \<and> ur_tenant_id u = inTenant c \<and> ur_user_name u = aNameID a)"
proof -
  obtain tenant sp s1 idp b64 raw a where
    t: "map_of (ssTenants s) (inTenant c) = Some tenant" "tSAMLIdPMetadataFile tenant \<noteq> []"
    and sp: "spFor P s (inTenant c) = (Some sp, s1)" and idp: "idpFor S P s1 (inTenant c) tenant = (Some idp, s')"
    and raw: "inForm c = Some b64" "decodeBase64Lenient b64 = Some raw"
    and certs: "try_certs S raw sp (inVerify c) 0 (idpSigningCertificates idp) = Some a"
    and acc: "acs_accept s' st c a = (AcsLoggedIn sess ck relay, st')"
    by (rule acs_LoggedIn [OF assms(2)])
  obtain cert i where cert: "cert \<in> set (idpSigningCertificates idp)"
    and pv: "ParseAndVerifyResponse S raw cert (spEntityID sp) (spACSURL sp) [] (inVerify c i) (minutes 2) = Inr a"
    using try_certs_Some [OF certs] by blast
  obtain v where v: "VerifySAMLResponseSignature S raw cert = Inr v" "assertion_of S v a"
    "in_audience (vaDoc v) (vaAssertion v) (spEntityID sp)" "aNameID a \<noteq> []" "inVerify c i \<le> aNotOnOrAfter a + minutes 2"
    "\<forall>nb. aNotBefore a = Some nb \<longrightarrow> nb \<le> inVerify c i + minutes 2"
    using ParseAndVerify_Inr [OF pv] by blast
  have entity: "spEntityID sp = saml_entity s (inTenant c)"
    using spFor_ok(2) [OF assms(1), of P "inTenant c" sp] sp by simp
  have cache: "map_of (ssIdPCache s') (inTenant c) = Some idp"
    using idpFor_ok(3) [of S P s1 "inTenant c" tenant idp] idp by simp
  note w = VerifySAML_Inr [OF v(1)]
  have one: "findAllDescendants (vaDoc v) (fst (vaResponse v)) (snd (vaResponse v)) samlNS ''Assertion'' = [vaAssertion v]"
    and doc: "parseXMLDoc (sl_xml S) raw = Some (vaDoc v)"
    using w by blast+
  have sig: "\<exists>rawTags e sig. (e = vaResponse v \<or> e = vaAssertion v) \<and> signed_by S (vaDoc v) rawTags e sig cert"
    using w by blast
  note al = acs_accept_LoggedIn [OF acc]
  then obtain st0 relay0 where s0: "sessions st0 = sessions st" "users st0 = users st"
    "acs_session s' st0 c a relay0 = (AcsLoggedIn sess ck relay, st')" by blast
  note sl = acs_session_LoggedIn [OF s0(3), unfolded s0(1)]
  have r: "inVerify c i \<in> range (inVerify c)" by simp
  show ?thesis
    by (rule exI [of _ tenant], rule exI [of _ idp], rule exI [of _ cert], rule exI [of _ b64], rule exI [of _ raw],
        rule exI [of _ v], rule exI [of _ a], rule exI [of _ "inVerify c i"], intro conjI)
       (use t cache cert raw one doc sig v(2-6) entity r al sl in simp_all)
qed

section \<open>Replay\<close>

text \<open>
  A run of the consumer service: calls of \<open>acs\<close> with their outcomes, interleaved with anything else the
  gateway does, which may change everything but the table of used assertions.
\<close>

inductive acs_trace :: "samllib \<Rightarrow> splib \<Rightarrow> saml_server \<Rightarrow> Store \<Rightarrow> (acs_inputs \<times> acs_result) list \<Rightarrow> bool"
  for S P where
  stop: "acs_trace S P s st []"
| call: "acs S P s st c = (r, s', st') \<Longrightarrow> acs_trace S P s' st' evs \<Longrightarrow> acs_trace S P s st ((c, r) # evs)"
| other: "used_saml_assertions st' = used_saml_assertions st \<Longrightarrow> acs_trace S P s' st' evs \<Longrightarrow> acs_trace S P s st evs"

definition logged_in :: "acs_result \<Rightarrow> bool" where
  "logged_in r = (case r of AcsLoggedIn sess ck relay \<Rightarrow> True | AcsFailed code msg \<Rightarrow> False)"

text \<open>The logins a form value was good for at a tenant.\<close>

definition logins_with :: "string \<Rightarrow> string \<Rightarrow> (acs_inputs \<times> acs_result) list \<Rightarrow> nat" where
  "logins_with t b64 evs = length (filter (\<lambda>(c, r). inTenant c = t \<and> inForm c = Some b64 \<and> logged_in r) evs)"

lemma has_assertion_cong:
  "used_saml_assertions st' = used_saml_assertions st \<Longrightarrow> has_assertion st' t a e = has_assertion st t a e"
  by (simp add: has_assertion_def)

text \<open>A record stays while it has not expired, whatever a call does.\<close>

lemma acs_session_used: "used_saml_assertions (snd (acs_session s st c a relay)) = used_saml_assertions st"
proof -
  let ?at = "mapAssertionAttributes a"
  obtain x st1 where j: "jitProvisionUser st (inUUID c) (inUser c) (inTenant c) a ?at = (x, st1)" by fastforce
  moreover have "used_saml_assertions st1 = used_saml_assertions st"
    using saml_jit.provision_frame [of st "inUUID c" "inUser c" "inTenant c" "(a, ?at)"] j by auto
  ultimately show ?thesis
    by (auto simp: acs_session_def Let_def CreateSession_def split: sum.splits option.splits prod.splits)
qed

lemma acs_accept_keeps:
  assumes "has_assertion st t i e" and "\<not> time_text e < time_text (inMark c)"
  shows "has_assertion (snd (acs_accept s st c a)) t i e"
proof -
  let ?m = "MarkAssertionUsed st (inMark c) (inTenant c) (aAssertionID a)
      (if aNotOnOrAfter a = zero_time then inMark c + hours 24 else aNotOnOrAfter a)"
  let ?t = "TakeSAMLRequest (snd ?m) (inTake c) (aInResponseTo a) (inTenant c)"
  have m: "has_assertion (snd ?m) t i e" by (rule has_assertion_step [OF assms])
  have "used_saml_assertions (snd ?t) = used_saml_assertions (snd ?m)"
    using TakeSAMLRequest_frame [of "snd ?m" "inTake c" "aInResponseTo a" "inTenant c"] by auto
  then have "has_assertion (snd ?t) t i e" using m has_assertion_cong by blast
  moreover have "has_assertion (snd (acs_session s (snd ?t) c a relay)) t i e" if "has_assertion (snd ?t) t i e" for relay
    using that has_assertion_cong [OF acs_session_used] by blast
  ultimately show ?thesis
    using m assms(1) by (auto simp: acs_accept_def Let_def split: prod.splits bool.splits)
qed

lemma acs_keeps:
  assumes "has_assertion st t i e" and "\<not> time_text e < time_text (inMark c)" and "acs S P s st c = (r, s', st')"
  shows "has_assertion st' t i e"
proof -
  have "has_assertion st1 t i e" if "acs_accept s1 st c a = (r1, st1)" for s1 a r1 st1
    using acs_accept_keeps [OF assms(1,2), of s1 a] that by simp
  then show ?thesis
    using assms(1,3) by (auto simp: acs_def split: option.splits prod.splits if_splits)
qed

lemma has_assertion_refuses:
  assumes "has_assertion st (inTenant c) (aAssertionID a) e" and "\<not> time_text e < time_text (inMark c)"
  shows "\<not> logged_in (fst (acs_accept s st c a))"
proof
  assume "logged_in (fst (acs_accept s st c a))"
  then obtain sess ck relay st' where "acs_accept s st c a = (AcsLoggedIn sess ck relay, st')"
    by (cases "acs_accept s st c a") (auto simp: logged_in_def split: acs_result.splits)
  from acs_accept_LoggedIn [OF this] assms show False by (auto simp: has_assertion_def list_ex_iff)
qed

text \<open>The assertion a form value stands for, and its behaviour in one call.\<close>

lemma acs_with_response:
  assumes "decodeBase64Lenient b64 = Some raw" and "ParseAndVerifyResponse S raw cert ent url rid now skew = Inr a"
    and "acs S P s st c = (r, s', st')" and "inForm c = Some b64" and "logged_in r"
  shows "acs_accept s' st c a = (r, st')"
proof -
  obtain sess ck relay where r: "r = AcsLoggedIn sess ck relay"
    using assms(5) by (auto simp: logged_in_def split: acs_result.splits)
  obtain sp b64' raw' a' and idp :: IdPMetadata where "inForm c = Some b64'" "decodeBase64Lenient b64' = Some raw'"
    and t: "try_certs S raw' sp (inVerify c) 0 (idpSigningCertificates idp) = Some a'"
    and acc: "acs_accept s' st c a' = (r, st')"
    unfolding r by (rule acs_LoggedIn [OF assms(3) [unfolded r]]) blast
  then have "raw' = raw" using assms(1,4) by simp
  then have "a' = a" using try_certs_Some [OF t] ParseAndVerify_unique [OF assms(2)] by blast
  then show ?thesis using acc by simp
qed

lemma logins_after_use:
  assumes "acs_trace S P s st evs" and "has_assertion st t (aAssertionID a) e"
    and "\<forall>ev\<in>set evs. \<not> time_text e < time_text (inMark (fst ev))"
    and "decodeBase64Lenient b64 = Some raw" and "ParseAndVerifyResponse S raw cert ent url rid now skew = Inr a"
  shows "logins_with t b64 evs = 0"
  using assms
proof (induction rule: acs_trace.induct)
  case (call s st c r s' st' evs)
  have "has_assertion st' t (aAssertionID a) e"
    using acs_keeps [OF call.prems(1) _ call.hyps(1)] call.prems(2) by simp
  then have "logins_with t b64 evs = 0" using call by simp
  moreover have "\<not> logged_in r" if "inTenant c = t" "inForm c = Some b64"
    using acs_with_response [OF call.prems(3,4) call.hyps(1) that(2)]
      has_assertion_refuses [of st c a e s'] call.prems(1,2) that(1) by force
  ultimately show ?case by (auto simp: logins_with_def)
next
  case (other st' st s' evs s)
  then show ?case using has_assertion_cong [OF other.hyps(1)] by blast
qed (simp add: logins_with_def)

lemma logins_at_most_once:
  assumes "acs_trace S P s st evs"
    and "\<forall>ev\<in>set evs. \<not> time_text (aNotOnOrAfter a) < time_text (inMark (fst ev))"
    and "decodeBase64Lenient b64 = Some raw" and "ParseAndVerifyResponse S raw cert ent url rid now skew = Inr a"
    and "aNotOnOrAfter a \<noteq> zero_time"
  shows "logins_with t b64 evs \<le> 1"
  using assms
proof (induction rule: acs_trace.induct)
  case (call s st c r s' st' evs)
  show ?case
  proof (cases "inTenant c = t \<and> inForm c = Some b64 \<and> logged_in r")
    case True
    then have "acs_accept s' st c a = (r, st')"
      using acs_with_response [OF call.prems(2,3) call.hyps(1)] by blast
    then have "has_assertion st' t (aAssertionID a) (aNotOnOrAfter a)"
      using True acs_accept_LoggedIn [of s' st c a _ _ _ st'] call.prems(4)
      by (cases r) (auto simp: logged_in_def)
    then have "logins_with t b64 evs = 0"
      using logins_after_use [OF call.hyps(2) _ _ call.prems(2,3)] call.prems(1) by auto
    then show ?thesis by (simp add: logins_with_def)
  next
    case False
    then have "logins_with t b64 ((c, r) # evs) = logins_with t b64 evs" by (auto simp: logins_with_def)
    then show ?thesis using call by simp
  qed
qed (auto simp: logins_with_def)

text \<open>
  C9: A SAML response logs in at a tenant at most once: in every run of the consumer service, with
  whatever responses for whatever tenants between, and with everything else the gateway does, as
  long as the calls happen no later than the second its assertion expires (on a whole second).
\<close>

theorem saml_response_single_use:
  assumes "acs_trace S P s st evs" and "decodeBase64Lenient b64 = Some raw"
    and "ParseAndVerifyResponse S raw cert ent url rid now skew = Inr a"
    and "aNotOnOrAfter a mod 1000000000 = 0" and "aNotOnOrAfter a \<noteq> zero_time"
    and "\<forall>ev\<in>set evs. inMark (fst ev) div 1000000000 \<le> aNotOnOrAfter a div 1000000000"
  shows "logins_with t b64 evs \<le> 1"
  using logins_at_most_once [OF assms(1) _ assms(2,3,5)] whole_second_not_purged [OF assms(4)] assms(6) by blast

section \<open>Completeness\<close>

lemma spFor_cached: "fst (spFor P s t) = Some sp \<Longrightarrow> map_of (ssSPs (snd (spFor P s t))) t = Some sp"
  by (auto simp: spFor_def Let_def map_of_put split: option.splits)

lemma spFor_frame:
  "ssTenants (snd (spFor P s t)) = ssTenants s" "ssIdPCache (snd (spFor P s t)) = ssIdPCache s"
  by (auto simp: spFor_def Let_def split: option.splits)

lemma idpFor_frame:
  "ssTenants (snd (idpFor S P s t tenant)) = ssTenants s" "ssSPs (snd (idpFor S P s t tenant)) = ssSPs s"
  by (auto simp: idpFor_def split: option.splits sum.splits)

lemma saml_login_Redirect:
  assumes "saml_login S P s st uuid now1 now2 t returnTo = (RedirectTo url, s1, st1)"
  shows "\<exists>tenant sp idp. saml_tenant s1 t = Some tenant \<and> map_of (ssSPs s1) t = Some sp \<and> map_of (ssIdPCache s1) t = Some idp
    \<and> PutSAMLRequest st now2 (NewAuthnRequestID uuid) t returnTo (minutes 10) = (Inr (), st1)"
proof -
  obtain tenant where t: "saml_tenant s t = Some tenant" using assms by (auto simp: saml_login_def split: option.splits)
  obtain sp s0 where sp: "spFor P s t = (Some sp, s0)"
    using assms t by (cases "spFor P s t") (auto simp: saml_login_def split: option.splits)
  obtain idp s2 where idp: "idpFor S P s0 t tenant = (Some idp, s2)"
    using assms t sp by (cases "idpFor S P s0 t tenant") (auto simp: saml_login_def split: option.splits)
  obtain u rid where b: "BuildRedirectURL S P sp idp returnTo uuid now1 = Inr (u, rid)"
    using assms t sp idp by (cases "BuildRedirectURL S P sp idp returnTo uuid now1") (auto simp: saml_login_def)
  then have rid: "rid = NewAuthnRequestID uuid" by (auto simp: BuildRedirectURL_def Let_def)
  have p: "PutSAMLRequest st now2 rid t returnTo (minutes 10) = (Inr (), st1)" "s1 = s2"
    using assms t sp idp b by (auto simp: saml_login_def split: prod.splits sum.splits)
  have "saml_tenant s2 t = Some tenant"
    using t spFor_frame(1) [of P s t] idpFor_frame(1) [of S P s0 t tenant] sp idp by (simp add: saml_tenant_def)
  then show ?thesis
    using p rid spFor_cached [of P s t sp] idpFor_frame(2) [of S P s0 t tenant] idpFor_ok(3) [of S P s0 t tenant idp] sp idp
    by auto
qed

lemma provision_fresh:
  assumes "\<forall>r\<in>set (users st). ur_id r \<noteq> uuid"
  shows "\<exists>u. fst (jitProvisionUser st uuid now t a attrs) = Inr u"
proof (cases "FindUserByUserName st t (aNameID a)")
  case (Inr u)
  then show ?thesis by (simp add: jitProvisionUser_def)
next
  case (Inl e)
  then have "e = ErrNotFound" "\<forall>r\<in>set (users st). \<not> (ur_tenant_id r = t \<and> ur_user_name r = aNameID a)"
    by (auto simp: FindUserByUserName_def find_None_iff_ball split: option.splits)
  then show ?thesis using Inl assms
    by (auto simp: jitProvisionUser_def CreateUser_def Let_def insert_row_def list_ex_iff user_clash_def user_row_of_def
        blank_user_def)
qed

lemma acs_session_completes:
  assumes "\<forall>r\<in>set (users st). ur_id r \<noteq> inUUID c" and "inRandom c = Some rid" and "\<forall>r\<in>set (sessions st). sID r \<noteq> rid"
  shows "\<exists>sess ck st'. acs_session s st c a relay = (AcsLoggedIn sess ck relay, st') \<and> sSubject sess = aNameID a"
proof -
  let ?j = "jitProvisionUser st (inUUID c) (inUser c) (inTenant c) a (mapAssertionAttributes a)"
  obtain u st1 where j: "?j = (Inr u, st1)"
    using provision_fresh [OF assms(1), of "inUser c" "inTenant c" a "mapAssertionAttributes a"] by (cases ?j) auto
  have "sessions st1 = sessions st"
    using saml_jit.provision_frame [of st "inUUID c" "inUser c" "inTenant c" "(a, mapAssertionAttributes a)"] j by auto
  then show ?thesis using assms(2,3) j
    by (auto simp: acs_session_def Let_def CreateSession_def insert_row_def list_ex_iff)
qed

lemma acs_accept_logs_in:
  assumes "aAssertionID a \<noteq> []"
    and "\<forall>r\<in>set (used_saml_assertions st). ua_tenant_id r = inTenant c \<and> ua_assertion_id r = aAssertionID a \<longrightarrow>
           time_text (ua_expires_at r) < time_text (inMark c)"
    and "case fst (TakeSAMLRequest st (inTake c) (aInResponseTo a) (inTenant c)) of
           Some r \<Rightarrow> r = relay | None \<Rightarrow> aInResponseTo a = [] \<and> relay = []"
    and "\<forall>r\<in>set (users st). ur_id r \<noteq> inUUID c" and "inRandom c = Some rid" and "\<forall>r\<in>set (sessions st). sID r \<noteq> rid"
  shows "\<exists>sess ck st'. acs_accept s st c a = (AcsLoggedIn sess ck relay, st') \<and> sSubject sess = aNameID a"
proof -
  let ?m = "MarkAssertionUsed st (inMark c) (inTenant c) (aAssertionID a)
      (if aNotOnOrAfter a = zero_time then inMark c + hours 24 else aNotOnOrAfter a)"
  have "\<not> fst ?m" using assms(2) by (auto simp: MarkAssertionUsed_def Let_def insert_row_def list_ex_iff)
  then obtain rows where m: "?m = (False, st\<lparr>used_saml_assertions := rows\<rparr>)"
    using MarkAssertionUsed_False [of st "inMark c" "inTenant c" "aAssertionID a" _ "snd ?m"] by (cases ?m) auto
  let ?t = "TakeSAMLRequest (st\<lparr>used_saml_assertions := rows\<rparr>) (inTake c) (aInResponseTo a) (inTenant c)"
  have t: "case fst ?t of Some r \<Rightarrow> r = relay | None \<Rightarrow> aInResponseTo a = [] \<and> relay = []"
    using assms(3) by (auto simp: TakeSAMLRequest_def Let_def split: option.splits)
  obtain rows' where st': "snd ?t = st\<lparr>used_saml_assertions := rows, saml_requests := rows'\<rparr>"
    using TakeSAMLRequest_frame [of "st\<lparr>used_saml_assertions := rows\<rparr>" "inTake c" "aInResponseTo a" "inTenant c"] by auto
  obtain sess ck st2 where "acs_session s (snd ?t) c a relay = (AcsLoggedIn sess ck relay, st2) \<and> sSubject sess = aNameID a"
    using acs_session_completes [of "snd ?t" c rid s a relay] assms(4-6) st' by auto
  then show ?thesis using assms(1) m t by (cases ?t) (auto simp: acs_accept_def split: option.splits)
qed

lemma acs_accept_completes:
  assumes "aAssertionID a \<noteq> []"
    and "\<forall>r\<in>set (used_saml_assertions st). ua_tenant_id r = inTenant c \<and> ua_assertion_id r = aAssertionID a \<longrightarrow>
           time_text (ua_expires_at r) < time_text (inMark c)"
    and "case fst (TakeSAMLRequest st (inTake c) (aInResponseTo a) (inTenant c)) of
           Some r \<Rightarrow> r = relay | None \<Rightarrow> aInResponseTo a = [] \<and> relay = []"
    and "\<forall>r\<in>set (users st). ur_id r \<noteq> inUUID c" and "inRandom c = Some rid" and "\<forall>r\<in>set (sessions st). sID r \<noteq> rid"
  shows "\<exists>sess ck st'. acs_accept s st c a = (AcsLoggedIn sess ck relay, st')"
  using acs_accept_logs_in [OF assms] by blast

lemma verified_response_completes:
  assumes "store_inv st" and "saml_login S P s st uuid now1 now2 t returnTo = (RedirectTo url, s1, st1)"
    and "map_of (ssSPs s1) t = Some sp" and "map_of (ssIdPCache s1) t = Some idp"
    and "inTenant c = t" and "inForm c = Some b64" and "b64 \<noteq> []" and "decodeBase64Lenient b64 = Some raw"
    and "try_certs S raw sp (inVerify c) 0 (idpSigningCertificates idp) = Some a"
    and "aInResponseTo a = NewAuthnRequestID uuid" and "inTake c \<le> now2 + minutes 10" and "aAssertionID a \<noteq> []"
    and "\<forall>r\<in>set (used_saml_assertions st). \<not> (ua_tenant_id r = t \<and> ua_assertion_id r = aAssertionID a)"
    and "\<forall>r\<in>set (users st). ur_id r \<noteq> inUUID c" and "inRandom c = Some rid" and "\<forall>r\<in>set (sessions st). sID r \<noteq> rid"
  shows "\<exists>sess ck st2. acs S P s1 st1 c = (AcsLoggedIn sess ck returnTo, s1, st2) \<and> sSubject sess = aNameID a"
proof -
  obtain tenant where t: "saml_tenant s1 t = Some tenant"
    and p: "PutSAMLRequest st now2 (NewAuthnRequestID uuid) t returnTo (minutes 10) = (Inr (), st1)"
    using saml_login_Redirect [OF assms(2)] by blast
  have f: "used_saml_assertions st1 = used_saml_assertions st" "users st1 = users st" "sessions st1 = sessions st"
    using p by (auto simp: PutSAMLRequest_def split: option.splits)
  have "saml_put st now2 (NewAuthnRequestID uuid, t) returnTo (minutes 10) = (True, st1)"
    using p by (simp add: saml_put_def)
  from saml.put_then_take [OF assms(1) this assms(11)]
  have "fst (TakeSAMLRequest st1 (inTake c) (aInResponseTo a) (inTenant c)) = Some returnTo"
    using assms(5,10) by (simp add: saml_take_def)
  then obtain sess ck st2 where "acs_accept s1 st1 c a = (AcsLoggedIn sess ck returnTo, st2) \<and> sSubject sess = aNameID a"
    using acs_accept_logs_in [of a st1 c returnTo rid s1] assms(5,12-16) f by auto
  then show ?thesis using t assms(3-9) by (auto simp: acs_def spFor_def idpFor_def)
qed

text \<open>
  A login that was started comes to its end: after \<open>/login\<close> has redirected the browser, a response
  that verifies for the tenant and answers that request within ten minutes, with an unused assertion
  id and fresh random values, is answered with a session, and the relay state is the \<open>returnTo\<close> the
  login was started with.
\<close>

theorem saml_login_completes:
  assumes "store_inv st" and "saml_login S P s st uuid now1 now2 t returnTo = (RedirectTo url, s1, st1)"
    and "map_of (ssSPs s1) t = Some sp" and "map_of (ssIdPCache s1) t = Some idp"
    and "inTenant c = t" and "inForm c = Some b64" and "b64 \<noteq> []" and "decodeBase64Lenient b64 = Some raw"
    and "try_certs S raw sp (inVerify c) 0 (idpSigningCertificates idp) = Some a"
    and "aInResponseTo a = NewAuthnRequestID uuid" and "inTake c \<le> now2 + minutes 10" and "aAssertionID a \<noteq> []"
    and "\<forall>r\<in>set (used_saml_assertions st). \<not> (ua_tenant_id r = t \<and> ua_assertion_id r = aAssertionID a)"
    and "\<forall>r\<in>set (users st). ur_id r \<noteq> inUUID c" and "inRandom c = Some rid" and "\<forall>r\<in>set (sessions st). sID r \<noteq> rid"
  shows "\<exists>sess ck st2. acs S P s1 st1 c = (AcsLoggedIn sess ck returnTo, s1, st2)"
  using verified_response_completes [OF assms] by blast

section \<open>Invariants\<close>

lemma acs_session_inv: "store_inv st \<Longrightarrow> store_inv (snd (acs_session s st c a relay))"
proof -
  assume inv: "store_inv st"
  let ?at = "mapAssertionAttributes a"
  obtain x st1 where j: "jitProvisionUser st (inUUID c) (inUser c) (inTenant c) a ?at = (x, st1)" by fastforce
  have st1: "store_inv st1"
    using saml_jit.provision_inv [OF inv, of "inUUID c" "inUser c" "inTenant c" "(a, ?at)"] j by simp
  show ?thesis
  proof (cases x)
    case (Inl e)
    then show ?thesis using st1 j by (simp add: acs_session_def)
  next
    case (Inr user)
    define se where "se = \<lparr>sID = [], sTenantID = inTenant c, sUserID = uID user, sSubject = aNameID a,
      sAttributes = put ?at ''Groups'' (AStrs (GroupsForUser st1 (inTenant c) (uID user))), sAuthMethod = ''saml'',
      sCreatedAt = 0, sExpiresAt = 0\<rparr>"
    obtain y st2 where c: "CreateSession st1 (inRandom c) (inSession c) se (hours 8) = (y, st2)" by fastforce
    then have "store_inv st2" using session_inv(1) [OF st1, of "inRandom c" "inSession c" se "hours 8"] by simp
    then show ?thesis using j Inr c by (cases y) (simp_all add: acs_session_def Let_def se_def)
  qed
qed

lemma acs_accept_inv: "store_inv st \<Longrightarrow> store_inv (snd (acs_accept s st c a))"
proof -
  assume inv: "store_inv st"
  let ?m = "MarkAssertionUsed st (inMark c) (inTenant c) (aAssertionID a)
      (if aNotOnOrAfter a = zero_time then inMark c + hours 24 else aNotOnOrAfter a)"
  have m: "store_inv (snd ?m)" by (rule MarkAssertionUsed_inv [OF inv])
  then have "store_inv (snd (TakeSAMLRequest (snd ?m) (inTake c) (aInResponseTo a) (inTenant c)))" by (rule request_inv)
  then show ?thesis using inv m acs_session_inv
    by (auto simp: acs_accept_def Let_def split: prod.splits bool.splits)
qed

lemma acs_inv: "store_inv st \<Longrightarrow> acs S P s st c = (r, s', st') \<Longrightarrow> store_inv st'"
  by (auto simp: acs_def split: option.splits prod.splits if_splits dest: acs_accept_inv)
     (metis acs_accept_inv snd_conv)+

section \<open>Where the replay protection ends\<close>

text \<open>
  C31: An assertion that answers no request can be replayed in the two minutes of clock skew: once
  the clock is in a later second than its expiry, its record no longer counts, and the same form
  value, while it still verifies, logs in a second time.
\<close>

theorem idp_initiated_replay:
  assumes "store_inv st" and "acs S P s st c1 = (AcsLoggedIn sess ck relay, s1, st1)"
    and "inForm c1 = Some b64" and "decodeBase64Lenient b64 = Some raw"
    and "map_of (ssSPs s1) (inTenant c1) = Some sp" and "map_of (ssIdPCache s1) (inTenant c1) = Some idp"
    and "inTenant c2 = inTenant c1" and "inForm c2 = inForm c1" and "b64 \<noteq> []" and "saml_tenant s1 (inTenant c1) \<noteq> None"
    and "try_certs S raw sp (inVerify c2) 0 (idpSigningCertificates idp) = Some a"
    and "aInResponseTo a = []" and "\<forall>q\<in>set (saml_requests st1). sr_request_id q \<noteq> []"
    and "aNotOnOrAfter a \<noteq> zero_time" and "aNotOnOrAfter a div 1000000000 < inMark c2 div 1000000000"
    and "\<forall>r\<in>set (users st1). ur_id r \<noteq> inUUID c2" and "inRandom c2 = Some rid" and "\<forall>r\<in>set (sessions st1). sID r \<noteq> rid"
  shows "\<exists>sess' ck' st2. acs S P s1 st1 c2 = (AcsLoggedIn sess' ck' [], s1, st2)"
proof -
  obtain cert now where "ParseAndVerifyResponse S raw cert (spEntityID sp) (spACSURL sp) [] now (minutes 2) = Inr a"
    using try_certs_Some [OF assms(11)] by blast
  then have acc: "acs_accept s1 st c1 a = (AcsLoggedIn sess ck relay, st1)"
    using acs_with_response [OF assms(4) _ assms(2,3)] by (simp add: logged_in_def)
  have gone: "time_text (aNotOnOrAfter a) < time_text (inMark c2)" using assms(15) by (rule time_text_less_second)
  have h: "has_assertion st1 (inTenant c1) (aAssertionID a) (aNotOnOrAfter a)" "aAssertionID a \<noteq> []"
    using acs_accept_LoggedIn [OF acc] assms(14) by auto
  have "distinct (map assertion_key (used_saml_assertions st1))"
    using acs_inv [OF assms(1,2)] by (simp add: store_inv_def)
  then have "\<forall>r\<in>set (used_saml_assertions st1). ua_tenant_id r = inTenant c2 \<and> ua_assertion_id r = aAssertionID a \<longrightarrow>
      time_text (ua_expires_at r) < time_text (inMark c2)"
    using h(1) gone assms(7) by (auto simp: has_assertion_def list_ex_iff distinct_map inj_on_def assertion_key_def)
  moreover have "fst (TakeSAMLRequest st1 (inTake c2) (aInResponseTo a) (inTenant c2)) = None"
    using assms(12,13) by (auto simp: TakeSAMLRequest_def Let_def split: option.splits dest!: find_SomeD)
  ultimately obtain sess' ck' st2 where "acs_accept s1 st1 c2 a = (AcsLoggedIn sess' ck' [], st2)"
    using acs_accept_completes [OF h(2), of st1 c2 "[]" rid s1] assms(12,16-18) by auto
  then show ?thesis using assms(3-11)
    by (auto simp: acs_def spFor_def idpFor_def)
qed

text \<open>
  Deactivation does not keep a user out.  An assertion for a user whom the directory has deactivated opens a
  session for that user like any other.
\<close>

theorem deactivated_user_logs_in:
  assumes "FindUserByUserName st (inTenant c) (aNameID a) = Inr u" and "\<not> uActive u"
    and "inRandom c = Some rid" and "\<forall>r\<in>set (sessions st). sID r \<noteq> rid"
  shows "\<exists>sess ck st'. acs_session s st c a relay = (AcsLoggedIn sess ck relay, st') \<and> sUserID sess = uID u"
  using assms(1,3,4) by (auto simp: acs_session_def jitProvisionUser_def Let_def CreateSession_def insert_row_def list_ex_iff)

end
