(* ===== verification/Oidc.thy ===== *)
theory Oidc
  imports Config Encoding Login
begin

unbundle bit_operations_syntax

text \<open>
  The OpenID Connect relying party, \<open>internal/oidc\<close>: ID token verification (\<open>jwt.go\<close>), the
  authorization request and the code exchange (\<open>client.go\<close>), the discovery cache (\<open>discovery.go\<close>) and
  the two handlers (\<open>handlers.go\<close>).  SHA-256, RSA verification, JSON decoding and the network are
  parameters; what a call of a handler reads from the network, the clock and the random source are
  its inputs.
\<close>

section \<open>Parameters\<close>

record JWK =
  Kty :: string
  Kid :: string
  Alg :: string
  Use :: string
  jwkN :: string
  jwkE :: string

record JWKS =
  Keys :: "JWK list"

record ProviderMetadata =
  Issuer :: string
  AuthorizationEndpoint :: string
  TokenEndpoint :: string
  JWKSURI :: string
  UserinfoEndpoint :: string

record TokenResponse =
  AccessToken :: string
  IDToken :: string
  TokenType :: string
  ExpiresIn :: int

record oidclib =
  ol_sha256 :: "string \<Rightarrow> string"
  ol_rsa_verify :: "nat \<times> int \<Rightarrow> string \<Rightarrow> string \<Rightarrow> bool"
    \<comment> \<open>\<open>rsa.VerifyPKCS1v15\<close> with SHA-256: modulus and exponent, digest, signature\<close>
  ol_header :: "string \<Rightarrow> (string \<times> string) option"
    \<comment> \<open>\<open>json.Unmarshal\<close> into the header struct: \<open>alg\<close>, \<open>kid\<close>\<close>
  ol_claims :: "string \<Rightarrow> attrs option"
    \<comment> \<open>\<open>json.Unmarshal\<close> into a map\<close>
  ol_metadata :: "string \<Rightarrow> ProviderMetadata option"
  ol_jwks :: "string \<Rightarrow> JWKS option"
  ol_token :: "string \<Rightarrow> TokenResponse option"
  ol_int64 :: "rat \<Rightarrow> int"
    \<comment> \<open>the conversion of a float64 outside the range of int64, which the language leaves open\<close>

section \<open>ID tokens (jwt.go)\<close>

type_synonym Claims = attrs

definition claims_String :: "Claims \<Rightarrow> string \<Rightarrow> string" where
  "claims_String c key = (case map_of c key of Some (AStr s) \<Rightarrow> s | _ \<Rightarrow> [])"

definition claims_Float64 :: "Claims \<Rightarrow> string \<Rightarrow> rat option" where
  "claims_Float64 c key = (case map_of c key of Some (ANum x) \<Rightarrow> Some x | _ \<Rightarrow> None)"

definition findKey :: "JWKS \<Rightarrow> string \<Rightarrow> JWK option" where
  "findKey j kid = find (\<lambda>k. Kid k = kid) (Keys j)"

text \<open>\<open>big.Int.SetBytes\<close> and the loop over the bytes of the exponent, an \<open>int\<close> of 64 bits.\<close>

definition SetBytes :: "string \<Rightarrow> nat" where
  "SetBytes bs = foldl (\<lambda>n b. 256 * n + code_of b) 0 bs"

definition exponent :: "string \<Rightarrow> 64 word" where
  "exponent bs = foldl (\<lambda>e b. push_bit 8 e OR word_of_nat (code_of b)) 0 bs"

definition publicKey :: "JWK \<Rightarrow> (nat \<times> int) option" where
  "publicKey k =
     (case rawurl_decode (jwkN k) of
        None \<Rightarrow> None
      | Some nBytes \<Rightarrow>
          (case rawurl_decode (jwkE k) of
             None \<Rightarrow> None
           | Some eBytes \<Rightarrow> Some (SetBytes nBytes, sint (exponent eBytes))))"

fun audienceContains :: "any option \<Rightarrow> string \<Rightarrow> bool" where
  "audienceContains (Some (AStr s)) want = (s = want)"
| "audienceContains (Some (AList vs)) want = list_ex (\<lambda>a. a = AStr want) vs"
| "audienceContains _ want = False"

text \<open>
  \<open>int64(x)\<close> truncates; \<open>time.Unix(s, 0)\<close> counts seconds from year 1 in an int64, and \<open>Add\<close> of whole
  seconds adds to that count: both wrap around.
\<close>

definition trunc :: "rat \<Rightarrow> int" where
  "trunc x = (if 0 \<le> x then \<lfloor>x\<rfloor> else \<lceil>x\<rceil>)"

definition int64 :: "oidclib \<Rightarrow> rat \<Rightarrow> int" where
  "int64 J x = (if - (2 ^ 63) \<le> trunc x \<and> trunc x < 2 ^ 63 then trunc x else ol_int64 J x)"

definition wrap64 :: "int \<Rightarrow> int" where
  "wrap64 n = sint (word_of_int n :: 64 word)"

definition unixToInternal :: int where
  "unixToInternal = 62135596800"

definition unix_plus :: "int \<Rightarrow> int \<Rightarrow> instant" where
  "unix_plus sec skew = seconds (wrap64 (wrap64 (sec + unixToInternal) + skew) - unixToInternal)"

datatype token_error =
    Malformed
  | BadEncoding string
  | BadTokenJSON string
  | UntrustedAlg string
  | NoKey string
  | BadKey
  | InvalidSignature
  | WrongIssuer
  | WrongClient
  | TokenExpired
  | NoExpiry
  | IssuedInFuture
  | NonceMismatch

text \<open>The checks of the claims; the skew is in whole seconds.\<close>

definition check_claims ::
    "oidclib \<Rightarrow> Claims \<Rightarrow> string \<Rightarrow> string \<Rightarrow> string \<Rightarrow> instant \<Rightarrow> int \<Rightarrow> token_error + Claims" where
  "check_claims J claims issuer audience nonce now skew =
     ensure WrongIssuer (claims_String claims ''iss'' = issuer)
    (ensure WrongClient (audienceContains (map_of claims ''aud'') audience)
    (require NoExpiry (claims_Float64 claims ''exp'') (\<lambda>exp.
     ensure TokenExpired (\<not> now > unix_plus (int64 J exp) skew)
    (ensure IssuedInFuture
       (case claims_Float64 claims ''iat'' of None \<Rightarrow> True | Some iat \<Rightarrow> \<not> now + seconds skew < unix_plus (int64 J iat) 0)
    (ensure NonceMismatch (nonce = [] \<or> claims_String claims ''nonce'' = nonce)
    (Inr claims))))))"

definition VerifyIDToken ::
    "oidclib \<Rightarrow> string \<Rightarrow> JWKS \<Rightarrow> string \<Rightarrow> string \<Rightarrow> string \<Rightarrow> instant \<Rightarrow> int \<Rightarrow> token_error + Claims" where
  "VerifyIDToken J idToken jwks issuer audience nonce now skew =
     (case Split idToken CHR ''.'' of
        [h, p, s] \<Rightarrow>
          require (BadEncoding ''header'') (rawurl_decode h) (\<lambda>headerB.
          require (BadEncoding ''payload'') (rawurl_decode p) (\<lambda>payloadB.
          require (BadEncoding ''signature'') (rawurl_decode s) (\<lambda>sigB.
          require (BadTokenJSON ''header'') (ol_header J headerB) (\<lambda>header.
          ensure (UntrustedAlg (fst header)) (fst header = ''RS256'')
         (require (NoKey (snd header)) (findKey jwks (snd header)) (\<lambda>jwk.
          require BadKey (publicKey jwk) (\<lambda>pub.
          ensure InvalidSignature (ol_rsa_verify J pub (ol_sha256 J (h @ ''.'' @ p)) sigB)
         (require (BadTokenJSON ''claims'') (ol_claims J payloadB) (\<lambda>claims.
          check_claims J claims issuer audience nonce now skew)))))))))
      | _ \<Rightarrow> Inl Malformed)"

section \<open>The authorization code flow (client.go)\<close>

text \<open>Random bytes come from \<open>rand.Read\<close>; \<open>None\<close> when it fails.\<close>

definition GeneratePKCEVerifier :: "string option \<Rightarrow> string option" where
  "GeneratePKCEVerifier rnd = map_option rawurl_encode rnd"

definition PKCEChallengeS256 :: "oidclib \<Rightarrow> string \<Rightarrow> string" where
  "PKCEChallengeS256 J verifier = rawurl_encode (ol_sha256 J verifier)"

definition GenerateState :: "string option \<Rightarrow> string option" where
  "GenerateState rnd = map_option rawurl_encode rnd"

text \<open>\<open>url.Values.Encode\<close> on values with one entry for each key: sorted by key.\<close>

definition values_Encode :: "(string \<times> string) list \<Rightarrow> string" where
  "values_Encode vs = Join (map (\<lambda>kv. QueryEscape (fst kv) @ ''='' @ QueryEscape (snd kv)) (sort_key fst vs)) ''&''"

definition authorize_params ::
    "string \<Rightarrow> string \<Rightarrow> string \<Rightarrow> string \<Rightarrow> string \<Rightarrow> string list \<Rightarrow> (string \<times> string) list" where
  "authorize_params clientID redirectURI state nonce codeChallenge scopes =
     [(''response_type'', ''code''), (''client_id'', clientID), (''redirect_uri'', redirectURI),
      (''scope'', Join scopes '' ''), (''state'', state), (''nonce'', nonce),
      (''code_challenge'', codeChallenge), (''code_challenge_method'', ''S256'')]"

definition BuildAuthorizeURL ::
    "ProviderMetadata \<Rightarrow> string \<Rightarrow> string \<Rightarrow> string \<Rightarrow> string \<Rightarrow> string \<Rightarrow> string list \<Rightarrow> string" where
  "BuildAuthorizeURL meta clientID redirectURI state nonce codeChallenge scopes =
     AuthorizationEndpoint meta @ (if Contains (AuthorizationEndpoint meta) ''?'' then ''&'' else ''?'')
     @ values_Encode (authorize_params clientID redirectURI state nonce codeChallenge scopes)"

definition token_params :: "string \<Rightarrow> string \<Rightarrow> string \<Rightarrow> string \<Rightarrow> string \<Rightarrow> (string \<times> string) list" where
  "token_params clientID clientSecret redirectURI code verifier =
     [(''grant_type'', ''authorization_code''), (''code'', code), (''redirect_uri'', redirectURI),
      (''client_id'', clientID), (''code_verifier'', verifier)]
     @ (if clientSecret \<noteq> [] then [(''client_secret'', clientSecret)] else [])"

text \<open>The network: a request gives a status and a body, or fails.\<close>

record network =
  http_get :: "string \<Rightarrow> (nat \<times> string) option"
  http_post :: "string \<Rightarrow> string \<Rightarrow> (nat \<times> string) option"

definition ExchangeCode ::
    "oidclib \<Rightarrow> network \<Rightarrow> ProviderMetadata \<Rightarrow> string \<Rightarrow> string \<Rightarrow> string \<Rightarrow> string \<Rightarrow> string \<Rightarrow> TokenResponse option" where
  "ExchangeCode J net meta clientID clientSecret redirectURI code verifier =
     (case http_post net (TokenEndpoint meta) (values_Encode (token_params clientID clientSecret redirectURI code verifier)) of
        None \<Rightarrow> None
      | Some (status, body) \<Rightarrow>
          if status \<noteq> 200 then None
          else (case ol_token J body of None \<Rightarrow> None | Some tr \<Rightarrow> if IDToken tr = [] then None else Some tr))"

section \<open>Discovery (discovery.go)\<close>

record DiscoveryCache =
  dcTTL :: int
  dcMeta :: "(string \<times> (ProviderMetadata \<times> instant)) list"
  dcJWKS :: "(string \<times> (JWKS \<times> instant)) list"

definition NewDiscoveryCache :: "int \<Rightarrow> DiscoveryCache" where
  "NewDiscoveryCache ttl = \<lparr>dcTTL = ttl, dcMeta = [], dcJWKS = []\<rparr>"

text \<open>The clock is read at the lookup and again when the fetched document is stored.\<close>

definition fetch_metadata :: "oidclib \<Rightarrow> network \<Rightarrow> string \<Rightarrow> ProviderMetadata option" where
  "fetch_metadata J net issuer =
     (case http_get net (TrimSuffix issuer ''/'' @ ''/.well-known/openid-configuration'') of
        None \<Rightarrow> None
      | Some (status, body) \<Rightarrow>
          if status \<noteq> 200 then None
          else (case ol_metadata J body of None \<Rightarrow> None | Some m \<Rightarrow> if Issuer m \<noteq> issuer then None else Some m))"

definition Metadata ::
    "oidclib \<Rightarrow> network \<Rightarrow> DiscoveryCache \<Rightarrow> string \<Rightarrow> instant \<Rightarrow> instant \<Rightarrow> ProviderMetadata option \<times> DiscoveryCache" where
  "Metadata J net c issuer now1 now2 =
     (let fetched = (case fetch_metadata J net issuer of
                       None \<Rightarrow> (None, c)
                     | Some m \<Rightarrow> (Some m, c\<lparr>dcMeta := put (dcMeta c) issuer (m, now2)\<rparr>))
      in case map_of (dcMeta c) issuer of
           None \<Rightarrow> fetched
         | Some (m, fetchedAt) \<Rightarrow> if now1 - fetchedAt < dcTTL c then (Some m, c) else fetched)"

definition fetch_jwks :: "oidclib \<Rightarrow> network \<Rightarrow> string \<Rightarrow> JWKS option" where
  "fetch_jwks J net jwksURI =
     (case http_get net jwksURI of
        None \<Rightarrow> None
      | Some (status, body) \<Rightarrow> if status \<noteq> 200 then None else ol_jwks J body)"

definition cache_JWKS ::
    "oidclib \<Rightarrow> network \<Rightarrow> DiscoveryCache \<Rightarrow> string \<Rightarrow> string \<Rightarrow> instant \<Rightarrow> instant \<Rightarrow> JWKS option \<times> DiscoveryCache" where
  "cache_JWKS J net c issuer jwksURI now1 now2 =
     (let fetched = (case fetch_jwks J net jwksURI of
                       None \<Rightarrow> (None, c)
                     | Some j \<Rightarrow> (Some j, c\<lparr>dcJWKS := put (dcJWKS c) issuer (j, now2)\<rparr>))
      in case map_of (dcJWKS c) issuer of
           None \<Rightarrow> fetched
         | Some (j, fetchedAt) \<Rightarrow> if now1 - fetchedAt < dcTTL c then (Some j, c) else fetched)"

section \<open>The handlers (handlers.go)\<close>

definition defaultScopes :: "string list" where
  "defaultScopes = [''openid'', ''profile'', ''email'']"

definition defaultClockSkew :: int where
  "defaultClockSkew = 120"

record oidc_server =
  osTenants :: "(string \<times> Tenant) list"
  osDiscovery :: DiscoveryCache
  osPublicBaseURL :: "(string \<Rightarrow> string) option"

definition oidc_base :: "oidc_server \<Rightarrow> string \<Rightarrow> string" where
  "oidc_base s tenantID = (case osPublicBaseURL s of Some f \<Rightarrow> f tenantID | None \<Rightarrow> ''http://localhost:8443'')"

definition redirectURI :: "oidc_server \<Rightarrow> string \<Rightarrow> string" where
  "redirectURI s tenantID = oidc_base s tenantID @ ''/oidc/'' @ tenantID @ ''/callback''"

definition oidc_tenant :: "oidc_server \<Rightarrow> string \<Rightarrow> Tenant option" where
  "oidc_tenant s tenantID =
     (case map_of (osTenants s) tenantID of
        None \<Rightarrow> None
      | Some tenant \<Rightarrow> if tOIDCIssuer tenant = [] then None else Some tenant)"

datatype oidc_reply = OidcFailed nat string | OidcRedirect string | OidcLoggedIn Session Cookie string

text \<open>What one call of \<open>login\<close> reads: the tenant, \<open>returnTo\<close>, three random values, clock and network.\<close>

record login_inputs =
  liTenant :: string
  liReturnTo :: string
  liState :: "string option"
  liNonce :: "string option"
  liVerifier :: "string option"
  liLookup :: instant
  liFetched :: instant
  liPut :: instant
  liNet :: network

definition oidc_login ::
    "oidclib \<Rightarrow> oidc_server \<Rightarrow> Store \<Rightarrow> login_inputs \<Rightarrow> oidc_reply \<times> oidc_server \<times> Store" where
  "oidc_login J s st i =
     (case oidc_tenant s (liTenant i) of
        None \<Rightarrow> (OidcFailed 404 ''not found'', s, st)
      | Some tenant \<Rightarrow>
          (case Metadata J (liNet i) (osDiscovery s) (tOIDCIssuer tenant) (liLookup i) (liFetched i) of
             (None, dc) \<Rightarrow> (OidcFailed 502 ''oidc discovery failed'', s\<lparr>osDiscovery := dc\<rparr>, st)
           | (Some meta, dc) \<Rightarrow>
               let s = s\<lparr>osDiscovery := dc\<rparr>
               in (case (GenerateState (liState i), GenerateState (liNonce i), GeneratePKCEVerifier (liVerifier i)) of
                     (Some state, Some nonce, Some verifier) \<Rightarrow>
                       (case PutOIDCRequest st (liPut i)
                               \<lparr>oState = state, oTenantID = liTenant i, oNonce = nonce, oPKCEVerifier = verifier,
                                oRelayState = liReturnTo i\<rparr> (minutes 10) of
                          (Inl e, st') \<Rightarrow> (OidcFailed 500 ''store'', s, st')
                        | (Inr _, st') \<Rightarrow>
                            (OidcRedirect (BuildAuthorizeURL meta (tOIDCClientID tenant) (redirectURI s (liTenant i)) state nonce
                               (PKCEChallengeS256 J verifier) defaultScopes), s, st'))
                   | _ \<Rightarrow> (OidcFailed 500 ''random'', s, st))))"

definition capitalize :: "string \<Rightarrow> string" where
  "capitalize s =
     (if s = ''email'' then ''Email''
      else if s = ''given_name'' then ''GivenName''
      else if s = ''family_name'' then ''FamilyName''
      else if s = ''name'' then ''Name''
      else if s = ''department'' then ''Department''
      else s)"

definition mapClaims :: "Claims \<Rightarrow> attrs" where
  "mapClaims claims =
     (let copy = (\<lambda>to out k. let v = claims_String claims k in if v \<noteq> [] then put out (to k) (AStr v) else out);
          out = foldl (copy capitalize) [] [''email'', ''given_name'', ''family_name'', ''name'', ''department'']
      in foldl (copy (\<lambda>_. ''Department'')) out [''department'', ''https://schemas.example.com/department''])"

definition oidc_user_name :: "Claims \<Rightarrow> string" where
  "oidc_user_name claims =
     (let userName = claims_String claims ''email'' in if userName = [] then claims_String claims ''sub'' else userName)"

definition oidc_jitProvisionUser ::
    "Store \<Rightarrow> string \<Rightarrow> instant \<Rightarrow> string \<Rightarrow> Claims \<Rightarrow> attrs \<Rightarrow> (store_error + User) \<times> Store" where
  "oidc_jitProvisionUser st uuid now tenantID claims attrs =
     (let userName = oidc_user_name claims
      in case FindUserByUserName st tenantID userName of
           Inr u \<Rightarrow> (Inr u, st)
         | Inl e \<Rightarrow>
             if e \<noteq> ErrNotFound then (Inl e, st)
             else CreateUser st uuid now
                    (blank_user\<lparr>uTenantID := tenantID, uUserName := userName, uEmail := claims_String claims ''email'',
                       uGivenName := claims_String claims ''given_name'', uFamilyName := claims_String claims ''family_name'',
                       uDepartment := (case map_of attrs ''Department'' of Some (AStr d) \<Rightarrow> d | _ \<Rightarrow> []),
                       uActive := True, uAttributes := []\<rparr>))"

interpretation oidc_jit: provisioning
  "\<lambda>st uuid now t ca. oidc_jitProvisionUser st uuid now t (fst ca) (snd ca)" "\<lambda>ca. oidc_user_name (fst ca)"
proof (unfold_locales, goal_cases)
  case (1 st t c u uuid now)
  then show ?case by (simp add: oidc_jitProvisionUser_def Let_def)
next
  case (2 st t c e uuid now)
  then have "e = ErrNotFound" by (auto simp: FindUserByUserName_def split: option.splits)
  with 2 show ?case
    by (intro exI [of _ "blank_user\<lparr>uTenantID := t, uUserName := oidc_user_name (fst c),
          uEmail := claims_String (fst c) ''email'',
          uGivenName := claims_String (fst c) ''given_name'', uFamilyName := claims_String (fst c) ''family_name'',
          uDepartment := (case map_of (snd c) ''Department'' of Some (AStr d) \<Rightarrow> d | _ \<Rightarrow> []),
          uActive := True, uAttributes := []\<rparr>"])
       (simp add: oidc_jitProvisionUser_def blank_user_def Let_def)
qed

text \<open>What one call of \<open>callback\<close> reads; a query parameter that is absent is empty.\<close>

record callback_inputs =
  ciTenant :: string
  ciQuery :: "string \<Rightarrow> string"
  ciTake :: instant
  ciLookup :: instant
  ciFetched :: instant
  ciLookupKeys :: instant
  ciFetchedKeys :: instant
  ciVerify :: instant
  ciUser :: instant
  ciSession :: instant
  ciNet :: network
  ciUUID :: string
  ciRandom :: "string option"

text \<open>The steps behind a verified token.\<close>

definition callback_session ::
    "oidc_server \<Rightarrow> Store \<Rightarrow> callback_inputs \<Rightarrow> Claims \<Rightarrow> string \<Rightarrow> oidc_reply \<times> Store" where
  "callback_session s st i claims relayState =
     (let tenantID = ciTenant i; subject = claims_String claims ''sub''
      in if subject = [] then (OidcFailed 403 ''ID token missing sub claim'', st)
         else
           let attrs = mapClaims claims
           in case oidc_jitProvisionUser st (ciUUID i) (ciUser i) tenantID claims attrs of
                (Inl e, st1) \<Rightarrow> (OidcFailed 500 ''store'', st1)
              | (Inr user, st1) \<Rightarrow>
                  let attrs = put attrs ''Groups'' (AStrs (GroupsForUser st1 tenantID (uID user)));
                      sess = \<lparr>sID = [], sTenantID = tenantID, sUserID = uID user, sSubject = subject,
                              sAttributes = attrs, sAuthMethod = ''oidc'', sCreatedAt = 0, sExpiresAt = 0\<rparr>
                  in (case CreateSession st1 (ciRandom i) (ciSession i) sess (hours 8) of
                        (Inl e, st2) \<Rightarrow> (OidcFailed 500 ''store'', st2)
                      | (Inr sess', st2) \<Rightarrow>
                          (OidcLoggedIn sess' \<lparr>ckValue = sID sess', ckSecure = HasPrefix (oidc_base s tenantID) ''https://'',
                                               ckExpires = sExpiresAt sess'\<rparr> relayState, st2)))"

text \<open>The steps behind a request that was taken: discovery, exchange, keys, verification.\<close>

definition callback_verify ::
    "oidclib \<Rightarrow> oidc_server \<Rightarrow> callback_inputs \<Rightarrow> Tenant \<Rightarrow> OIDCRequest \<Rightarrow> ((nat \<times> string) + Claims) \<times> oidc_server" where
  "callback_verify J s i tenant pending =
     (case Metadata J (ciNet i) (osDiscovery s) (tOIDCIssuer tenant) (ciLookup i) (ciFetched i) of
        (None, dc) \<Rightarrow> (Inl (502, ''oidc discovery failed''), s\<lparr>osDiscovery := dc\<rparr>)
      | (Some meta, dc) \<Rightarrow>
          (case ExchangeCode J (ciNet i) meta (tOIDCClientID tenant) (tOIDCClientSecret tenant) (redirectURI s (ciTenant i))
                  (ciQuery i ''code'') (oPKCEVerifier pending) of
             None \<Rightarrow> (Inl (502, ''token exchange failed''), s\<lparr>osDiscovery := dc\<rparr>)
           | Some tr \<Rightarrow>
               (case cache_JWKS J (ciNet i) dc (tOIDCIssuer tenant) (JWKSURI meta) (ciLookupKeys i) (ciFetchedKeys i) of
                  (None, dc') \<Rightarrow> (Inl (502, ''jwks fetch failed''), s\<lparr>osDiscovery := dc'\<rparr>)
                | (Some jwks, dc') \<Rightarrow>
                    (case VerifyIDToken J (IDToken tr) jwks (tOIDCIssuer tenant) (tOIDCClientID tenant) (oNonce pending)
                            (ciVerify i) defaultClockSkew of
                       Inl e \<Rightarrow> (Inl (403, ''ID token verification failed''), s\<lparr>osDiscovery := dc'\<rparr>)
                     | Inr claims \<Rightarrow> (Inr claims, s\<lparr>osDiscovery := dc'\<rparr>)))))"

definition callback ::
    "oidclib \<Rightarrow> oidc_server \<Rightarrow> Store \<Rightarrow> callback_inputs \<Rightarrow> oidc_reply \<times> oidc_server \<times> Store" where
  "callback J s st i =
     (case oidc_tenant s (ciTenant i) of
        None \<Rightarrow> (OidcFailed 404 ''not found'', s, st)
      | Some tenant \<Rightarrow>
          if ciQuery i ''error'' \<noteq> [] then (OidcFailed 400 ''oidc error'', s, st)
          else if ciQuery i ''code'' = [] \<or> ciQuery i ''state'' = [] then (OidcFailed 400 ''missing code/state'', s, st)
          else
            (case TakeOIDCRequest st (ciTake i) (ciQuery i ''state'') of
               (None, st1) \<Rightarrow> (OidcFailed 403 ''unknown, expired, or already-used state (possible CSRF)'', s, st1)
             | (Some pending, st1) \<Rightarrow>
                 if oTenantID pending \<noteq> ciTenant i
                 then (OidcFailed 403 ''unknown, expired, or already-used state (possible CSRF)'', s, st1)
                 else
                   (case callback_verify J s i tenant pending of
                      (Inl (code, msg), s') \<Rightarrow> (OidcFailed code msg, s', st1)
                    | (Inr claims, s') \<Rightarrow>
                        (case callback_session s' st1 i claims (oRelayState pending) of (r, st2) \<Rightarrow> (r, s', st2)))))"

end
