(* ===== verification/OidcLaws.thy ===== *)
theory OidcLaws
  imports Oidc
begin

text \<open>
  What the relying party guarantees: the authenticity of accepted ID tokens, the single use of the
  state, the contract of the discovery cache, and that a login which was started comes to its end.
\<close>

section \<open>Keys\<close>

lemma shift_or_byte: "push_bit 8 e OR word_of_nat (code_of b) = 256 * e + (word_of_nat (code_of b) :: 64 word)"
proof -
  have "push_bit 8 e AND word_of_nat (code_of b) = (0 :: 64 word)"
  proof (rule bit_word_eqI)
    fix n assume "n < LENGTH(64)"
    have "\<not> bit (word_of_nat (code_of b) :: 64 word) n" if "8 \<le> n"
    proof -
      have "code_of b < 2 ^ 8" by simp
      then have "take_bit 8 (code_of b) = code_of b" by (simp add: take_bit_nat_eq_self_iff)
      then have "\<not> bit (code_of b) n" using that by (metis bit_take_bit_iff not_less)
      then show ?thesis by (transfer fixing: n b) (simp add: bit_take_bit_iff bit_of_nat_iff)
    qed
    then show "bit (push_bit 8 e AND word_of_nat (code_of b)) n \<longleftrightarrow> bit (0 :: 64 word) n"
      by (cases "8 \<le> n") (auto simp: bit_and_iff bit_push_bit_iff)
  qed
  then have "push_bit 8 e OR word_of_nat (code_of b) = push_bit 8 e + (word_of_nat (code_of b) :: 64 word)"
    by (rule disjunctive_add_eq_or [symmetric])
  then show ?thesis by (simp add: push_bit_eq_mult)
qed

lemma exponent_word: "exponent bs = word_of_nat (SetBytes bs)"
proof -
  have step: "foldl (\<lambda>e b. push_bit 8 e OR word_of_nat (code_of b)) (word_of_nat n) bs
      = (word_of_nat (foldl (\<lambda>n b. 256 * n + code_of b) n bs) :: 64 word)" for n
  proof (induction bs arbitrary: n)
    case (Cons b bs)
    have "push_bit 8 (word_of_nat n) OR word_of_nat (code_of b) = (word_of_nat (256 * n + code_of b) :: 64 word)"
      by (simp add: shift_or_byte)
    with Cons.IH [of "256 * n + code_of b"] show ?case by simp
  qed simp
  show ?thesis using step [of 0] by (simp add: exponent_def SetBytes_def)
qed

lemma sint_small: "n < 2 ^ 63 \<Longrightarrow> sint (word_of_nat n :: 64 word) = int n"
  by (simp add: signed_of_nat signed_take_bit_int_eq_self)

text \<open>
  C33: The exponent of a key is the big-endian value of its bytes, reduced to the 64 bits of an int:
  exact for values below \<open>2 ^ 63\<close>, and silently wrapped for longer ones.
\<close>

theorem exponent_is_big_endian:
  "exponent bs = word_of_nat (SetBytes bs)
   \<and> (if SetBytes bs < 2 ^ 63 then sint (exponent bs) = int (SetBytes bs) else unat (exponent bs) = SetBytes bs mod 2 ^ 64)"
  by (simp add: exponent_word sint_small unsigned_of_nat take_bit_eq_mod)

section \<open>ID tokens\<close>

text \<open>The checks behind accepted claims.\<close>

definition fresh_claims :: "oidclib \<Rightarrow> Claims \<Rightarrow> string \<Rightarrow> string \<Rightarrow> string \<Rightarrow> instant \<Rightarrow> int \<Rightarrow> bool" where
  "fresh_claims J claims issuer audience nonce now skew \<longleftrightarrow>
     claims_String claims ''iss'' = issuer \<and> audienceContains (map_of claims ''aud'') audience
     \<and> (\<exists>exp. claims_Float64 claims ''exp'' = Some exp \<and> now \<le> unix_plus (int64 J exp) skew)
     \<and> (\<forall>iat. claims_Float64 claims ''iat'' = Some iat \<longrightarrow> unix_plus (int64 J iat) 0 \<le> now + seconds skew)
     \<and> (nonce \<noteq> [] \<longrightarrow> claims_String claims ''nonce'' = nonce)"

lemma check_claims_Inr:
  "check_claims J claims issuer audience nonce now skew = Inr claims' \<longleftrightarrow>
     claims' = claims \<and> fresh_claims J claims issuer audience nonce now skew"
  by (auto simp: check_claims_def fresh_claims_def not_less split: option.splits)

lemma VerifyIDToken_Inr:
  assumes "VerifyIDToken J tok jwks issuer audience nonce now skew = Inr claims"
  shows "\<exists>h p s headerB payloadB sigB kid jwk pub.
    Split tok CHR ''.'' = [h, p, s] \<and> rawurl_decode h = Some headerB \<and> rawurl_decode p = Some payloadB \<and> rawurl_decode s = Some sigB
    \<and> ol_header J headerB = Some (''RS256'', kid) \<and> findKey jwks kid = Some jwk \<and> publicKey jwk = Some pub
    \<and> ol_rsa_verify J pub (ol_sha256 J (h @ ''.'' @ p)) sigB
    \<and> ol_claims J payloadB = Some claims \<and> fresh_claims J claims issuer audience nonce now skew"
proof -
  obtain h p s where sp: "Split tok CHR ''.'' = [h, p, s]"
    using assms by (auto simp: VerifyIDToken_def split: list.splits)
  note b = assms [unfolded VerifyIDToken_def sp list.case require_Inr ensure_Inr check_claims_Inr]
  then obtain headerB payloadB sigB header jwk pub where
    "rawurl_decode h = Some headerB" "rawurl_decode p = Some payloadB" "rawurl_decode s = Some sigB"
    "ol_header J headerB = Some header" "fst header = ''RS256''" "findKey jwks (snd header) = Some jwk"
    "publicKey jwk = Some pub" "ol_rsa_verify J pub (ol_sha256 J (h @ ''.'' @ p)) sigB"
    "ol_claims J payloadB = Some claims" "fresh_claims J claims issuer audience nonce now skew"
    by (elim exE conjE) (rule that, simp_all)
  then show ?thesis using sp by (cases header; cases pub) auto
qed

lemma Split_segment_no_sep: "w \<in> set (Split s c) \<Longrightarrow> c \<notin> set w"
  by (induction s c arbitrary: w rule: Split.induct) (auto split: list.splits if_splits)

lemma signing_input_unique:
  fixes h p h' p' :: string
  assumes "h @ ''.'' @ p = h' @ ''.'' @ p'" and "CHR ''.'' \<notin> set h" and "CHR ''.'' \<notin> set h'"
  shows "h = h' \<and> p = p'"
  using assms
proof (induction h arbitrary: h')
  case Nil
  then show ?case by (cases h') auto
next
  case (Cons x h)
  then show ?case by (cases h') auto
qed


section \<open>Samples\<close>

definition toy_key :: JWK where
  "toy_key = \<lparr>Kty = ''RSA'', Kid = ''k1'', Alg = ''RS256'', Use = ''sig'', jwkN = rawurl_encode ''N'', jwkE = rawurl_encode ''E''\<rparr>"

definition toy_header :: string where
  "toy_header = rawurl_encode ''H''"

definition toy_payload :: string where
  "toy_payload = rawurl_encode ''P''"

definition toy_token :: string where
  "toy_token = toy_header @ ''.'' @ toy_payload @ ''.'' @ rawurl_encode ''S''"

definition toy_claims :: "string \<Rightarrow> Claims" where
  "toy_claims nonce = [(''iss'', AStr ''https://idp''), (''aud'', AList [AStr ''other'', AStr ''gw'']), (''exp'', ANum 600),
     (''nonce'', AStr nonce), (''sub'', AStr ''u-77''), (''email'', AStr ''carol@acme'')]"

definition toy_meta :: ProviderMetadata where
  "toy_meta = \<lparr>Issuer = ''https://idp'', AuthorizationEndpoint = ''https://idp/auth'', TokenEndpoint = ''https://idp/token'',
     JWKSURI = ''https://idp/keys'', UserinfoEndpoint = []\<rparr>"

definition toy_oidc :: "string \<Rightarrow> oidclib" where
  "toy_oidc nonce = \<lparr>ol_sha256 = (\<lambda>x. x), ol_rsa_verify = (\<lambda>pub d sg. d = toy_header @ ''.'' @ toy_payload \<and> sg = ''S''),
     ol_header = (\<lambda>b. if b = ''H'' then Some (''RS256'', ''k1'') else None),
     ol_claims = (\<lambda>b. if b = ''P'' then Some (toy_claims nonce) else None),
     ol_metadata = (\<lambda>b. Some toy_meta), ol_jwks = (\<lambda>b. Some \<lparr>Keys = [toy_key]\<rparr>),
     ol_token = (\<lambda>b. Some \<lparr>AccessToken = [], IDToken = toy_token, TokenType = ''Bearer'', ExpiresIn = 60\<rparr>),
     ol_int64 = (\<lambda>x. - (2 ^ 63))\<rparr>"

lemma toy_token_accepted:
  "VerifyIDToken (toy_oidc ''n'') toy_token \<lparr>Keys = [toy_key]\<rparr> ''https://idp'' ''gw'' ''n'' (seconds 1) 120 = Inr (toy_claims ''n'')"
  by code_simp


section \<open>The discovery cache\<close>

definition dc_ok :: "DiscoveryCache \<Rightarrow> bool" where
  "dc_ok c \<longleftrightarrow> (\<forall>issuer m since. map_of (dcMeta c) issuer = Some (m, since) \<longrightarrow> Issuer m = issuer)"

lemma dc_ok_new: "dc_ok (NewDiscoveryCache ttl)"
  by (simp add: dc_ok_def NewDiscoveryCache_def)

lemma fetch_metadata_issuer: "fetch_metadata J net issuer = Some m \<Longrightarrow> Issuer m = issuer"
  by (auto simp: fetch_metadata_def split: option.splits if_splits)

lemma Metadata_ok: "dc_ok c \<Longrightarrow> dc_ok (snd (Metadata J net c issuer now1 now2))"
  by (auto simp: Metadata_def dc_ok_def Let_def map_of_put fetch_metadata_issuer split: option.splits if_splits)

lemma cache_JWKS_ok: "dc_ok c \<Longrightarrow> dc_ok (snd (cache_JWKS J net c issuer uri now1 now2))"
  by (auto simp: cache_JWKS_def dc_ok_def Let_def split: option.splits if_splits)

text \<open>Any sequence of lookups in the cache, with whatever the network answers.\<close>

inductive cache_step :: "oidclib \<Rightarrow> DiscoveryCache \<Rightarrow> DiscoveryCache \<Rightarrow> bool" for J where
  meta: "cache_step J c (snd (Metadata J net c issuer now1 now2))"
| keys: "cache_step J c (snd (cache_JWKS J net c issuer uri now1 now2))"

lemma callback_verify_steps: "(cache_step J)\<^sup>*\<^sup>* (osDiscovery s) (osDiscovery (snd (callback_verify J s i tenant pending)))"
proof -
  let ?m = "Metadata J (ciNet i) (osDiscovery s) (tOIDCIssuer tenant) (ciLookup i) (ciFetched i)"
  have m: "cache_step J (osDiscovery s) (snd ?m)" by (rule cache_step.meta)
  have j: "cache_step J (snd ?m) (snd (cache_JWKS J (ciNet i) (snd ?m) (tOIDCIssuer tenant) uri (ciLookupKeys i) (ciFetchedKeys i)))"
    for uri by (rule cache_step.keys)
  have "osDiscovery (snd (callback_verify J s i tenant pending)) = snd ?m
      \<or> (\<exists>uri. osDiscovery (snd (callback_verify J s i tenant pending)) =
            snd (cache_JWKS J (ciNet i) (snd ?m) (tOIDCIssuer tenant) uri (ciLookupKeys i) (ciFetchedKeys i)))"
    by (auto simp: callback_verify_def split: prod.splits option.splits sum.splits) (metis snd_conv)+
  then show ?thesis using m j by (metis converse_rtranclp_into_rtranclp r_into_rtranclp)
qed

lemma cache_steps_ok: "(cache_step J)\<^sup>*\<^sup>* c c' \<Longrightarrow> dc_ok c \<Longrightarrow> dc_ok c'"
  by (induction rule: rtranclp_induct) (auto elim!: cache_step.cases intro: Metadata_ok cache_JWKS_ok)

text \<open>
  After any lookups, and whatever the network answers, the cache gives out metadata only under
  the issuer the document itself names; and within the ten minutes of its lifetime an entry is
  given out unchanged without asking the network.
\<close>

theorem discovery_issuer_matches:
  assumes "(cache_step J)\<^sup>*\<^sup>* (NewDiscoveryCache ttl) c" and "Metadata J net c issuer now1 now2 = (Some m, c')"
  shows "Issuer m = issuer
    \<and> (\<forall>since net' t1 t2. map_of (dcMeta c') issuer = Some (m, since) \<and> t1 - since < dcTTL c' \<longrightarrow>
          Metadata J net' c' issuer t1 t2 = (Some m, c'))"
proof -
  have ok: "dc_ok c" using cache_steps_ok [OF assms(1) dc_ok_new] .
  have "Issuer m = issuer"
    using assms(2) ok
    by (auto simp: Metadata_def Let_def dc_ok_def split: option.splits if_splits dest: fetch_metadata_issuer)
  then show ?thesis by (simp add: Metadata_def)
qed

definition toy_net :: network where
  "toy_net = \<lparr>http_get = (\<lambda>u. Some (200, [])), http_post = (\<lambda>u b. Some (200, []))\<rparr>"

theorem discovery_issuer_matches_witness:
  "\<exists>c'. Metadata (toy_oidc ''n'') toy_net (NewDiscoveryCache (minutes 10)) ''https://idp'' 0 0 = (Some toy_meta, c')
    \<and> Metadata (toy_oidc ''n'') (toy_net\<lparr>http_get := (\<lambda>u. None)\<rparr>) c' ''https://idp'' 5 6 = (Some toy_meta, c')"
proof -
  have m: "Metadata (toy_oidc ''n'') toy_net (NewDiscoveryCache (minutes 10)) ''https://idp'' 0 0
      = (Some toy_meta, \<lparr>dcTTL = minutes 10, dcMeta = [(''https://idp'', (toy_meta, 0))], dcJWKS = []\<rparr>)"
    by (simp add: Metadata_def NewDiscoveryCache_def fetch_metadata_def toy_net_def toy_oidc_def toy_meta_def)
  show ?thesis using discovery_issuer_matches [OF rtranclp.rtrancl_refl m] m by (auto simp: minutes_def seconds_def)
qed

section \<open>Logins\<close>

lemma callback_session_LoggedIn:
  assumes "callback_session s st i claims relay = (OidcLoggedIn sess ck relay', st')"
  shows "relay' = relay \<and> sTenantID sess = ciTenant i \<and> sSubject sess = claims_String claims ''sub'' \<and> sSubject sess \<noteq> []
    \<and> sAuthMethod sess = ''oidc'' \<and> sExpiresAt sess = ciSession i + hours 8
    \<and> ckValue ck = sID sess \<and> (\<forall>r\<in>set (sessions st). sID r \<noteq> sID sess)
    \<and> GetSession st' (ciSession i) (sID sess) = (Inr (sess\<lparr>sAttributes := json_attrs (sAttributes sess)\<rparr>), st')
    \<and> (\<exists>u\<in>set (users st'). ur_id u = sUserID sess \<and> ur_tenant_id u = ciTenant i \<and> ur_user_name u = oidc_user_name claims)
    \<and> oidc_requests st' = oidc_requests st"
proof -
  let ?at = "mapClaims claims"
  have sub: "claims_String claims ''sub'' \<noteq> []" using assms by (auto simp: callback_session_def Let_def)
  obtain user st1 where j: "oidc_jitProvisionUser st (ciUUID i) (ciUser i) (ciTenant i) claims ?at = (Inr user, st1)"
    using assms sub by (auto simp: callback_session_def Let_def split: prod.splits sum.splits)
  define se where "se = \<lparr>sID = [], sTenantID = ciTenant i, sUserID = uID user, sSubject = claims_String claims ''sub'',
      sAttributes = put ?at ''Groups'' (AStrs (GroupsForUser st1 (ciTenant i) (uID user))), sAuthMethod = ''oidc'',
      sCreatedAt = 0, sExpiresAt = 0\<rparr>"
  have c: "CreateSession st1 (ciRandom i) (ciSession i) se (hours 8) = (Inr sess, st')" "relay' = relay" "ckValue ck = sID sess"
    using assms sub j by (auto simp: callback_session_def Let_def se_def split: prod.splits sum.splits)
  note cs = CreateSession_Inr [OF c(1)]
  note u = oidc_jit.provision_user [of st "ciUUID i" "ciUser i" "ciTenant i" "(claims, ?at)" user st1]
  obtain rows where st1: "st1 = st\<lparr>users := users st @ rows\<rparr>"
    using oidc_jit.provision_frame [of st "ciUUID i" "ciUser i" "ciTenant i" "(claims, ?at)"] j by auto
  show ?thesis
    using cs u j st1 c(2,3) sub CreateSession_then_GetSession [OF c(1), of "ciSession i"]
    by (simp add: se_def hours_def minutes_def seconds_def) auto
qed

lemma TakeOIDCRequest_Some:
  assumes "TakeOIDCRequest st now state = (Some q, st')"
  shows "oState q = state \<and> (\<exists>r\<in>set (oidc_requests st). or_request r = q \<and> now \<le> or_expires_at r)
    \<and> st' = st\<lparr>oidc_requests := filter (\<lambda>r. oState (or_request r) \<noteq> state) (oidc_requests st)\<rparr>"
  using assms by (auto simp: TakeOIDCRequest_def Let_def split: option.splits if_splits dest!: find_SomeD)

lemma cache_JWKS_cached:
  "cache_JWKS J net c issuer uri now1 now2 = (Some j, c') \<Longrightarrow> \<exists>since. map_of (dcJWKS c') issuer = Some (j, since)"
  by (auto simp: cache_JWKS_def Let_def map_of_put split: option.splits if_splits)

lemma callback_verify_Inr:
  assumes "callback_verify J s i tenant pending = (Inr claims, s')"
  shows "\<exists>tok jwks since. map_of (dcJWKS (osDiscovery s')) (tOIDCIssuer tenant) = Some (jwks, since)
    \<and> VerifyIDToken J tok jwks (tOIDCIssuer tenant) (tOIDCClientID tenant) (oNonce pending) (ciVerify i) 120 = Inr claims
    \<and> s' = s\<lparr>osDiscovery := osDiscovery s'\<rparr>"
  using assms
  by (auto simp: callback_verify_def defaultClockSkew_def split: prod.splits option.splits sum.splits
      dest!: cache_JWKS_cached)

lemma callback_LoggedIn:
  assumes "callback J s st i = (OidcLoggedIn sess ck relay, s', st')"
  obtains tenant pending st1 claims where
    "oidc_tenant s (ciTenant i) = Some tenant" "ciQuery i ''state'' \<noteq> []"
    "TakeOIDCRequest st (ciTake i) (ciQuery i ''state'') = (Some pending, st1)" "oTenantID pending = ciTenant i"
    "callback_verify J s i tenant pending = (Inr claims, s')"
    "callback_session s' st1 i claims (oRelayState pending) = (OidcLoggedIn sess ck relay, st')"
  using assms by (auto simp: callback_def split: option.splits prod.splits sum.splits if_splits)

text \<open>
  C2: An OIDC login is granted only to a tenant with an issuer, for a pending request of that very
  tenant which it consumes, on an ID token that verifies under a key the cache holds for that
  issuer, names the issuer, this client and the nonce of that request, and has a subject; the
  session belongs to that tenant, to the stored user of the tenant with the token's email (or
  subject) as its name, ends after eight hours, and the login continues with the request's relay
  state.
\<close>

theorem oidc_login_sound:
  assumes "callback J s st i = (OidcLoggedIn sess ck relay, s', st')"
  shows "\<exists>tenant r jwks since tok claims.
    map_of (osTenants s) (ciTenant i) = Some tenant \<and> tOIDCIssuer tenant \<noteq> []
    \<and> r \<in> set (oidc_requests st) \<and> oState (or_request r) = ciQuery i ''state'' \<and> oTenantID (or_request r) = ciTenant i
    \<and> ciTake i \<le> or_expires_at r \<and> relay = oRelayState (or_request r)
    \<and> (\<forall>q\<in>set (oidc_requests st'). oState (or_request q) \<noteq> ciQuery i ''state'')
    \<and> map_of (dcJWKS (osDiscovery s')) (tOIDCIssuer tenant) = Some (jwks, since)
    \<and> VerifyIDToken J tok jwks (tOIDCIssuer tenant) (tOIDCClientID tenant) (oNonce (or_request r)) (ciVerify i) 120 = Inr claims
    \<and> sTenantID sess = ciTenant i \<and> sSubject sess = claims_String claims ''sub'' \<and> sSubject sess \<noteq> []
    \<and> sAuthMethod sess = ''oidc'' \<and> sExpiresAt sess = ciSession i + hours 8 \<and> ckValue ck = sID sess
    \<and> (\<forall>q\<in>set (sessions st). sID q \<noteq> sID sess)
    \<and> GetSession st' (ciSession i) (sID sess) = (Inr (sess\<lparr>sAttributes := json_attrs (sAttributes sess)\<rparr>), st')
    \<and> (\<exists>u\<in>set (users st'). ur_id u = sUserID sess \<and> ur_tenant_id u = ciTenant i \<and> ur_user_name u = oidc_user_name claims)"
proof -
  obtain tenant pending st1 claims where
    t: "oidc_tenant s (ciTenant i) = Some tenant"
    and take: "TakeOIDCRequest st (ciTake i) (ciQuery i ''state'') = (Some pending, st1)" and ten: "oTenantID pending = ciTenant i"
    and v: "callback_verify J s i tenant pending = (Inr claims, s')"
    and c: "callback_session s' st1 i claims (oRelayState pending) = (OidcLoggedIn sess ck relay, st')"
    by (rule callback_LoggedIn [OF assms])
  have t': "map_of (osTenants s) (ciTenant i) = Some tenant" "tOIDCIssuer tenant \<noteq> []"
    using t by (auto simp: oidc_tenant_def split: option.splits if_splits)
  obtain r where r: "r \<in> set (oidc_requests st)" "or_request r = pending" "ciTake i \<le> or_expires_at r"
    and st1: "oState pending = ciQuery i ''state''" "st1 = st\<lparr>oidc_requests := filter (\<lambda>r. oState (or_request r) \<noteq> ciQuery i ''state'') (oidc_requests st)\<rparr>"
    using TakeOIDCRequest_Some [OF take] by (elim conjE bexE) (rule that)
  obtain tok jwks since where j: "map_of (dcJWKS (osDiscovery s')) (tOIDCIssuer tenant) = Some (jwks, since)"
    "VerifyIDToken J tok jwks (tOIDCIssuer tenant) (tOIDCClientID tenant) (oNonce pending) (ciVerify i) 120 = Inr claims"
    using callback_verify_Inr [OF v] by (elim exE conjE) (rule that)
  note cl = callback_session_LoggedIn [OF c]
  have gone: "\<forall>q\<in>set (oidc_requests st'). oState (or_request q) \<noteq> ciQuery i ''state''" using cl st1 by simp
  have old: "sessions st1 = sessions st" using st1(2) by simp
  note cl' = cl [unfolded old]
  show ?thesis
    by (rule exI [of _ tenant], rule exI [of _ r], rule exI [of _ jwks], rule exI [of _ since], rule exI [of _ tok],
        rule exI [of _ claims], unfold r(2), intro conjI)
       (insert t' r(1,3) ten st1(1) j cl' gone, elim conjE, assumption)+
qed

section \<open>Completeness\<close>

lemma oidc_login_Redirect:
  assumes "oidc_login J s st l = (OidcRedirect url, s1, st1)" and "map_of (osTenants s) (liTenant l) = Some tenant"
  shows "\<exists>m rs rn rv dc. tOIDCIssuer tenant \<noteq> [] \<and> s1 = s\<lparr>osDiscovery := dc\<rparr> \<and> liState l = Some rs \<and> liNonce l = Some rn \<and> liVerifier l = Some rv
    \<and> url = BuildAuthorizeURL m (tOIDCClientID tenant) (redirectURI s (liTenant l)) (rawurl_encode rs) (rawurl_encode rn)
        (PKCEChallengeS256 J (rawurl_encode rv)) defaultScopes
    \<and> oidc_put st (liPut l) (rawurl_encode rs) (liTenant l, rawurl_encode rn, rawurl_encode rv, liReturnTo l) (minutes 10) = (True, st1)"
proof -
  have t: "oidc_tenant s (liTenant l) = Some tenant" "tOIDCIssuer tenant \<noteq> []"
    using assms by (auto simp: oidc_login_def oidc_tenant_def split: option.splits if_splits)
  obtain m dc where m: "Metadata J (liNet l) (osDiscovery s) (tOIDCIssuer tenant) (liLookup l) (liFetched l) = (Some m, dc)"
    using assms(1) t by (auto simp: oidc_login_def split: prod.splits option.splits)
  obtain rs rn rv where r: "liState l = Some rs" "liNonce l = Some rn" "liVerifier l = Some rv"
    using assms(1) t m
    by (cases "liState l"; cases "liNonce l"; cases "liVerifier l")
       (auto simp: oidc_login_def GenerateState_def GeneratePKCEVerifier_def Let_def)
  show ?thesis using assms(1) t m r
    by (auto simp: oidc_login_def GenerateState_def GeneratePKCEVerifier_def Let_def oidc_put_def oidc_request_of_def redirectURI_def
        oidc_base_def split: prod.splits sum.splits)
qed

lemma oidc_provision_fresh:
  assumes "\<forall>r\<in>set (users st). ur_id r \<noteq> uuid"
  shows "\<exists>u. fst (oidc_jitProvisionUser st uuid now t claims attrs) = Inr u"
proof (cases "FindUserByUserName st t (oidc_user_name claims)")
  case (Inr u)
  then show ?thesis by (simp add: oidc_jitProvisionUser_def Let_def)
next
  case (Inl e)
  then have "e = ErrNotFound" "\<forall>r\<in>set (users st). \<not> (ur_tenant_id r = t \<and> ur_user_name r = oidc_user_name claims)"
    by (auto simp: FindUserByUserName_def find_None_iff_ball split: option.splits)
  then show ?thesis using Inl assms
    by (auto simp: oidc_jitProvisionUser_def CreateUser_def Let_def insert_row_def list_ex_iff user_clash_def user_row_of_def
        blank_user_def)
qed

lemma callback_session_completes:
  assumes "claims_String claims ''sub'' \<noteq> []"
    and "\<forall>r\<in>set (users st). ur_id r \<noteq> ciUUID i" and "ciRandom i = Some rid" and "\<forall>r\<in>set (sessions st). sID r \<noteq> rid"
  shows "\<exists>sess ck st'. callback_session s st i claims relay = (OidcLoggedIn sess ck relay, st')"
proof -
  let ?j = "oidc_jitProvisionUser st (ciUUID i) (ciUser i) (ciTenant i) claims (mapClaims claims)"
  obtain u st1 where j: "?j = (Inr u, st1)"
    using oidc_provision_fresh [OF assms(2), of "ciUser i" "ciTenant i" claims "mapClaims claims"] by (cases ?j) auto
  have "sessions st1 = sessions st"
    using oidc_jit.provision_frame [of st "ciUUID i" "ciUser i" "ciTenant i" "(claims, mapClaims claims)"] j by auto
  then show ?thesis using assms(1,3,4) j
    by (auto simp: callback_session_def Let_def CreateSession_def insert_row_def list_ex_iff)
qed

text \<open>A login whose token verifies is completed.\<close>

lemma verified_login_completes:
  assumes "store_inv st" and "oidc_login J s st l = (OidcRedirect url, s1, st1)"
    and "map_of (osTenants s) (liTenant l) = Some tenant"
    and "liState l = Some rs" and "liNonce l = Some rn" and "liVerifier l = Some rv"
    and "ciTenant i = liTenant l" and "ciQuery i ''error'' = []" and "ciQuery i ''code'' \<noteq> []"
    and "ciQuery i ''state'' = rawurl_encode rs" and "rawurl_encode rs \<noteq> []" and "ciTake i \<le> liPut l + minutes 10"
    and "Metadata J (ciNet i) (osDiscovery s1) (tOIDCIssuer tenant) (ciLookup i) (ciFetched i) = (Some m, dc)"
    and "http_post (ciNet i) (TokenEndpoint m)
           (values_Encode (token_params (tOIDCClientID tenant) (tOIDCClientSecret tenant) (redirectURI s (liTenant l))
             (ciQuery i ''code'') (rawurl_encode rv))) = Some (200, body)"
    and "ol_token J body = Some tr" and "IDToken tr \<noteq> []"
    and "cache_JWKS J (ciNet i) dc (tOIDCIssuer tenant) (JWKSURI m) (ciLookupKeys i) (ciFetchedKeys i) = (Some jwks, dc')"
    and "VerifyIDToken J (IDToken tr) jwks (tOIDCIssuer tenant) (tOIDCClientID tenant) (rawurl_encode rn) (ciVerify i) 120 = Inr claims"
    and "claims_String claims ''sub'' \<noteq> []"
    and "\<forall>r\<in>set (users st). ur_id r \<noteq> ciUUID i" and "ciRandom i = Some rid" and "\<forall>r\<in>set (sessions st). sID r \<noteq> rid"
  shows "\<exists>sess ck s2 st2. callback J s1 st1 i = (OidcLoggedIn sess ck (liReturnTo l), s2, st2)
    \<and> sSubject sess = claims_String claims ''sub''"
proof -
  obtain dc0 where l: "tOIDCIssuer tenant \<noteq> []" "s1 = s\<lparr>osDiscovery := dc0\<rparr>"
    "oidc_put st (liPut l) (rawurl_encode rs) (liTenant l, rawurl_encode rn, rawurl_encode rv, liReturnTo l) (minutes 10) = (True, st1)"
    using oidc_login_Redirect [OF assms(2,3)] assms(4-6) by auto
  have "fst (oidc_take st1 (ciTake i) (rawurl_encode rs)) = Some (liTenant l, rawurl_encode rn, rawurl_encode rv, liReturnTo l)"
    by (rule oidc.put_then_take [OF assms(1) l(3) assms(12)])
  then obtain q st2 where take: "TakeOIDCRequest st1 (ciTake i) (rawurl_encode rs) = (Some q, st2)"
    and q: "oTenantID q = liTenant l" "oNonce q = rawurl_encode rn" "oPKCEVerifier q = rawurl_encode rv" "oRelayState q = liReturnTo l"
    by (cases "TakeOIDCRequest st1 (ciTake i) (rawurl_encode rs)") (auto simp: oidc_take_def oidc_ticket_of_def)
  have ten: "oidc_tenant s1 (ciTenant i) = Some tenant" "redirectURI s1 (ciTenant i) = redirectURI s (liTenant l)"
    using assms(3,7) l(1,2) by (auto simp: oidc_tenant_def redirectURI_def oidc_base_def)
  have "callback_verify J s1 i tenant q = (Inr claims, s1\<lparr>osDiscovery := dc'\<rparr>)"
    using assms(13-18) q ten(2) by (simp add: callback_verify_def ExchangeCode_def defaultClockSkew_def)
  moreover have f: "users st2 = users st" "sessions st2 = sessions st"
    using TakeOIDCRequest_Some [OF take] l(3) by (auto simp: oidc_put_def PutOIDCRequest_def Let_def split: option.splits)
  moreover obtain sess ck st3 where c: "callback_session (s1\<lparr>osDiscovery := dc'\<rparr>) st2 i claims (liReturnTo l)
      = (OidcLoggedIn sess ck (liReturnTo l), st3)"
    using callback_session_completes [of claims st2 i rid "s1\<lparr>osDiscovery := dc'\<rparr>" "liReturnTo l"] assms(19-22) f by auto
  ultimately show ?thesis
    using callback_session_LoggedIn [OF c] assms(7-11) ten(1) take q by (simp add: callback_def)
qed


section \<open>The state is used up\<close>

lemma callback_session_requests: "oidc_requests (snd (callback_session s st i claims relay)) = oidc_requests st"
proof -
  let ?at = "mapClaims claims"
  obtain x st1 where j: "oidc_jitProvisionUser st (ciUUID i) (ciUser i) (ciTenant i) claims ?at = (x, st1)" by fastforce
  moreover have "oidc_requests st1 = oidc_requests st"
    using oidc_jit.provision_frame [of st "ciUUID i" "ciUser i" "ciTenant i" "(claims, ?at)"] j by auto
  ultimately show ?thesis
    by (auto simp: callback_session_def Let_def CreateSession_def split: sum.splits option.splits prod.splits)
qed

lemma TakeOIDCRequest_gone: "\<forall>q\<in>set (oidc_requests (snd (TakeOIDCRequest st now state))). oState (or_request q) \<noteq> state"
  by (auto simp: TakeOIDCRequest_def Let_def find_None_iff_ball split: option.splits)

lemma callback_gone:
  assumes "oidc_tenant s (ciTenant i) \<noteq> None" and "ciQuery i ''error'' = []"
    and "ciQuery i ''code'' \<noteq> []" and "ciQuery i ''state'' \<noteq> []"
  shows "\<forall>q\<in>set (oidc_requests (snd (snd (callback J s st i)))). oState (or_request q) \<noteq> ciQuery i ''state''"
proof -
  let ?t = "TakeOIDCRequest st (ciTake i) (ciQuery i ''state'')"
  have "oidc_requests (snd (snd (callback J s st i))) = oidc_requests (snd ?t)"
    using assms callback_session_requests
    by (auto simp: callback_def split: option.splits prod.splits sum.splits) (metis snd_conv)
  then show ?thesis using TakeOIDCRequest_gone by simp
qed

text \<open>
  A state is good for one callback.  Once a callback has presented it, at whatever tenant and with
  whatever outcome, no callback at any tenant logs in with it: also a callback for the wrong tenant
  uses up the login it interferes with.
\<close>

theorem oidc_state_used_up:
  assumes "oidc_tenant s (ciTenant i) \<noteq> None" and "ciQuery i ''error'' = []"
    and "ciQuery i ''code'' \<noteq> []" and "ciQuery i ''state'' \<noteq> []"
    and "callback J s st i = (r, s', st')" and "ciQuery j ''state'' = ciQuery i ''state''"
  shows "fst (callback J s'' st' j) \<noteq> OidcLoggedIn sess ck relay"
proof
  assume "fst (callback J s'' st' j) = OidcLoggedIn sess ck relay"
  then obtain s2 st2 where c: "callback J s'' st' j = (OidcLoggedIn sess ck relay, s2, st2)"
    by (cases "callback J s'' st' j") auto
  obtain tenant pending st1 claims where
    "TakeOIDCRequest st' (ciTake j) (ciQuery j ''state'') = (Some pending, st1)"
    by (rule callback_LoggedIn [OF c])
  then show False using TakeOIDCRequest_Some callback_gone [OF assms(1-4), of J st] assms(5,6) by fastforce
qed

section \<open>A sample login\<close>

definition oidc_acme :: oidc_server where
  "oidc_acme = \<lparr>osTenants = [(''acme'', \<lparr>tID = ''acme'', tName = ''Acme'', tSCIMBearerToken = [], tSAMLIdPMetadataFile = [],
       tOIDCIssuer = ''https://idp'', tOIDCClientID = ''gw'', tOIDCClientSecret = [], tBackendURL = ''http://b''\<rparr>)],
     osDiscovery = NewDiscoveryCache (minutes 10), osPublicBaseURL = Some (\<lambda>_. ''https://gw'')\<rparr>"

definition acme_start :: login_inputs where
  "acme_start = \<lparr>liTenant = ''acme'', liReturnTo = ''/home'', liState = Some ''s'', liNonce = Some ''n'', liVerifier = Some ''v'',
     liLookup = 0, liFetched = 0, liPut = 0, liNet = toy_net\<rparr>"

text \<open>A provider that checks the verifier against the challenge of the login.\<close>

definition pkce_net :: network where
  "pkce_net = \<lparr>http_get = (\<lambda>u. Some (200, [])),
     http_post = (\<lambda>u b. Some (if b = values_Encode (token_params ''gw'' [] ''https://gw/oidc/acme/callback'' ''c'' (rawurl_encode ''v''))
                            then 200 else 400, []))\<rparr>"

definition acme_return :: callback_inputs where
  "acme_return = \<lparr>ciTenant = ''acme'',
     ciQuery = (\<lambda>k. if k = ''state'' then rawurl_encode ''s'' else if k = ''code'' then ''c'' else []),
     ciTake = seconds 1, ciLookup = seconds 1, ciFetched = seconds 1, ciLookupKeys = seconds 1, ciFetchedKeys = seconds 1,
     ciVerify = seconds 1, ciUser = seconds 1, ciSession = seconds 1, ciNet = pkce_net, ciUUID = ''u-1'', ciRandom = Some ''sid-1''\<rparr>"

lemma insort_map_fst:
  "insort_key fst (fst kv, g kv) (map (\<lambda>kv. (fst kv, g kv)) xs) = map (\<lambda>kv. (fst kv, g kv)) (insort_key fst kv xs)"
  by (induction xs) auto

lemma sort_map_fst: "sort_key fst (map (\<lambda>kv. (fst kv, g kv)) xs) = map (\<lambda>kv. (fst kv, g kv)) (sort_key fst xs)"
proof (induction xs)
  case (Cons kv xs)
  then show ?case using insort_map_fst [of kv g "sort_key fst xs"] by simp
qed simp

lemma token_body_inject:
  "values_Encode (token_params ''gw'' [] ''https://gw/oidc/acme/callback'' ''c'' v)
     = values_Encode (token_params ''gw'' [] ''https://gw/oidc/acme/callback'' ''c'' w) \<longleftrightarrow> v = w"
proof -
  let ?p = "\<lambda>v. token_params ''gw'' [] ''https://gw/oidc/acme/callback'' ''c'' v"
  let ?g = "\<lambda>v kv. if fst kv = ''code_verifier'' then v else snd kv"
  have p: "?p v = map (\<lambda>kv. (fst kv, ?g v kv)) (?p [])" for v by (simp add: token_params_def)
  have s: "sort_key fst (?p []) = [(''client_id'', ''gw''), (''code'', ''c''), (''code_verifier'', []),
      (''grant_type'', ''authorization_code''), (''redirect_uri'', ''https://gw/oidc/acme/callback'')]" by code_simp
  have "sort_key fst (?p v) = [(''client_id'', ''gw''), (''code'', ''c''), (''code_verifier'', v),
      (''grant_type'', ''authorization_code''), (''redirect_uri'', ''https://gw/oidc/acme/callback'')]" for v
    unfolding p [of v] sort_map_fst s by simp
  then show ?thesis by (simp add: values_Encode_def)
qed

lemma acme_redirects: "\<exists>url. oidc_login (toy_oidc (rawurl_encode ''n'')) oidc_acme empty_store acme_start
   = (OidcRedirect url, oidc_acme\<lparr>osDiscovery := (NewDiscoveryCache (minutes 10))\<lparr>dcMeta := [(''https://idp'', (toy_meta, 0))]\<rparr>\<rparr>,
      snd (PutOIDCRequest empty_store 0 \<lparr>oState = rawurl_encode ''s'', oTenantID = ''acme'', oNonce = rawurl_encode ''n'',
        oPKCEVerifier = rawurl_encode ''v'', oRelayState = ''/home''\<rparr> (minutes 10)))"
  by (simp add: oidc_login_def oidc_tenant_def oidc_acme_def acme_start_def Metadata_def NewDiscoveryCache_def fetch_metadata_def
      toy_net_def toy_oidc_def toy_meta_def Let_def GenerateState_def GeneratePKCEVerifier_def PutOIDCRequest_def insert_row_def
      empty_store_def)

lemma toy_token_accepted_n:
  "VerifyIDToken (toy_oidc (rawurl_encode ''n'')) toy_token \<lparr>Keys = [toy_key]\<rparr> ''https://idp'' ''gw'' (rawurl_encode ''n'')
     (seconds 1) 120 = Inr (toy_claims (rawurl_encode ''n''))"
  by code_simp


abbreviation acme_pending :: OIDCRequest where
  "acme_pending \<equiv> \<lparr>oState = rawurl_encode ''s'', oTenantID = ''acme'', oNonce = rawurl_encode ''n'',
     oPKCEVerifier = rawurl_encode ''v'', oRelayState = ''/home''\<rparr>"

definition acme_pending_store :: Store where
  "acme_pending_store = snd (PutOIDCRequest empty_store 0 acme_pending (minutes 10))"

lemma acme_verified:
  "\<exists>dc. callback_verify (toy_oidc (rawurl_encode ''n'')) oidc_acme acme_return (snd (hd (osTenants oidc_acme))) acme_pending
    = (Inr (toy_claims (rawurl_encode ''n'')), oidc_acme\<lparr>osDiscovery := dc\<rparr>)"
proof -
  let ?J = "toy_oidc (rawurl_encode ''n'')" and ?dc = "NewDiscoveryCache (minutes 10)"
  let ?t = "snd (hd (osTenants oidc_acme))"
  let ?tr = "\<lparr>AccessToken = [], IDToken = toy_token, TokenType = ''Bearer'', ExpiresIn = 60\<rparr>"
  let ?dc1 = "?dc\<lparr>dcMeta := [(''https://idp'', (toy_meta, seconds 1))]\<rparr>"
  have t: "tOIDCIssuer ?t = ''https://idp''" "tOIDCClientID ?t = ''gw''" "tOIDCClientSecret ?t = []" by (simp_all add: oidc_acme_def)
  have r: "ciNet acme_return = pkce_net" "ciLookup acme_return = seconds 1" "ciFetched acme_return = seconds 1"
    "ciLookupKeys acme_return = seconds 1" "ciFetchedKeys acme_return = seconds 1" "ciVerify acme_return = seconds 1"
    "ciTenant acme_return = ''acme''" "ciQuery acme_return ''code'' = ''c''" by (simp_all add: acme_return_def)
  have s: "osDiscovery oidc_acme = ?dc" "redirectURI oidc_acme ''acme'' = ''https://gw/oidc/acme/callback''"
    by (simp_all add: oidc_acme_def redirectURI_def oidc_base_def)
  have m: "Metadata ?J pkce_net ?dc ''https://idp'' (seconds 1) (seconds 1) = (Some toy_meta, ?dc1)"
    by (simp add: Metadata_def NewDiscoveryCache_def fetch_metadata_def toy_oidc_def toy_meta_def pkce_net_def)
  have "toy_token \<noteq> []" by code_simp
  then have x: "ExchangeCode ?J pkce_net toy_meta ''gw'' [] ''https://gw/oidc/acme/callback'' ''c'' (rawurl_encode ''v'') = Some ?tr"
    by (simp add: ExchangeCode_def pkce_net_def toy_oidc_def)
  have k: "cache_JWKS ?J pkce_net ?dc1 ''https://idp'' (JWKSURI toy_meta) (seconds 1) (seconds 1)
      = (Some \<lparr>Keys = [toy_key]\<rparr>, ?dc1\<lparr>dcJWKS := [(''https://idp'', (\<lparr>Keys = [toy_key]\<rparr>, seconds 1))]\<rparr>)"
    by (simp add: cache_JWKS_def NewDiscoveryCache_def fetch_jwks_def pkce_net_def toy_oidc_def)
  show ?thesis by (simp add: callback_verify_def t r s m x k toy_token_accepted_n defaultClockSkew_def) blast
qed

lemma acme_callback:
  "\<exists>dc. callback (toy_oidc (rawurl_encode ''n'')) oidc_acme acme_pending_store acme_return =
    (case callback_session (oidc_acme\<lparr>osDiscovery := dc\<rparr>) empty_store acme_return (toy_claims (rawurl_encode ''n'')) ''/home'' of
       (r, st) \<Rightarrow> (r, oidc_acme\<lparr>osDiscovery := dc\<rparr>, st))"
proof -
  have t: "TakeOIDCRequest acme_pending_store (seconds 1) (rawurl_encode ''s'') = (Some acme_pending, empty_store)"
    by (simp add: acme_pending_store_def TakeOIDCRequest_def PutOIDCRequest_def insert_row_def empty_store_def minutes_def seconds_def)
  have ne: "rawurl_encode ''s'' \<noteq> []" by code_simp
  have q: "ciTenant acme_return = ''acme''" "ciQuery acme_return ''error'' = []" "ciQuery acme_return ''code'' = ''c''"
    "ciQuery acme_return ''state'' = rawurl_encode ''s''" "ciTake acme_return = seconds 1" by (simp_all add: acme_return_def)
  have ten: "oidc_tenant oidc_acme ''acme'' = Some (snd (hd (osTenants oidc_acme)))" by (simp add: oidc_tenant_def oidc_acme_def)
  obtain dc where "callback_verify (toy_oidc (rawurl_encode ''n'')) oidc_acme acme_return (snd (hd (osTenants oidc_acme))) acme_pending
      = (Inr (toy_claims (rawurl_encode ''n'')), oidc_acme\<lparr>osDiscovery := dc\<rparr>)" using acme_verified by blast
  then show ?thesis using t ne q ten by (intro exI [of _ dc]) (simp add: callback_def)
qed

lemma acme_logs_in:
  "\<exists>sess ck s2 st2. callback (toy_oidc (rawurl_encode ''n'')) oidc_acme acme_pending_store acme_return = (OidcLoggedIn sess ck ''/home'', s2, st2)"
proof -
  let ?c = "toy_claims (rawurl_encode ''n'')"
  obtain dc where c: "callback (toy_oidc (rawurl_encode ''n'')) oidc_acme acme_pending_store acme_return =
    (case callback_session (oidc_acme\<lparr>osDiscovery := dc\<rparr>) empty_store acme_return ?c ''/home'' of
       (r, st) \<Rightarrow> (r, oidc_acme\<lparr>osDiscovery := dc\<rparr>, st))" using acme_callback by blast
  have "claims_String ?c ''sub'' \<noteq> []" by code_simp
  then obtain sess ck st' where
    "callback_session (oidc_acme\<lparr>osDiscovery := dc\<rparr>) empty_store acme_return ?c ''/home'' = (OidcLoggedIn sess ck ''/home'', st')"
    using callback_session_completes [of ?c empty_store acme_return "''sid-1''" "oidc_acme\<lparr>osDiscovery := dc\<rparr>" "''/home''"]
    by (auto simp: acme_return_def empty_store_def)
  then show ?thesis using c by simp
qed

theorem oidc_login_sound_witness:
  "\<exists>sess ck s2 st2. callback (toy_oidc (rawurl_encode ''n'')) oidc_acme acme_pending_store acme_return = (OidcLoggedIn sess ck ''/home'', s2, st2)
    \<and> sTenantID sess = ''acme'' \<and> sAuthMethod sess = ''oidc'' \<and> sExpiresAt sess = seconds 1 + hours 8"
proof -
  obtain sess ck s2 st2 where c: "callback (toy_oidc (rawurl_encode ''n'')) oidc_acme acme_pending_store acme_return
      = (OidcLoggedIn sess ck ''/home'', s2, st2)" using acme_logs_in by blast
  have "ciTenant acme_return = ''acme''" "ciSession acme_return = seconds 1" by (simp_all add: acme_return_def)
  then show ?thesis using oidc_login_sound [OF c] c by (elim exE conjE, intro exI conjI) simp_all
qed

theorem oidc_state_used_up_witness:
  "\<exists>r s' st'. callback (toy_oidc (rawurl_encode ''n'')) oidc_acme acme_pending_store acme_return = (r, s', st')
    \<and> fst (callback (toy_oidc (rawurl_encode ''n'')) s' st' acme_return) \<noteq> r"
proof -
  obtain sess ck s2 st2 where c: "callback (toy_oidc (rawurl_encode ''n'')) oidc_acme acme_pending_store acme_return
      = (OidcLoggedIn sess ck ''/home'', s2, st2)" using acme_logs_in by blast
  have "rawurl_encode ''s'' \<noteq> []" by code_simp
  then show ?thesis
    using oidc_state_used_up [OF _ _ _ _ c, of acme_return s2 sess ck "''/home''"] c
    by (auto simp: acme_return_def oidc_tenant_def oidc_acme_def)
qed

end
