(* ===== verification/Gateway.thy ===== *)
theory Gateway
  imports Proxy SamlLaws OidcLaws
begin

text \<open>
  The gateway as one program, \<open>cmd/gateway/main.go\<close>: how the configuration becomes the servers, how the
  mux chooses a handler, and what one request does to the state all handlers share.  \<open>main.go\<close> starts
  the same gateway in its \<open>runGateway\<close>.
\<close>

section \<open>The pieces of main\<close>

text \<open>
  The resource mapper: a loop over the map of routes, whose order the language leaves open; \<open>bestLen\<close> is
  -1 as long as no prefix matches.
\<close>

definition mapper_step :: "string \<Rightarrow> string \<times> int \<Rightarrow> string \<times> string \<Rightarrow> string \<times> int" where
  "mapper_step path best route =
     (if HasPrefix path (fst route) \<and> snd best < int (length (fst route))
      then (snd route, int (length (fst route))) else best)"

definition mapper :: "(string \<times> string) list \<Rightarrow> Request \<Rightarrow> string option" where
  "mapper resourceRoutes r =
     (case foldl (mapper_step (rqPath r)) ([], - 1) resourceRoutes of
        (best, bestLen) \<Rightarrow> if bestLen < 0 then None else Some best)"

definition redirectAfterLogin :: "string \<Rightarrow> string" where
  "redirectAfterLogin relayState = (if relayState = [] then ''/'' else relayState)"

definition public_base :: "Config \<Rightarrow> string" where
  "public_base cfg =
     (let base = TrimSuffix (PublicBaseURL cfg) ''/''
      in if base = [] then ''http://localhost'' @ ListenAddr cfg else base)"

record 'u gateway =
  gwTenants :: "(string \<times> Tenant) list"
  gwStore :: Store
  gwScim :: scim_server
  gwSaml :: saml_server
  gwOidc :: oidc_server
  gwMiddleware :: Middleware
  gwProxies :: "(string \<times> 'u) list"

definition new_middleware :: "Config \<Rightarrow> Environment \<Rightarrow> Policy list \<Rightarrow> Middleware" where
  "new_middleware cfg env policies =
     \<lparr>mwPolicies = policies, mwEnvironment = env, mwResources = mapper (ResourceRoutes cfg),
      mwTrustForwardedFor = TrustForwardedForCfg cfg, mwAuditLog = True\<rparr>"

text \<open>The servers that \<open>main\<close> builds from a configuration, an environment, policies and a database.\<close>

definition new_gateway :: "Config \<Rightarrow> Environment \<Rightarrow> Policy list \<Rightarrow> Store \<Rightarrow> 'u gateway" where
  "new_gateway cfg env policies st =
     (let base = public_base cfg; publicBase = (\<lambda>tenantID. base)
      in \<lparr>gwTenants = Tenants cfg, gwStore = st,
          gwScim = \<lparr>svTenants = Tenants cfg, svPublicBaseURL = Some (\<lambda>t. publicBase t @ ''/scim/'' @ t)\<rparr>,
          gwSaml = \<lparr>ssTenants = Tenants cfg,
                    ssKeyDir = (if SAMLKeyDir cfg = [] then ''data/saml-keys'' else SAMLKeyDir cfg),
                    ssPublicBaseURL = Some publicBase, ssSPs = [], ssIdPCache = []\<rparr>,
          gwOidc = \<lparr>osTenants = Tenants cfg, osDiscovery = NewDiscoveryCache (minutes 10),
                    osPublicBaseURL = Some publicBase\<rparr>,
          gwMiddleware = new_middleware cfg env policies,
          gwProxies = []\<rparr>)"

datatype startup_error = ConfigFailed config_error | PolicyFileFailed | PoliciesFailed policy_error | StoreFailed

definition empty_environment :: Environment where
  "empty_environment = \<lparr>CIDRRanges = [], BusinessHoursOf = \<lparr>Timezone = [], Days = [], StartHour = 0, EndHour = 0\<rparr>\<rparr>"

text \<open>What \<open>main\<close> reads: the file system, the JSON decoders and the database at a path.\<close>

record startup =
  suReadFile :: "string \<Rightarrow> string option"
  suConfig :: "string \<Rightarrow> Config option"
  suEnvironment :: "string \<Rightarrow> Environment option"
  suPolicies :: "string \<Rightarrow> Policy list option"
  suOpen :: "string \<Rightarrow> Store option"

definition runGateway :: "startup \<Rightarrow> string \<Rightarrow> startup_error + 'u gateway" where
  "runGateway su configPath =
     (case Load (suReadFile su) (suConfig su) configPath of
        Inl e \<Rightarrow> Inl (ConfigFailed e)
      | Inr cfg \<Rightarrow>
          (case (if EnvironmentFile cfg = [] then Inr empty_environment
                 else LoadEnvironment (suReadFile su) (suEnvironment su) (EnvironmentFile cfg)) of
             Inl e \<Rightarrow> Inl (ConfigFailed e)
           | Inr env \<Rightarrow>
               (case suReadFile su (PolicyFile cfg) of
                  None \<Rightarrow> Inl PolicyFileFailed
                | Some b \<Rightarrow>
                    (case ParsePolicySet (suPolicies su) b of
                       Inl e \<Rightarrow> Inl (PoliciesFailed e)
                     | Inr policies \<Rightarrow>
                         (case suOpen su (DatabasePath cfg) of
                            None \<Rightarrow> Inl StoreFailed
                          | Some st \<Rightarrow> Inr (new_gateway cfg env policies st))))))"

section \<open>Routes\<close>

datatype gw_route =
    ScimR scim_route string string
  | SamlMetadataR string
  | SamlLoginR string
  | SamlAcsR string
  | OidcLoginR string
  | OidcCallbackR string
  | ApiR
  | HealthzR

text \<open>
  The patterns registered on the mux, on a clean path: a wildcard stands for one segment, which is not
  empty, and a GET pattern also serves HEAD.
\<close>

definition scim_collection :: "string \<Rightarrow> string \<Rightarrow> scim_route option" where
  "scim_collection method coll =
     (let get = method \<in> set [''GET'', ''HEAD'']
      in if coll = ''Users'' then (if get then Some ListUsersRoute else if method = ''POST'' then Some CreateUserRoute else None)
         else if coll = ''Groups'' then (if get then Some ListGroupsRoute else if method = ''POST'' then Some CreateGroupRoute else None)
         else if coll = ''ServiceProviderConfig'' then (if get then Some ServiceProviderConfigRoute else None)
         else None)"

definition scim_item :: "string \<Rightarrow> string \<Rightarrow> scim_route option" where
  "scim_item method coll =
     (let get = method \<in> set [''GET'', ''HEAD'']
      in if coll = ''Users'' then
           (if get then Some GetUserRoute else if method = ''PUT'' then Some ReplaceUserRoute
            else if method = ''PATCH'' then Some PatchUserRoute else if method = ''DELETE'' then Some DeleteUserRoute else None)
         else if coll = ''Groups'' then
           (if get then Some GetGroupRoute else if method = ''PUT'' then Some ReplaceGroupRoute
            else if method = ''PATCH'' then Some PatchGroupRoute else if method = ''DELETE'' then Some DeleteGroupRoute else None)
         else None)"

definition login_route :: "string \<Rightarrow> string \<Rightarrow> string \<Rightarrow> string \<Rightarrow> gw_route option" where
  "login_route method proto t endpoint =
     (let get = method \<in> set [''GET'', ''HEAD'']
      in if t = [] then None
         else if proto = ''saml'' then
           (if endpoint = ''metadata'' \<and> get then Some (SamlMetadataR t)
            else if endpoint = ''login'' \<and> get then Some (SamlLoginR t)
            else if endpoint = ''acs'' \<and> method = ''POST'' then Some (SamlAcsR t) else None)
         else if proto = ''oidc'' then
           (if endpoint = ''login'' \<and> get then Some (OidcLoginR t)
            else if endpoint = ''callback'' \<and> get then Some (OidcCallbackR t) else None)
         else None)"

definition mux :: "string \<Rightarrow> string \<Rightarrow> gw_route option" where
  "mux method path =
     (if HasPrefix path ''/api/'' then Some ApiR
      else if path = ''/healthz'' then (if method \<in> set [''GET'', ''HEAD''] then Some HealthzR else None)
      else (case Split path CHR ''/'' of
              [r, a, t, v, coll] \<Rightarrow>
                (if r = [] \<and> a = ''scim'' \<and> t \<noteq> [] \<and> v = ''v2''
                 then map_option (\<lambda>q. ScimR q t []) (scim_collection method coll) else None)
            | [r, a, t, v, coll, i] \<Rightarrow>
                (if r = [] \<and> a = ''scim'' \<and> t \<noteq> [] \<and> v = ''v2'' \<and> i \<noteq> []
                 then map_option (\<lambda>q. ScimR q t i) (scim_item method coll) else None)
            | [r, a, t, b] \<Rightarrow> (if r = [] then login_route method a t b else None)
            | _ \<Rightarrow> None))"

section \<open>One request\<close>

text \<open>
  A request, and what its handler reads beside it: the decoded body and query of the SCIM and login
  endpoints, the clock, random values and the network.
\<close>

record gw_request =
  gqHttp :: Request
  gqScim :: scim_request
  gqAcs :: acs_inputs
  gqOidcLogin :: login_inputs
  gqCallback :: callback_inputs
  gqReturnTo :: string
  gqUUID :: string
  gqNow :: instant
  gqNow2 :: instant
  gqNow3 :: instant

datatype 'u gw_reply =
    GwStatus nat string
  | GwScim scim_response
  | GwMetadata string
  | GwRedirect string
  | GwLogin Session Cookie string
  | GwBackend 'u Request

record 'u gwlib =
  glGo :: golib
  glSaml :: samllib
  glSp :: splib
  glOidc :: oidclib
  glURL :: "string \<Rightarrow> 'u option"

fun saml_gw_reply :: "saml_reply \<Rightarrow> 'u gw_reply" where
  "saml_gw_reply (Failed code msg) = GwStatus code msg"
| "saml_gw_reply (MetadataReply b) = GwMetadata b"
| "saml_gw_reply (RedirectTo u) = GwRedirect u"

fun acs_gw_reply :: "acs_result \<Rightarrow> 'u gw_reply" where
  "acs_gw_reply (AcsFailed code msg) = GwStatus code msg"
| "acs_gw_reply (AcsLoggedIn sess ck relayState) = GwLogin sess ck (redirectAfterLogin relayState)"

fun oidc_gw_reply :: "oidc_reply \<Rightarrow> 'u gw_reply" where
  "oidc_gw_reply (OidcFailed code msg) = GwStatus code msg"
| "oidc_gw_reply (OidcRedirect u) = GwRedirect u"
| "oidc_gw_reply (OidcLoggedIn sess ck relayState) = GwLogin sess ck (redirectAfterLogin relayState)"

fun proxy_gw_reply :: "'u proxy_result \<Rightarrow> 'u gw_reply" where
  "proxy_gw_reply (ProxyReply code msg) = GwStatus code msg"
| "proxy_gw_reply (Outgoing u r) = GwBackend u r"

fun gw_handle :: "'u gwlib \<Rightarrow> 'u gateway \<Rightarrow> gw_route \<Rightarrow> gw_request \<Rightarrow> 'u gw_reply \<times> 'u gateway" where
  "gw_handle G g (ScimR route t i) q =
     (case authenticate (glGo G) (gwScim g) (gwStore g) (gqUUID q) (gqNow q) route
             ((gqScim q)\<lparr>sqTenant := t, sqID := i, sqHeader := rqHeader (gqHttp q)\<rparr>) of
        (r, st) \<Rightarrow> (GwScim r, g\<lparr>gwStore := st\<rparr>))"
| "gw_handle G g (SamlMetadataR t) q =
     (case saml_metadata (glSp G) (gwSaml g) t of (r, s) \<Rightarrow> (saml_gw_reply r, g\<lparr>gwSaml := s\<rparr>))"
| "gw_handle G g (SamlLoginR t) q =
     (case saml_login (glSaml G) (glSp G) (gwSaml g) (gwStore g) (gqUUID q) (gqNow q) (gqNow2 q) t (gqReturnTo q) of
        (r, s, st) \<Rightarrow> (saml_gw_reply r, g\<lparr>gwSaml := s, gwStore := st\<rparr>))"
| "gw_handle G g (SamlAcsR t) q =
     (case acs (glSaml G) (glSp G) (gwSaml g) (gwStore g) ((gqAcs q)\<lparr>inTenant := t\<rparr>) of
        (r, s, st) \<Rightarrow> (acs_gw_reply r, g\<lparr>gwSaml := s, gwStore := st\<rparr>))"
| "gw_handle G g (OidcLoginR t) q =
     (case oidc_login (glOidc G) (gwOidc g) (gwStore g) ((gqOidcLogin q)\<lparr>liTenant := t, liReturnTo := gqReturnTo q\<rparr>) of
        (r, s, st) \<Rightarrow> (oidc_gw_reply r, g\<lparr>gwOidc := s, gwStore := st\<rparr>))"
| "gw_handle G g (OidcCallbackR t) q =
     (case callback (glOidc G) (gwOidc g) (gwStore g) ((gqCallback q)\<lparr>ciTenant := t\<rparr>) of
        (r, s, st) \<Rightarrow> (oidc_gw_reply r, g\<lparr>gwOidc := s, gwStore := st\<rparr>))"
| "gw_handle G g ApiR q =
     (case api_Handler (glGo G) (glURL G) (gwMiddleware g) (gwTenants g) (gwStore g) (gwProxies g)
             (gqNow q) (gqNow2 q) (gqNow3 q) (gqHttp q) of
        (r, st, proxies) \<Rightarrow> (proxy_gw_reply r, g\<lparr>gwStore := st, gwProxies := proxies\<rparr>))"
| "gw_handle G g HealthzR q = (GwStatus 200 ''ok'', g)"

text \<open>
  A path that no pattern matches: the subtree \<open>/api/\<close> makes the mux send \<open>/api\<close> there, and a path that has a
  pattern for another method is answered with 405.
\<close>

definition serve :: "'u gwlib \<Rightarrow> 'u gateway \<Rightarrow> gw_request \<Rightarrow> 'u gw_reply \<times> 'u gateway" where
  "serve G g q =
     (case mux (rqMethod (gqHttp q)) (rqPath (gqHttp q)) of
        None \<Rightarrow>
          if rqPath (gqHttp q) = ''/api'' then (GwStatus 301 ''/api/'', g)
          else if list_ex (\<lambda>m. mux m (rqPath (gqHttp q)) \<noteq> None) [''GET'', ''POST'', ''PUT'', ''PATCH'', ''DELETE'']
          then (GwStatus 405 ''Method Not Allowed'', g) else (GwStatus 404 ''404 page not found'', g)
      | Some route \<Rightarrow> gw_handle G g route q)"

end
