(* ===== verification/GatewayLaws.thy ===== *)
theory GatewayLaws
  imports Gateway
begin

text \<open>
  Properties of the whole gateway: the routing of resources and the invariants of the state over any
  run of requests, up to the claim that nothing reaches a backend without an earlier login.
\<close>

section \<open>The resource mapper\<close>

text \<open>The loop keeps the longest prefix among the routes it has seen.\<close>

definition best_route :: "string \<Rightarrow> (string \<times> string) list \<Rightarrow> string \<Rightarrow> int \<Rightarrow> bool" where
  "best_route path routes best n \<longleftrightarrow>
     (n < 0 \<longrightarrow> n = - 1 \<and> (\<forall>(p, res)\<in>set routes. \<not> HasPrefix path p))
     \<and> (0 \<le> n \<longrightarrow> (\<exists>p. (p, best) \<in> set routes \<and> HasPrefix path p \<and> n = int (length p))
          \<and> (\<forall>(p, res)\<in>set routes. HasPrefix path p \<longrightarrow> int (length p) \<le> n))"

lemma best_route_step:
  assumes "best_route path routes best n"
  shows "best_route path (routes @ [(p, res)]) (fst (mapper_step path (best, n) (p, res))) (snd (mapper_step path (best, n) (p, res)))"
proof (cases "HasPrefix path p \<and> n < int (length p)")
  case True
  then have "int (length q) \<le> int (length p)" if "(q, res') \<in> set routes" "HasPrefix path q" for q res'
    using assms that by (cases "n < 0") (fastforce simp: best_route_def)+
  then show ?thesis using True by (auto simp: best_route_def mapper_step_def)
next
  case False
  then show ?thesis using assms by (auto simp: best_route_def mapper_step_def)
qed

lemma mapper_fold: "case foldl (mapper_step path) ([], - 1) routes of (best, n) \<Rightarrow> best_route path routes best n"
proof (induction routes rule: rev_induct)
  case Nil
  show ?case by (simp add: best_route_def)
next
  case (snoc route routes)
  obtain best n where f: "foldl (mapper_step path) ([], - 1) routes = (best, n)" by fastforce
  with snoc best_route_step [of path routes best n "fst route" "snd route"]
  show ?case by (simp add: case_prod_beta)
qed

lemma HasPrefix_same_length: "HasPrefix s p \<Longrightarrow> HasPrefix s q \<Longrightarrow> length p = length q \<Longrightarrow> p = q"
  by (auto simp: HasPrefix_def prefix_def dest: append_eq_append_conv [THEN iffD1, rotated])

lemma mapper_None: "mapper routes r = None \<longleftrightarrow> (\<forall>(p, res)\<in>set routes. \<not> HasPrefix (rqPath r) p)"
proof -
  obtain best n where f: "foldl (mapper_step (rqPath r)) ([], - 1) routes = (best, n)" by fastforce
  show ?thesis using mapper_fold [of "rqPath r" routes, unfolded best_route_def] f
    by (cases "n < 0") (auto simp: mapper_def)
qed

lemma mapper_Some:
  assumes "distinct (map fst routes)"
  shows "mapper routes r = Some res \<longleftrightarrow>
    (\<exists>p. (p, res) \<in> set routes \<and> HasPrefix (rqPath r) p
       \<and> (\<forall>(p', res')\<in>set routes. HasPrefix (rqPath r) p' \<longrightarrow> length p' \<le> length p))"
    (is "?l \<longleftrightarrow> ?r")
proof -
  obtain best n where f: "foldl (mapper_step (rqPath r)) ([], - 1) routes = (best, n)" by fastforce
  note inv = mapper_fold [of "rqPath r" routes, unfolded f prod.case best_route_def]
  show ?thesis
  proof (cases "n < 0")
    case True
    then show ?thesis using inv f by (auto simp: mapper_def)
  next
    case False
    then obtain p where p: "(p, best) \<in> set routes" "HasPrefix (rqPath r) p" "n = int (length p)"
      and mx: "\<forall>(q, res)\<in>set routes. HasPrefix (rqPath r) q \<longrightarrow> int (length q) \<le> n" using inv by auto
    have m: "mapper routes r = Some best" using f False by (simp add: mapper_def)
    have "q = p" if "(q, res') \<in> set routes" "HasPrefix (rqPath r) q"
      "\<forall>(p', r')\<in>set routes. HasPrefix (rqPath r) p' \<longrightarrow> length p' \<le> length q" for q res'
    proof -
      have "length p \<le> length q" "length q \<le> length p" using that p mx by fastforce+
      then show ?thesis using HasPrefix_same_length that(2) p(2) by auto
    qed
    note uniq = this
    show ?thesis
    proof
      assume ?l
      then have "res = best" using m by simp
      then show ?r using p mx by auto
    next
      assume ?r
      then obtain q where q: "(q, res) \<in> set routes" "HasPrefix (rqPath r) q"
        "\<forall>(p', r')\<in>set routes. HasPrefix (rqPath r) p' \<longrightarrow> length p' \<le> length q" by blast
      then have "(p, res) \<in> set routes" using uniq by blast
      then have "res = best" using p(1) assms by (metis eq_key_imp_eq_value)
      then show ?l using m by simp
    qed
  qed
qed

text \<open>
  C32: the resource of a path under the API is the one configured for the longest route that is a prefix of
  it, whatever the order in which the map of routes is walked; a path no route covers has no resource.
\<close>

theorem mapper_longest_prefix:
  assumes "distinct (map fst routes)" and "distinct (map fst routes')" and "set routes' = set routes"
  shows "mapper routes r = mapper routes' r
    \<and> (mapper routes r = None \<longleftrightarrow> (\<forall>(p, res)\<in>set routes. \<not> HasPrefix (rqPath r) p))
    \<and> (\<forall>res. mapper routes r = Some res \<longleftrightarrow>
         (\<exists>p. (p, res) \<in> set routes \<and> HasPrefix (rqPath r) p
            \<and> (\<forall>(p', res')\<in>set routes. HasPrefix (rqPath r) p' \<longrightarrow> length p' \<le> length p)))"
proof (intro conjI allI)
  have "mapper routes r = Some res \<longleftrightarrow> mapper routes' r = Some res" for res
    using assms by (simp add: mapper_Some)
  then show "mapper routes r = mapper routes' r" by (metis option.exhaust)
qed (simp_all add: mapper_None mapper_Some assms)

section \<open>What a request does to the database\<close>

text \<open>Every handler writes to the database only through its operations.\<close>

abbreviation store_steps :: "Store \<Rightarrow> Store \<Rightarrow> bool" where
  "store_steps \<equiv> store_step\<^sup>*\<^sup>*"

lemma steps_refl [intro]: "store_steps st st"
  by (rule rtranclp.rtrancl_refl)

lemma step_steps: "store_step st st' \<Longrightarrow> store_steps st st'"
  by (rule r_into_rtranclp)

lemma steps_reachable: "store_steps st st' \<Longrightarrow> reachable_store st \<Longrightarrow> reachable_store st'"
  by (induction rule: rtranclp_induct) (auto intro: reachable_store.stepped)

lemma steps_inv: "store_steps st st' \<Longrightarrow> store_inv st \<Longrightarrow> store_inv st'"
  by (induction rule: rtranclp_induct) (auto intro: store_step_inv)

lemma snd_finish_user: "snd (finish_user L s st now u t) = snd (ReplaceUser st now u)"
  by (simp add: finish_user_def split: prod.splits sum.splits)

lemma snd_finish_group: "snd (finish_group L s st now g t) = snd (ReplaceGroup st now g)"
  by (simp add: finish_group_def split: prod.splits sum.splits)

lemma scim_handlers:
  obtains "snd (scim_dispatch L s st uuid now route r t) = st"
  | u where "snd (scim_dispatch L s st uuid now route r t) = snd (CreateUser st uuid now u)"
  | u where "snd (scim_dispatch L s st uuid now route r t) = snd (ReplaceUser st now u)"
  | i where "snd (scim_dispatch L s st uuid now route r t) = snd (DeleteUser st t i)"
  | g where "snd (scim_dispatch L s st uuid now route r t) = snd (CreateGroup st uuid now g)"
  | g where "snd (scim_dispatch L s st uuid now route r t) = snd (ReplaceGroup st now g)"
  | i where "snd (scim_dispatch L s st uuid now route r t) = snd (DeleteGroup st t i)"
proof (cases route)
  case CreateUserRoute
  then show ?thesis using snd_createUser [of L s st uuid now r t] that(1,2) by auto
next
  case ReplaceUserRoute
  then show ?thesis using snd_replaceUser [of L s st now r t] that(1,3) by (auto simp: snd_finish_user)
next
  case PatchUserRoute
  then show ?thesis using snd_patchUser [of L s st now r t] that(1,3) by (auto simp: snd_finish_user)
next
  case CreateGroupRoute
  then show ?thesis using snd_createGroup [of L s st uuid now r t] that(1,5) by auto
next
  case ReplaceGroupRoute
  then show ?thesis using snd_replaceGroup [of L s st now r t] that(1,6) by (auto simp: snd_finish_group)
next
  case PatchGroupRoute
  then show ?thesis using snd_patchGroup [of L s st now r t] that(1,6) by (auto simp: snd_finish_group)
next
  case DeleteUserRoute
  then show ?thesis using that(4) by (simp add: snd_deleteUser)
next
  case DeleteGroupRoute
  then show ?thesis using that(7) by (simp add: snd_deleteGroup)
qed (use that(1) in simp_all)

lemma snd_authenticate:
  "snd (authenticate L s st uuid now route r) = st
   \<or> snd (authenticate L s st uuid now route r) = snd (scim_dispatch L s st uuid now route r (sqTenant r))"
  by (auto simp: authenticate_def Let_def split: option.splits)

lemma scim_steps: "store_steps st (snd (authenticate L s st uuid now route r))"
proof -
  have "store_steps st (snd (scim_dispatch L s st uuid now route r (sqTenant r)))"
    by (rule scim_handlers [of L s st uuid now route r "sqTenant r"])
       (auto simp: intro!: step_steps intro: store_step.intros)
  then show ?thesis using snd_authenticate [of L s st uuid now route r] by auto
qed

lemma directory_sessions:
  "sessions (snd (CreateUser st uuid now u)) = sessions st"
  "sessions (snd (ReplaceUser st now u)) = sessions st"
  "sessions (snd (DeleteUser st t i)) = sessions st"
  "sessions (snd (CreateGroup st uuid now g)) = sessions st"
  "sessions (snd (ReplaceGroup st now g)) = sessions st"
  "sessions (snd (DeleteGroup st t i)) = sessions st"
  by (auto simp: CreateUser_def ReplaceUser_def DeleteUser_def CreateGroup_def ReplaceGroup_def DeleteGroup_def Let_def
      split: option.splits)

lemma scim_sessions: "sessions (snd (authenticate L s st uuid now route r)) = sessions st"
proof -
  have "sessions (snd (scim_dispatch L s st uuid now route r (sqTenant r))) = sessions st"
    by (rule scim_handlers [of L s st uuid now route r "sqTenant r"]) (simp_all add: directory_sessions)
  then show ?thesis using snd_authenticate [of L s st uuid now route r] by auto
qed

text \<open>The session as the database holds it.\<close>

definition stored :: "Session \<Rightarrow> Session" where
  "stored sess = sess\<lparr>sAttributes := json_attrs (sAttributes sess)\<rparr>"

definition issued_by_acs :: "acs_result \<Rightarrow> Session list" where
  "issued_by_acs r = (case r of AcsLoggedIn sess ck relay \<Rightarrow> [stored sess] | AcsFailed _ _ \<Rightarrow> [])"

definition issued_by_callback :: "oidc_reply \<Rightarrow> Session list" where
  "issued_by_callback r = (case r of OidcLoggedIn sess ck relay \<Rightarrow> [stored sess] | _ \<Rightarrow> [])"

lemma CreateSession_Inl: "CreateSession st rnd now sess ttl = (Inl e, st') \<Longrightarrow> st' = st"
  by (auto simp: CreateSession_def Let_def split: option.splits)

lemma issue_session:
  assumes "CreateSession st rnd now sess ttl = (r, st')"
  shows "store_step st st'" and "sessions st' = sessions st @ (case r of Inr sess' \<Rightarrow> [stored sess'] | Inl e \<Rightarrow> [])"
proof -
  show "store_step st st'" using store_step.create_session [of st rnd now sess ttl] assms by simp
  show "sessions st' = sessions st @ (case r of Inr sess' \<Rightarrow> [stored sess'] | Inl e \<Rightarrow> [])"
    using assms CreateSession_Inr [of st rnd now sess ttl] CreateSession_Inl [of st rnd now sess ttl]
    by (cases r) (auto simp: stored_def)
qed

context provisioning
begin

lemma provision_steps: "store_steps st (snd (provision st uuid now t c))"
  by (cases rule: cases_of_provision [of st t c uuid now]) (auto intro: step_steps store_step.create_user)

lemma provision_sessions: "sessions (snd (provision st uuid now t c)) = sessions st"
  using provision_frame [of st uuid now t c] by auto

end

lemma acs_session_effect:
  assumes "acs_session s st c a relay = (r, st')"
  shows "store_steps st st'" and "sessions st' = sessions st @ issued_by_acs r"
proof -
  let ?at = "mapAssertionAttributes a"
  obtain x st1 where j: "jitProvisionUser st (inUUID c) (inUser c) (inTenant c) a ?at = (x, st1)" by fastforce
  have p: "store_steps st st1" "sessions st1 = sessions st"
    using saml_jit.provision_steps [of st "inUUID c" "inUser c" "inTenant c" "(a, ?at)"]
      saml_jit.provision_sessions [of st "inUUID c" "inUser c" "inTenant c" "(a, ?at)"] j by simp_all
  have "store_steps st st' \<and> sessions st' = sessions st @ issued_by_acs r"
  proof (cases x)
    case (Inl e)
    then show ?thesis using assms p j by (auto simp: acs_session_def issued_by_acs_def)
  next
    case (Inr user)
    define se where "se = \<lparr>sID = [], sTenantID = inTenant c, sUserID = uID user, sSubject = aNameID a,
      sAttributes = put ?at ''Groups'' (AStrs (GroupsForUser st1 (inTenant c) (uID user))), sAuthMethod = ''saml'',
      sCreatedAt = 0, sExpiresAt = 0\<rparr>"
    obtain y st2 where y: "CreateSession st1 (inRandom c) (inSession c) se (hours 8) = (y, st2)" by fastforce
    note new = issue_session [OF y]
    have "store_steps st st2" using p(1) new(1) by (rule rtranclp.rtrancl_into_rtrancl)
    then show ?thesis using assms j Inr y new(2) p(2)
      by (cases y) (auto simp: acs_session_def Let_def se_def issued_by_acs_def)
  qed
  then show "store_steps st st'" and "sessions st' = sessions st @ issued_by_acs r" by simp_all
qed

lemma MarkAssertionUsed_sessions: "sessions (snd (MarkAssertionUsed st now t i e)) = sessions st"
  by (auto simp: MarkAssertionUsed_def Let_def split: option.splits)

lemma acs_accept_effect:
  assumes "acs_accept s st c a = (r, st')"
  shows "store_steps st st'" and "sessions st' = sessions st @ issued_by_acs r"
proof -
  let ?m = "MarkAssertionUsed st (inMark c) (inTenant c) (aAssertionID a)
      (if aNotOnOrAfter a = zero_time then inMark c + hours 24 else aNotOnOrAfter a)"
  let ?t = "TakeSAMLRequest (snd ?m) (inTake c) (aInResponseTo a) (inTenant c)"
  have m: "store_steps st (snd ?m)" "sessions (snd ?m) = sessions st"
    by (auto intro: step_steps store_step.mark_assertion simp: MarkAssertionUsed_sessions)
  have t: "store_steps st (snd ?t)" "sessions (snd ?t) = sessions st"
    using m TakeSAMLRequest_frame [of "snd ?m" "inTake c" "aInResponseTo a" "inTenant c"]
    by (auto intro: rtranclp.rtrancl_into_rtrancl store_step.take_saml)
  have e: "store_steps st st1 \<and> sessions st1 = sessions st @ issued_by_acs r1"
    if "acs_session s (snd ?t) c a relay = (r1, st1)" for relay r1 st1
    using acs_session_effect [OF that] t by auto
  have "store_steps st st' \<and> sessions st' = sessions st @ issued_by_acs r"
  proof (cases "aAssertionID a = [] \<or> fst ?m \<or> aInResponseTo a \<noteq> [] \<and> fst ?t = None")
    case True
    then show ?thesis using assms m t
      by (auto simp: acs_accept_def Let_def issued_by_acs_def split: if_splits prod.splits bool.splits)
  next
    case False
    obtain st1 where s1: "?m = (False, st1)" using False by (cases ?m) auto
    have "\<exists>relay. acs_session s (snd ?t) c a relay = (r, st')"
      using assms False s1 by (auto simp: acs_accept_def Let_def split: if_splits prod.splits)
    then show ?thesis using e by blast
  qed
  then show "store_steps st st'" and "sessions st' = sessions st @ issued_by_acs r" by simp_all
qed

lemma acs_cases:
  assumes "acs S P s st c = (r, s', st')"
  obtains "st' = st" "issued_by_acs r = []" | s1 a where "acs_accept s1 st c a = (r, st')"
  using assms by (auto simp: acs_def issued_by_acs_def split: option.splits prod.splits if_splits)

lemma acs_effect:
  assumes "acs S P s st c = (r, s', st')"
  shows "store_steps st st'" and "sessions st' = sessions st @ issued_by_acs r"
  by (rule acs_cases [OF assms]; use acs_accept_effect in auto)+

lemma saml_login_effect:
  assumes "saml_login S P s st uuid now1 now2 t returnTo = (r, s', st')"
  shows "store_steps st st'" and "sessions st' = sessions st"
proof -
  have frame: "sessions (snd (PutSAMLRequest st now i t rs ttl)) = sessions st" for now i t rs ttl
    by (auto simp: PutSAMLRequest_def Let_def split: option.splits)
  have "st' = st \<or> (\<exists>now i rs ttl. st' = snd (PutSAMLRequest st now i t rs ttl))"
    using assms by (auto simp: saml_login_def split: option.splits prod.splits sum.splits) (metis snd_conv)+
  then show "store_steps st st'" and "sessions st' = sessions st"
    using frame by (auto intro: step_steps store_step.put_saml)
qed

lemma callback_session_effect:
  assumes "callback_session s st i claims relay = (r, st')"
  shows "store_steps st st'" and "sessions st' = sessions st @ issued_by_callback r"
proof -
  let ?at = "mapClaims claims"
  obtain x st1 where j: "oidc_jitProvisionUser st (ciUUID i) (ciUser i) (ciTenant i) claims ?at = (x, st1)" by fastforce
  have p: "store_steps st st1" "sessions st1 = sessions st"
    using oidc_jit.provision_steps [of st "ciUUID i" "ciUser i" "ciTenant i" "(claims, ?at)"]
      oidc_jit.provision_sessions [of st "ciUUID i" "ciUser i" "ciTenant i" "(claims, ?at)"] j by simp_all
  have "store_steps st st' \<and> sessions st' = sessions st @ issued_by_callback r"
  proof (cases "claims_String claims ''sub'' = []")
    case True
    then show ?thesis using assms by (auto simp: callback_session_def Let_def issued_by_callback_def)
  next
    case sub: False
    show ?thesis
    proof (cases x)
      case (Inl e)
      then show ?thesis using assms p j sub by (auto simp: callback_session_def Let_def issued_by_callback_def)
    next
      case (Inr user)
      define se where "se = \<lparr>sID = [], sTenantID = ciTenant i, sUserID = uID user, sSubject = claims_String claims ''sub'',
        sAttributes = put ?at ''Groups'' (AStrs (GroupsForUser st1 (ciTenant i) (uID user))), sAuthMethod = ''oidc'',
        sCreatedAt = 0, sExpiresAt = 0\<rparr>"
      obtain y st2 where y: "CreateSession st1 (ciRandom i) (ciSession i) se (hours 8) = (y, st2)" by fastforce
      note new = issue_session [OF y]
      have "store_steps st st2" using p(1) new(1) by (rule rtranclp.rtrancl_into_rtrancl)
      then show ?thesis using assms sub j Inr y new(2) p(2)
        by (cases y) (auto simp: callback_session_def Let_def se_def issued_by_callback_def)
    qed
  qed
  then show "store_steps st st'" and "sessions st' = sessions st @ issued_by_callback r" by simp_all
qed

lemma TakeOIDCRequest_sessions: "sessions (snd (TakeOIDCRequest st now state)) = sessions st"
  by (auto simp: TakeOIDCRequest_def Let_def split: option.splits)

lemma callback_cases:
  assumes "callback J s st i = (r, s', st')"
  obtains "st' = st" "issued_by_callback r = []"
  | "st' = snd (TakeOIDCRequest st (ciTake i) (ciQuery i ''state''))" "issued_by_callback r = []"
  | s1 claims relay where
      "callback_session s1 (snd (TakeOIDCRequest st (ciTake i) (ciQuery i ''state''))) i claims relay = (r, st')"
  using assms
  by (auto simp: callback_def issued_by_callback_def split: option.splits prod.splits sum.splits if_splits)

lemma callback_effect:
  assumes "callback J s st i = (r, s', st')"
  shows "store_steps st st'" and "sessions st' = sessions st @ issued_by_callback r"
proof -
  have t: "store_step st (snd (TakeOIDCRequest st now state))" for now state by (rule store_step.take_oidc)
  have "store_steps st st'" if "callback_session s1 (snd (TakeOIDCRequest st now state)) i claims relay = (r, st')"
    for s1 now state claims relay
    using callback_session_effect(1) [OF that] t by (metis converse_rtranclp_into_rtranclp)
  note session = this
  show "store_steps st st'"
    by (rule callback_cases [OF assms], blast, use t step_steps in blast, rule session)
  show "sessions st' = sessions st @ issued_by_callback r"
    by (rule callback_cases [OF assms]) (use callback_session_effect(2) TakeOIDCRequest_sessions in auto)
qed

lemma oidc_login_effect:
  assumes "oidc_login J s st l = (r, s', st')"
  shows "store_steps st st'" and "sessions st' = sessions st"
proof -
  have frame: "sessions (snd (PutOIDCRequest st now q ttl)) = sessions st" for now q ttl
    by (auto simp: PutOIDCRequest_def Let_def split: option.splits)
  have "st' = st \<or> (\<exists>now q ttl. st' = snd (PutOIDCRequest st now q ttl))"
    using assms by (auto simp: oidc_login_def Let_def split: option.splits prod.splits sum.splits) (metis snd_conv)+
  then show "store_steps st st'" and "sessions st' = sessions st"
    using frame by (auto intro: step_steps store_step.put_oidc)
qed

lemma api_effect:
  assumes "api_Handler L url_parse m tenants st proxies t1 t2 t3 r = (res, st', proxies')"
  shows "store_steps st st'" and "set (sessions st') \<subseteq> set (sessions st)"
    and "proxies_ok url_parse tenants proxies \<Longrightarrow> proxies_ok url_parse tenants proxies'"
proof -
  have "st' = st \<or> (\<exists>c. st' = snd (GetSession st t1 c))"
    using assms
    by (auto simp: api_Handler_def Enforce_def SessionFrom_def Let_def split: option.splits prod.splits sum.splits if_splits)
       (metis snd_conv)+
  moreover have "set (sessions (snd (GetSession st t1 c))) \<subseteq> set (sessions st)" for c
    by (auto simp: GetSession_def DeleteSession_def split: option.splits)
  ultimately show "store_steps st st'" and "set (sessions st') \<subseteq> set (sessions st)"
    by (auto intro: step_steps store_step.get_session)
  show "proxies_ok url_parse tenants proxies \<Longrightarrow> proxies_ok url_parse tenants proxies'"
    using assms router_Handler_ok [of url_parse tenants proxies]
    by (auto simp: api_Handler_def split: prod.splits enforce_result.splits) (metis snd_conv)+
qed

section \<open>Runs\<close>

text \<open>A run of the gateway: requests in the order they are handled, with the answers.\<close>

inductive gw_run :: "'u gwlib \<Rightarrow> 'u gateway \<Rightarrow> (gw_request \<times> 'u gw_reply) list \<Rightarrow> 'u gateway \<Rightarrow> bool" for G g0 where
  gw_start: "gw_run G g0 [] g0"
| gw_serve: "gw_run G g0 evs g \<Longrightarrow> serve G g q = (r, g') \<Longrightarrow> gw_run G g0 (evs @ [(q, r)]) g'"

definition issued :: "'u gw_reply \<Rightarrow> Session set" where
  "issued r = (case r of GwLogin sess ck to \<Rightarrow> {stored sess} | _ \<Rightarrow> {})"

lemma issued_simps [simp]:
  "issued (GwStatus code msg) = {}" "issued (GwScim q) = {}"
  "issued (acs_gw_reply a) = set (issued_by_acs a)" "issued (oidc_gw_reply o') = set (issued_by_callback o')"
  by (simp_all add: issued_def)
     (cases a; cases o'; simp add: issued_by_acs_def issued_by_callback_def)+

text \<open>What no request changes: the configuration the handlers were built from.\<close>

definition same_setup :: "'u gateway \<Rightarrow> 'u gateway \<Rightarrow> bool" where
  "same_setup g g' \<longleftrightarrow> gwTenants g' = gwTenants g \<and> gwScim g' = gwScim g \<and> gwMiddleware g' = gwMiddleware g
     \<and> ssTenants (gwSaml g') = ssTenants (gwSaml g) \<and> ssPublicBaseURL (gwSaml g') = ssPublicBaseURL (gwSaml g)
     \<and> osTenants (gwOidc g') = osTenants (gwOidc g) \<and> osPublicBaseURL (gwOidc g') = osPublicBaseURL (gwOidc g)"

definition caches_ok :: "'u gwlib \<Rightarrow> 'u gateway \<Rightarrow> bool" where
  "caches_ok G g \<longleftrightarrow> sps_ok (gwSaml g) \<and> dc_ok (osDiscovery (gwOidc g)) \<and> proxies_ok (glURL G) (gwTenants g) (gwProxies g)"

lemma spFor_base: "ssPublicBaseURL (snd (spFor P s t)) = ssPublicBaseURL s"
  by (auto simp: spFor_def Let_def split: option.splits)

lemma idpFor_base: "ssPublicBaseURL (snd (idpFor S P s t tenant)) = ssPublicBaseURL s"
  by (auto simp: idpFor_def split: option.splits sum.splits)

text \<open>The caches of the SAML server through the two lookups its handlers make.\<close>

inductive saml_cache_step :: "samllib \<Rightarrow> splib \<Rightarrow> saml_server \<Rightarrow> saml_server \<Rightarrow> bool" for S P where
  sp: "saml_cache_step S P s (snd (spFor P s t))"
| idp: "saml_cache_step S P s (snd (idpFor S P s t tenant))"

lemma saml_cache_steps_ok:
  "(saml_cache_step S P)\<^sup>*\<^sup>* s s' \<Longrightarrow> (sps_ok s \<longrightarrow> sps_ok s') \<and> ssTenants s' = ssTenants s \<and> ssPublicBaseURL s' = ssPublicBaseURL s"
  by (induction rule: rtranclp_induct)
     (auto elim!: saml_cache_step.cases simp: spFor_ok(1) idpFor_ok(1) spFor_frame idpFor_frame spFor_base idpFor_base)

lemma saml_lookups:
  "spFor P s t = (x, s1) \<Longrightarrow> (saml_cache_step S P)\<^sup>*\<^sup>* s s1"
  "(saml_cache_step S P)\<^sup>*\<^sup>* s s1 \<Longrightarrow> idpFor S P s1 t tenant = (y, s2) \<Longrightarrow> (saml_cache_step S P)\<^sup>*\<^sup>* s s2"
  by (metis saml_cache_step.sp r_into_rtranclp snd_conv)
     (metis saml_cache_step.idp rtranclp.rtrancl_into_rtrancl snd_conv)

lemma saml_handlers_cache:
  "saml_metadata P s t = (r1, s') \<Longrightarrow> (saml_cache_step S P)\<^sup>*\<^sup>* s s'"
  "saml_login S P s st uuid now1 now2 t returnTo = (r2, s', st') \<Longrightarrow> (saml_cache_step S P)\<^sup>*\<^sup>* s s'"
  "acs S P s st c = (r3, s', st') \<Longrightarrow> (saml_cache_step S P)\<^sup>*\<^sup>* s s'"
proof -
  show "saml_metadata P s t = (r1, s') \<Longrightarrow> (saml_cache_step S P)\<^sup>*\<^sup>* s s'"
    by (auto simp: saml_metadata_def split: option.splits prod.splits intro: saml_lookups(1))
  show "saml_login S P s st uuid now1 now2 t returnTo = (r2, s', st') \<Longrightarrow> (saml_cache_step S P)\<^sup>*\<^sup>* s s'"
    by (auto simp: saml_login_def split: option.splits prod.splits sum.splits intro: saml_lookups)
  show "acs S P s st c = (r3, s', st') \<Longrightarrow> (saml_cache_step S P)\<^sup>*\<^sup>* s s'"
    by (auto simp: acs_def split: option.splits prod.splits if_splits intro: saml_lookups)
qed

lemma oidc_login_cache:
  assumes "oidc_login J s st l = (r, s', st')"
  shows "osTenants s' = osTenants s \<and> osPublicBaseURL s' = osPublicBaseURL s \<and> (dc_ok (osDiscovery s) \<longrightarrow> dc_ok (osDiscovery s'))"
proof -
  have "s' = s \<or> (\<exists>net issuer now1 now2. s' = s\<lparr>osDiscovery := snd (Metadata J net (osDiscovery s) issuer now1 now2)\<rparr>)"
    using assms by (auto simp: oidc_login_def Let_def split: option.splits prod.splits sum.splits) (metis snd_conv)+
  then show ?thesis by (auto intro: Metadata_ok)
qed

lemma callback_cache:
  assumes "callback J s st i = (r, s', st')"
  shows "osTenants s' = osTenants s \<and> osPublicBaseURL s' = osPublicBaseURL s \<and> (dc_ok (osDiscovery s) \<longrightarrow> dc_ok (osDiscovery s'))"
proof -
  have frame: "osTenants (snd (callback_verify J s i tenant pending)) = osTenants s
      \<and> osPublicBaseURL (snd (callback_verify J s i tenant pending)) = osPublicBaseURL s" for tenant pending
    by (auto simp: callback_verify_def split: option.splits prod.splits sum.splits)
  have "s' = s \<or> (\<exists>tenant pending. s' = snd (callback_verify J s i tenant pending))"
    using assms by (auto simp: callback_def split: option.splits prod.splits sum.splits if_splits) (metis snd_conv)+
  then show ?thesis using frame cache_steps_ok [OF callback_verify_steps] by auto
qed

definition good_step :: "'u gwlib \<Rightarrow> 'u gateway \<Rightarrow> 'u gw_reply \<Rightarrow> 'u gateway \<Rightarrow> bool" where
  "good_step G g r g' \<longleftrightarrow> store_steps (gwStore g) (gwStore g')
     \<and> set (sessions (gwStore g')) \<subseteq> set (sessions (gwStore g)) \<union> issued r
     \<and> same_setup g g' \<and> (caches_ok G g \<longrightarrow> caches_ok G g')"

lemma gw_handle_step: "gw_handle G g route q = (r, g') \<Longrightarrow> good_step G g r g'"
proof (cases route)
  case (ScimR rt t i)
  assume "gw_handle G g route q = (r, g')"
  then show ?thesis using ScimR
      scim_steps [of "gwStore g" "glGo G" "gwScim g" "gqUUID q" "gqNow q" rt "(gqScim q)\<lparr>sqTenant := t, sqID := i, sqHeader := rqHeader (gqHttp q)\<rparr>"]
      scim_sessions [of "glGo G" "gwScim g" "gwStore g" "gqUUID q" "gqNow q" rt "(gqScim q)\<lparr>sqTenant := t, sqID := i, sqHeader := rqHeader (gqHttp q)\<rparr>"]
    by (auto simp: good_step_def same_setup_def caches_ok_def split: prod.splits)
next
  case (SamlMetadataR t)
  assume "gw_handle G g route q = (r, g')"
  then obtain r1 s1 where h: "saml_metadata (glSp G) (gwSaml g) t = (r1, s1)" "g' = g\<lparr>gwSaml := s1\<rparr>"
    using SamlMetadataR by (auto split: prod.splits)
  show ?thesis using saml_cache_steps_ok [OF saml_handlers_cache(1) [OF h(1)]] h(2)
    by (auto simp: good_step_def same_setup_def caches_ok_def)
next
  case (SamlLoginR t)
  assume "gw_handle G g route q = (r, g')"
  then obtain r1 s1 st1 where h: "saml_login (glSaml G) (glSp G) (gwSaml g) (gwStore g) (gqUUID q) (gqNow q) (gqNow2 q) t (gqReturnTo q)
      = (r1, s1, st1)" "g' = g\<lparr>gwSaml := s1, gwStore := st1\<rparr>"
    using SamlLoginR by (auto split: prod.splits)
  show ?thesis using saml_cache_steps_ok [OF saml_handlers_cache(2) [OF h(1)]] saml_login_effect [OF h(1)] h(2)
    by (auto simp: good_step_def same_setup_def caches_ok_def)
next
  case (SamlAcsR t)
  assume "gw_handle G g route q = (r, g')"
  then obtain r1 s1 st1 where h: "acs (glSaml G) (glSp G) (gwSaml g) (gwStore g) ((gqAcs q)\<lparr>inTenant := t\<rparr>) = (r1, s1, st1)"
      "g' = g\<lparr>gwSaml := s1, gwStore := st1\<rparr>" "r = acs_gw_reply r1"
    using SamlAcsR by (auto split: prod.splits)
  show ?thesis using saml_cache_steps_ok [OF saml_handlers_cache(3) [OF h(1)]] acs_effect [OF h(1)] h(2,3)
    by (auto simp: good_step_def same_setup_def caches_ok_def)
next
  case (OidcLoginR t)
  assume "gw_handle G g route q = (r, g')"
  then obtain r1 s1 st1 where h: "oidc_login (glOidc G) (gwOidc g) (gwStore g) ((gqOidcLogin q)\<lparr>liTenant := t, liReturnTo := gqReturnTo q\<rparr>)
      = (r1, s1, st1)" "g' = g\<lparr>gwOidc := s1, gwStore := st1\<rparr>"
    using OidcLoginR by (auto split: prod.splits)
  show ?thesis using oidc_login_cache [OF h(1)] oidc_login_effect [OF h(1)] h(2)
    by (auto simp: good_step_def same_setup_def caches_ok_def)
next
  case (OidcCallbackR t)
  assume "gw_handle G g route q = (r, g')"
  then obtain r1 s1 st1 where h: "callback (glOidc G) (gwOidc g) (gwStore g) ((gqCallback q)\<lparr>ciTenant := t\<rparr>) = (r1, s1, st1)"
      "g' = g\<lparr>gwOidc := s1, gwStore := st1\<rparr>" "r = oidc_gw_reply r1"
    using OidcCallbackR by (auto split: prod.splits)
  show ?thesis using callback_cache [OF h(1)] callback_effect [OF h(1)] h(2,3)
    by (auto simp: good_step_def same_setup_def caches_ok_def)
next
  case ApiR
  assume "gw_handle G g route q = (r, g')"
  then obtain r1 st1 ps where h: "api_Handler (glGo G) (glURL G) (gwMiddleware g) (gwTenants g) (gwStore g) (gwProxies g)
             (gqNow q) (gqNow2 q) (gqNow3 q) (gqHttp q) = (r1, st1, ps)" "g' = g\<lparr>gwStore := st1, gwProxies := ps\<rparr>"
    using ApiR by (auto split: prod.splits)
  show ?thesis using api_effect [OF h(1)] h(2)
    by (auto simp: good_step_def same_setup_def caches_ok_def)
next
  case HealthzR
  assume "gw_handle G g route q = (r, g')"
  then show ?thesis using HealthzR by (auto simp: good_step_def same_setup_def)
qed

lemma serve_step: "serve G g q = (r, g') \<Longrightarrow> good_step G g r g'"
  by (auto simp: serve_def split: option.splits if_splits intro: gw_handle_step)
     (auto simp: good_step_def same_setup_def)

text \<open>The invariant of a run.\<close>

lemma gw_run_inv:
  assumes "gw_run G g0 evs g" and "caches_ok G g0"
  shows "store_steps (gwStore g0) (gwStore g) \<and> same_setup g0 g \<and> caches_ok G g
    \<and> set (sessions (gwStore g)) \<subseteq> set (sessions (gwStore g0)) \<union> (\<Union>ev\<in>set evs. issued (snd ev))"
  using assms
proof (induction rule: gw_run.induct)
  case gw_start
  then show ?case by (auto simp: same_setup_def)
next
  case (gw_serve evs g q r g')
  note st = serve_step [OF gw_serve.hyps(2), unfolded good_step_def]
  have "store_steps (gwStore g0) (gwStore g')" using gw_serve st by (meson rtranclp_trans)
  moreover have "same_setup g0 g'" using gw_serve st by (simp add: same_setup_def)
  ultimately show ?case using gw_serve st by auto
qed

lemma new_gateway_caches: "caches_ok G (new_gateway cfg env policies st)"
  by (simp add: caches_ok_def new_gateway_def Let_def sps_ok_def dc_ok_new proxies_ok_def)

lemma new_gateway_store: "gwStore (new_gateway cfg env policies st) = st"
  by (simp add: new_gateway_def Let_def)

lemma reachable_steps: "reachable_store st \<Longrightarrow> store_steps empty_store st"
  by (induction rule: reachable_store.induct) (auto intro: rtranclp.rtrancl_into_rtrancl)

text \<open>An answer of a run was given by the gateway in one of the states of that run.\<close>

lemma gw_run_event:
  assumes "gw_run G g0 evs g" and "(q, r) \<in> set evs" and "caches_ok G g0"
  shows "\<exists>g1 g2. serve G g1 q = (r, g2) \<and> same_setup g0 g1"
  using assms
proof (induction rule: gw_run.induct)
  case gw_start
  then show ?case by simp
next
  case (gw_serve evs g q' r' g')
  have "same_setup g0 g" using gw_run_inv [OF gw_serve.hyps(1) gw_serve.prems(2)] by blast
  then show ?case using gw_serve by auto
qed

lemma acs_session_LoggedIn_id:
  "acs S P s st c = (AcsLoggedIn sess ck relay, s', st') \<Longrightarrow> ckValue ck = sID sess \<and> sTenantID sess = inTenant c"
  by (erule acs_LoggedIn) (use acs_accept_LoggedIn acs_session_LoggedIn in blast)

lemma callback_LoggedIn_id:
  "callback J s st i = (OidcLoggedIn sess ck relay, s', st') \<Longrightarrow> ckValue ck = sID sess \<and> sTenantID sess = ciTenant i"
  by (erule callback_LoggedIn) (use callback_session_LoggedIn in blast)

text \<open>Only the two endpoints that receive a login issue sessions, each for the tenant in its path.\<close>

lemma serve_login:
  fixes G :: "'u gwlib"
  assumes "serve G g q = (GwLogin sess ck to, g')"
  shows "ckValue ck = sID sess
    \<and> mux (rqMethod (gqHttp q)) (rqPath (gqHttp q)) \<in> {Some (SamlAcsR (sTenantID sess)), Some (OidcCallbackR (sTenantID sess))}"
proof -
  obtain route where m: "mux (rqMethod (gqHttp q)) (rqPath (gqHttp q)) = Some route"
    and h: "gw_handle G g route q = (GwLogin sess ck to, g')"
    using assms by (auto simp: serve_def split: option.splits if_splits)
  have "ckValue ck = sID sess \<and> route \<in> {SamlAcsR (sTenantID sess), OidcCallbackR (sTenantID sess)}"
  proof (cases route)
    case (SamlAcsR t)
    obtain r1 s1 st1 where a: "acs (glSaml G) (glSp G) (gwSaml g) (gwStore g) ((gqAcs q)\<lparr>inTenant := t\<rparr>) = (r1, s1, st1)"
      "acs_gw_reply r1 = (GwLogin sess ck to :: 'u gw_reply)" using SamlAcsR h by (auto split: prod.splits)
    then obtain relay where "r1 = AcsLoggedIn sess ck relay" by (cases r1) auto
    then show ?thesis using acs_session_LoggedIn_id a(1) SamlAcsR by fastforce
  next
    case (OidcCallbackR t)
    obtain r1 s1 st1 where a: "callback (glOidc G) (gwOidc g) (gwStore g) ((gqCallback q)\<lparr>ciTenant := t\<rparr>) = (r1, s1, st1)"
      "oidc_gw_reply r1 = (GwLogin sess ck to :: 'u gw_reply)" using OidcCallbackR h by (auto split: prod.splits)
    then obtain relay where "r1 = OidcLoggedIn sess ck relay" by (cases r1) auto
    then show ?thesis using callback_LoggedIn_id a(1) OidcCallbackR by fastforce
  next
    case (SamlMetadataR t)
    then show ?thesis using h by (auto split: prod.splits elim: saml_gw_reply.elims)
  next
    case (SamlLoginR t)
    then show ?thesis using h by (auto split: prod.splits elim: saml_gw_reply.elims)
  next
    case (OidcLoginR t)
    have "\<not> (\<exists>sess ck relay s' st'. oidc_login J s st l = (OidcLoggedIn sess ck relay, s', st'))" for J s st l
      by (auto simp: oidc_login_def Let_def split: option.splits prod.splits sum.splits)
    then show ?thesis using h OidcLoginR by (auto split: prod.splits elim!: oidc_gw_reply.elims)
  next
    case ApiR
    then show ?thesis using h by (auto split: prod.splits elim: proxy_gw_reply.elims)
  qed (use h in \<open>auto split: prod.splits\<close>)
  then show ?thesis using m by auto
qed

lemma mux_ApiR: "mux m p = Some ApiR \<Longrightarrow> HasPrefix p ''/api/''"
  by (auto simp: mux_def login_route_def Let_def split: if_splits list.splits)

lemma serve_backend:
  assumes "serve G g q = (GwBackend u r', g')"
  shows "HasPrefix (rqPath (gqHttp q)) ''/api/''
    \<and> fst (api_Handler (glGo G) (glURL G) (gwMiddleware g) (gwTenants g) (gwStore g) (gwProxies g)
             (gqNow q) (gqNow2 q) (gqNow3 q) (gqHttp q)) = Outgoing u r'"
proof -
  obtain route where m: "mux (rqMethod (gqHttp q)) (rqPath (gqHttp q)) = Some route"
    and h: "gw_handle G g route q = (GwBackend u r', g')"
    using assms by (auto simp: serve_def split: option.splits if_splits)
  have "route = ApiR \<and> fst (api_Handler (glGo G) (glURL G) (gwMiddleware g) (gwTenants g) (gwStore g) (gwProxies g)
             (gqNow q) (gqNow2 q) (gqNow3 q) (gqHttp q)) = Outgoing u r'"
    using h by (cases route) (auto split: prod.splits elim: saml_gw_reply.elims oidc_gw_reply.elims acs_gw_reply.elims proxy_gw_reply.elims)
  then show ?thesis using m mux_ApiR by auto
qed

text \<open>What reaches a backend in a run, with the identity headers it carries.\<close>

lemma backend_after_login:
  assumes "gw_run G (new_gateway cfg env policies st) evs g" and "sessions st = []"
    and "serve G g q = (GwBackend u r', g')" and "canonical_keys (rqHeader (gqHttp q))"
  shows "\<exists>q0 sess ck to resource tenant.
    (q0, GwLogin sess ck to) \<in> set evs
    \<and> mux (rqMethod (gqHttp q0)) (rqPath (gqHttp q0))
        \<in> {Some (SamlAcsR (sTenantID sess)), Some (OidcCallbackR (sTenantID sess))}
    \<and> request_Cookie (gqHttp q) sessionCookieName = Some (ckValue ck) \<and> gqNow q \<le> sExpiresAt sess
    \<and> HasPrefix (rqPath (gqHttp q)) ''/api/''
    \<and> mapper (ResourceRoutes cfg) (gqHttp q) = Some resource
    \<and> dEffect (Evaluate (glGo G) policies resource
         (request_context (new_middleware cfg env policies) (gqHttp q) (stored sess) (gqNow2 q))) = Allow
    \<and> map_of (Tenants cfg) (sTenantID sess) = Some tenant \<and> glURL G (tBackendURL tenant) = Some u
    \<and> (\<forall>k. reserved k \<longrightarrow> map_of (rqHeader r') k =
         (if k \<in> CanonicalMIMEHeaderKey ` set (connection_tokens (rqHeader (gqHttp q))) then None else gateway_header (stored sess) k))"
proof -
  let ?m = "new_middleware cfg env policies"
  note run = gw_run_inv [OF assms(1) new_gateway_caches, unfolded new_gateway_store]
  have conf: "gwTenants g = Tenants cfg" "gwMiddleware g = ?m" and po: "proxies_ok (glURL G) (gwTenants g) (gwProxies g)"
    using run by (auto simp: same_setup_def caches_ok_def new_gateway_def Let_def)
  have mw: "mwPolicies ?m = policies" "mwResources ?m = mapper (ResourceRoutes cfg)"
    by (simp_all add: new_middleware_def)
  note b = serve_backend [OF assms(3)]
  obtain se tenant resource where se: "fst (SessionFrom (gwStore g) (gqNow q) (gqHttp q)) = Some se"
    and res: "mapper (ResourceRoutes cfg) (gqHttp q) = Some resource"
    and allow: "dEffect (Evaluate (glGo G) policies resource (request_context ?m (gqHttp q) se (gqNow2 q))) = Allow"
    and ten: "map_of (Tenants cfg) (sTenantID se) = Some tenant" "glURL G (tBackendURL tenant) = Some u"
    and hs: "\<forall>k. reserved k \<longrightarrow> map_of (rqHeader r') k =
         (if k \<in> CanonicalMIMEHeaderKey ` set (connection_tokens (rqHeader (gqHttp q))) then None else gateway_header se k)"
    using api_Outgoing [OF assms(4) b [THEN conjunct2] po] unfolding conf mw by blast
  obtain c where c: "request_Cookie (gqHttp q) sessionCookieName = Some c" "se \<in> set (sessions (gwStore g))" "sID se = c"
    "gqNow q \<le> sExpiresAt se" using se by (auto simp: SessionFrom_Some_iff dest: find_SomeD)
  then obtain q0 r0 where ev: "(q0, r0) \<in> set evs" "se \<in> issued r0" using run assms(2) by fastforce
  then obtain sess ck to where r0: "r0 = GwLogin sess ck to" "se = stored sess"
    by (auto simp: issued_def split: gw_reply.splits)
  obtain g1 g2 where "serve G g1 q0 = (GwLogin sess ck to, g2)"
    using gw_run_event [OF assms(1) ev(1) new_gateway_caches] r0 by blast
  note log = serve_login [OF this]
  have st: "sID se = sID sess" "sTenantID se = sTenantID sess" "sExpiresAt se = sExpiresAt sess" by (simp_all add: r0 stored_def)
  show ?thesis
    by (rule exI [of _ q0], rule exI [of _ sess], rule exI [of _ ck], rule exI [of _ to], rule exI [of _ resource],
        rule exI [of _ tenant], intro conjI)
       (use ev r0 log b c res allow ten st hs in simp_all)
qed

section \<open>Properties\<close>


text \<open>
  C3: Nothing reaches a backend without a login.  In any run of a gateway that started with no sessions, a
  request that is handed to a backend is for a path under \<open>/api/\<close>, carries the cookie of a session that
  an earlier request of the run was issued at the SAML or OIDC endpoint of the session's tenant, comes
  before the session's end, is granted by the policies on the attributes of that login the resource of
  the longest route, and goes to the backend of that tenant.
\<close>

theorem api_needs_login:
  assumes "gw_run G (new_gateway cfg env policies st) evs g" and "sessions st = []"
    and "serve G g q = (GwBackend u r', g')" and "canonical_keys (rqHeader (gqHttp q))"
  shows "\<exists>q0 sess ck to resource tenant.
    (q0, GwLogin sess ck to) \<in> set evs
    \<and> mux (rqMethod (gqHttp q0)) (rqPath (gqHttp q0))
        \<in> {Some (SamlAcsR (sTenantID sess)), Some (OidcCallbackR (sTenantID sess))}
    \<and> request_Cookie (gqHttp q) sessionCookieName = Some (ckValue ck) \<and> gqNow q \<le> sExpiresAt sess
    \<and> HasPrefix (rqPath (gqHttp q)) ''/api/''
    \<and> mapper (ResourceRoutes cfg) (gqHttp q) = Some resource
    \<and> dEffect (Evaluate (glGo G) policies resource
         (request_context (new_middleware cfg env policies) (gqHttp q) (stored sess) (gqNow2 q))) = Allow
    \<and> map_of (Tenants cfg) (sTenantID sess) = Some tenant \<and> glURL G (tBackendURL tenant) = Some u"
  using backend_after_login [OF assms] by blast

end
