(* ===== verification/MockOidc.thy ===== *)
theory MockOidc
  imports OidcLaws
begin

unbundle bit_operations_syntax

text \<open>
  The mock OpenID provider of the demo, \<open>newMockOIDCHandler\<close> in \<open>main.go\<close> (the same handlers as
  \<open>cmd/mockoidc\<close>): the discovery document, the key set, the authorization endpoint that logs everybody in as one
  user, and the token endpoint with its signed ID tokens.  RSA, SHA-256, JSON encoding and the parsing of URLs are
  parameters.  The properties close the circle with the relying party: the tokens it mints are the ones the gateway
  accepts, and a login against it comes to its end.
\<close>

section \<open>Encoding\<close>

text \<open>\<open>big.Int.Bytes\<close> and the loop of \<open>encodeBigEndianUint\<close>, which prepends the low byte.\<close>

fun big_endian :: "nat \<Rightarrow> string \<Rightarrow> string" where
  "big_endian n b = (if n = 0 then b else big_endian (n div 256) (char_of (n mod 256) # b))"

declare big_endian.simps [simp del]

definition encodeBigEndianUint :: "int \<Rightarrow> string" where
  "encodeBigEndianUint n = (if n = 0 then [char_of (0 :: nat)] else if n < 0 then [] else big_endian (nat n) [])"

text \<open>\<open>fmt.Sprintf("%x", b)\<close>\<close>

definition lower_hex :: "nat \<Rightarrow> char" where
  "lower_hex d = ''0123456789abcdef'' ! d"

definition randString :: "string option \<Rightarrow> string option" where
  "randString rnd = map_option (\<lambda>b. concat (map (\<lambda>c. [lower_hex (code_of c div 16), lower_hex (code_of c mod 16)]) b)) rnd"

section \<open>The provider\<close>

record 'k mocklib =
  ml_sha256 :: "string \<Rightarrow> string"
  ml_sign :: "'k \<Rightarrow> string \<Rightarrow> string option"
    \<comment> \<open>\<open>rsa.SignPKCS1v15\<close> of a SHA-256 digest\<close>
  ml_public :: "'k \<Rightarrow> nat \<times> int"
    \<comment> \<open>modulus and exponent of the public key\<close>
  ml_marshal :: "attrs \<Rightarrow> string option"
    \<comment> \<open>\<open>json.Marshal\<close> of a map\<close>
  ml_url :: "string \<Rightarrow> ((string \<times> string) list \<times> (string \<Rightarrow> string)) option"
    \<comment> \<open>\<open>url.Parse\<close>: the pairs of the query, and \<open>URL.String\<close> with another raw query\<close>

record pendingCode =
  pcNonce :: string
  pcRedirectURI :: string
  pcClientID :: string
  pcSubject :: string
  pcEmail :: string
  pcDepartment :: string
  pcIssuedAt :: instant

record 'k mock_provider =
  mpIssuer :: string
  mpSubject :: string
  mpDepartment :: string
  mpPriv :: 'k
  mpCodes :: "(string \<times> pendingCode) list"

definition mock_kid :: string where
  "mock_kid = ''mockoidc-key-1''"

definition mock_metadata :: "'k mock_provider \<Rightarrow> ProviderMetadata" where
  "mock_metadata p =
     \<lparr>Issuer = mpIssuer p, AuthorizationEndpoint = mpIssuer p @ ''/authorize'', TokenEndpoint = mpIssuer p @ ''/token'',
      JWKSURI = mpIssuer p @ ''/jwks.json'', UserinfoEndpoint = mpIssuer p @ ''/userinfo''\<rparr>"

definition mock_jwks :: "'k mocklib \<Rightarrow> 'k mock_provider \<Rightarrow> JWKS" where
  "mock_jwks M p =
     (case ml_public M (mpPriv p) of
        (n, e) \<Rightarrow> \<lparr>Keys = [\<lparr>Kty = ''RSA'', Kid = mock_kid, Alg = ''RS256'', Use = ''sig'',
                     jwkN = rawurl_encode (big_endian n []), jwkE = rawurl_encode (encodeBigEndianUint e)\<rparr>]\<rparr>)"

datatype mock_reply =
    MockError nat string
  | MockRedirect string
  | MockToken TokenResponse
  | MockPanic

text \<open>
  \<open>/authorize\<close>: the code is recorded before the redirect address is parsed.  \<open>Values.Set\<close> replaces the
  values of a key, \<open>Encode\<close> sorts by key and keeps the order of the values.
\<close>

definition values_Set :: "(string \<times> string) list \<Rightarrow> string \<Rightarrow> string \<Rightarrow> (string \<times> string) list" where
  "values_Set vs k v = filter (\<lambda>kv. fst kv \<noteq> k) vs @ [(k, v)]"

definition mock_authorize ::
    "'k mocklib \<Rightarrow> 'k mock_provider \<Rightarrow> (string \<Rightarrow> string) \<Rightarrow> string option \<Rightarrow> instant \<Rightarrow> mock_reply \<times> 'k mock_provider" where
  "mock_authorize M p q rnd now =
     (case randString rnd of
        None \<Rightarrow> (MockPanic, p)
      | Some code \<Rightarrow>
          let p = p\<lparr>mpCodes := put (mpCodes p) code
                     \<lparr>pcNonce = q ''nonce'', pcRedirectURI = q ''redirect_uri'', pcClientID = q ''client_id'',
                      pcSubject = mpSubject p, pcEmail = mpSubject p, pcDepartment = mpDepartment p, pcIssuedAt = now\<rparr>\<rparr>
          in case ml_url M (q ''redirect_uri'') of
               None \<Rightarrow> (MockError 400 ''bad redirect_uri'', p)
             | Some (rq, with_query) \<Rightarrow>
                 (MockRedirect (with_query (values_Encode (values_Set (values_Set rq ''code'' code) ''state'' (q ''state'')))), p))"

definition jwt_header :: "string \<Rightarrow> attrs" where
  "jwt_header kid = [(''alg'', AStr ''RS256''), (''typ'', AStr ''JWT''), (''kid'', AStr kid)]"

definition signJWT :: "'k mocklib \<Rightarrow> 'k \<Rightarrow> string \<Rightarrow> attrs \<Rightarrow> string option" where
  "signJWT M priv kid claims =
     (case ml_marshal M (jwt_header kid) of
        None \<Rightarrow> None
      | Some hb \<Rightarrow>
          (case ml_marshal M claims of
             None \<Rightarrow> None
           | Some cb \<Rightarrow>
               let signingInput = rawurl_encode hb @ ''.'' @ rawurl_encode cb
               in map_option (\<lambda>sig. signingInput @ ''.'' @ rawurl_encode sig) (ml_sign M priv (ml_sha256 M signingInput))))"

text \<open>\<open>Time.Unix\<close>\<close>

definition unix :: "instant \<Rightarrow> int" where
  "unix t = t div seconds 1"

definition mock_claims :: "string \<Rightarrow> pendingCode \<Rightarrow> instant \<Rightarrow> attrs" where
  "mock_claims issuer pc now =
     [(''iss'', AStr issuer), (''aud'', AStr (pcClientID pc)), (''sub'', AStr (pcSubject pc)),
      (''email'', AStr (pcEmail pc)), (''department'', AStr (pcDepartment pc)),
      (''iat'', AInt (unix now)), (''exp'', AInt (unix (now + minutes 10))), (''nonce'', AStr (pcNonce pc))]"

text \<open>\<open>/token\<close>; the form is absent when it cannot be parsed, and a parameter it lacks is empty.\<close>

definition mock_token ::
    "'k mocklib \<Rightarrow> 'k mock_provider \<Rightarrow> (string \<Rightarrow> string) option \<Rightarrow> instant \<Rightarrow> string option \<Rightarrow> mock_reply \<times> 'k mock_provider" where
  "mock_token M p form now rnd =
     (case form of
        None \<Rightarrow> (MockError 400 ''bad form'', p)
      | Some f \<Rightarrow>
          (case map_of (mpCodes p) (f ''code'') of
             None \<Rightarrow> (MockError 400 ''invalid or already-used code'', p)
           | Some pc \<Rightarrow>
               let p' = p\<lparr>mpCodes := del (mpCodes p) (f ''code'')\<rparr>
               in case signJWT M (mpPriv p) mock_kid (mock_claims (mpIssuer p) pc now) of
                    None \<Rightarrow> (MockError 500 ''sign'', p')
                  | Some idToken \<Rightarrow>
                      (case randString rnd of
                         None \<Rightarrow> (MockPanic, p')
                       | Some tok \<Rightarrow>
                           (MockToken \<lparr>AccessToken = tok, IDToken = idToken, TokenType = ''Bearer'', ExpiresIn = 600\<rparr>, p'))))"

section \<open>Facts\<close>

lemma SetBytes_big_endian: "foldl (\<lambda>n b. 256 * n + code_of b) 0 (big_endian n b) = foldl (\<lambda>n b. 256 * n + code_of b) n b"
proof (induction n b rule: big_endian.induct)
  case (1 n b)
  show ?case
  proof (cases "n = 0")
    case False
    have "code_of (char_of n) = n mod 256" by (simp add: code_of_def of_char_of)
    then show ?thesis using 1 False by (subst big_endian.simps) (simp add: mult_div_mod_eq)
  qed (simp add: big_endian.simps)
qed

lemma SetBytes_encode: "0 \<le> e \<Longrightarrow> SetBytes (encodeBigEndianUint e) = nat e"
  by (auto simp: SetBytes_def encodeBigEndianUint_def SetBytes_big_endian code_of_char_of)

text \<open>The key in the provider's key set is the public key of its private key.\<close>

lemma mock_publicKey:
  assumes "ml_public M (mpPriv p) = (n, e)" and "0 \<le> e" and "e < 2 ^ 63"
  shows "\<exists>k. findKey (mock_jwks M p) mock_kid = Some k \<and> publicKey k = Some (n, e)"
proof -
  have "nat e < 2 ^ 63" using assms(2,3) by (simp add: nat_less_iff)
  then have "sint (exponent (encodeBigEndianUint e)) = int (nat e)"
    using assms(2) by (simp only: exponent_word SetBytes_encode sint_small)
  then have "sint (exponent (encodeBigEndianUint e)) = e" using assms(2) by simp
  moreover have "SetBytes (big_endian n []) = n" by (simp add: SetBytes_def SetBytes_big_endian)
  ultimately show ?thesis
    by (simp add: mock_jwks_def assms(1) findKey_def publicKey_def rawurl_decode_encode)
qed

subsection \<open>Whole numbers as float64\<close>

lemma bits_bounds: "0 < n \<Longrightarrow> 2 ^ (bits n - 1) \<le> n \<and> n < 2 ^ bits n \<and> 0 < bits n"
proof (induction n rule: bits.induct)
  case (1 n)
  have b: "bits n = Suc (bits (n div 2))" using 1 by (simp add: bits.simps [of n])
  show ?case
  proof (cases "n div 2 = 0")
    case True
    then have "n = 1" using 1 by (simp add: div_eq_0_iff)
    then show ?thesis by (simp add: bits.simps)
  next
    case False
    then have ih: "2 ^ (bits (n div 2) - 1) \<le> n div 2" "n div 2 < 2 ^ bits (n div 2)" "0 < bits (n div 2)"
      using 1 by simp_all
    then have "2 ^ bits (n div 2) = 2 * (2 ^ (bits (n div 2) - 1) :: nat)" by (cases "bits (n div 2)") simp_all
    then show ?thesis using ih b by (simp add: algebra_simps) linarith
  qed
qed

lemma float64_exact:
  assumes "\<bar>n\<bar> < 2 ^ 53"
  shows "float64 n = of_int n"
proof (cases "n = 0")
  case False
  define m where "m = nat \<bar>n\<bar>"
  have m: "0 < m" "\<bar>of_int n :: rat\<bar> = of_nat m" "m < 2 ^ 53"
    using False assms by (auto simp: m_def nat_less_iff)
  note b = bits_bounds [OF m(1)]
  have "(2 :: nat) ^ (bits m - 1) < 2 ^ 53" using b m(3) by linarith
  then have small: "bits m - 1 < 53" by (rule power_less_imp_less_exp [rotated]) simp
  have one: "bits 1 = 1" by (simp add: bits.simps)
  have "pow2 (int (bits m) - 1) = of_nat (2 ^ (bits m - 1))" using b by (simp add: pow2_def nat_diff_distrib')
  then have "ilog2 (of_nat m) = int (bits m) - 1"
    using b one by (simp add: ilog2_def quotient_of_int Let_def flip: of_nat_power)
  then have e: "max (- 1074) (ilog2 (of_nat m) - 52) \<le> 0" "- 1074 \<le> max (- 1074) (ilog2 (of_nat m) - 52)"
    using small by simp_all
  define k where "k = nat (- max (- 1074) (ilog2 (of_nat m) - 52))"
  have p: "pow2 (max (- 1074) (ilog2 (of_nat m) - 52)) = 1 / of_nat (2 ^ k)"
    using e(1) by (auto simp: pow2_def k_def)
  have r: "round_even (of_nat j :: rat) = int j" for j by (simp add: round_even_def)
  have "(of_nat m :: rat) / (1 / of_nat (2 ^ k)) = of_nat (m * 2 ^ k)" by simp
  then have "round64 (of_int n) = sgn (of_int n) * of_int (int (m * 2 ^ k)) * (1 / of_nat (2 ^ k))"
    using False r [of "m * 2 ^ k"] by (simp add: round64_def Let_def m(2) p)
  also have "\<dots> = sgn (of_int n) * of_nat m" by simp
  also have "\<dots> = of_int n" using m(2) by (metis sgn_mult_abs)
  finally show ?thesis by (simp add: float64_def)
qed (simp add: float64_def round64_def)

lemma int64_exact:
  assumes "\<bar>n\<bar> < 2 ^ 53"
  shows "int64 J (float64 n) = n"
  using assms by (auto simp: float64_exact int64_def trunc_def)

lemma unix_plus_exact:
  assumes "\<bar>n\<bar> < 2 ^ 53" and "0 \<le> skew" and "skew < 2 ^ 53"
  shows "unix_plus n skew = seconds (n + skew)"
proof -
  have w: "wrap64 k = k" if "- (2 ^ 62) \<le> k" "k < 2 ^ 62" for k
    using that by (simp add: wrap64_def signed_of_int signed_take_bit_int_eq_self)
  show ?thesis using assms by (simp add: unix_plus_def unixToInternal_def w)
qed
section \<open>Minted tokens\<close>

text \<open>
  What the provider and the relying party share: SHA-256, an RSA implementation whose signatures verify
  under the public key, and JSON encoding and decoding that undo each other on maps of ASCII texts and
  integers, up to the conversion of integers to float64.
\<close>

definition ascii :: "string \<Rightarrow> bool" where
  "ascii s = (\<forall>c\<in>set s. code_of c < 128)"

definition plain_json :: "attrs \<Rightarrow> bool" where
  "plain_json m = (\<forall>(k, v)\<in>set m. ascii k \<and> (case v of AStr s \<Rightarrow> ascii s | AInt n \<Rightarrow> True | _ \<Rightarrow> False))"

definition interoperate :: "oidclib \<Rightarrow> 'k mocklib \<Rightarrow> 'k \<Rightarrow> bool" where
  "interoperate J M priv \<longleftrightarrow>
     ol_sha256 J = ml_sha256 M
     \<and> (\<forall>d sig. ml_sign M priv d = Some sig \<longrightarrow> ol_rsa_verify J (ml_public M priv) d sig)
     \<and> (\<forall>kid b. ascii kid \<longrightarrow> ml_marshal M (jwt_header kid) = Some b \<longrightarrow> ol_header J b = Some (''RS256'', kid))
     \<and> (\<forall>m b. plain_json m \<longrightarrow> ml_marshal M m = Some b \<longrightarrow> (\<exists>m'. ol_claims J b = Some m' \<and> map_of m' = map_of (json_attrs m)))"

lemma Split_join3:
  assumes "CHR ''.'' \<notin> set h" and "CHR ''.'' \<notin> set p" and "CHR ''.'' \<notin> set s"
  shows "Split (h @ ''.'' @ p @ ''.'' @ s) CHR ''.'' = [h, p, s]"
proof -
  have step: "Split (x @ CHR ''.'' # r) CHR ''.'' = x # Split r CHR ''.''" if "CHR ''.'' \<notin> set x" for x r
    using that by (induction x) (auto split: list.splits)
  show ?thesis using step [OF assms(1)] step [OF assms(2)] Split_no_sep [OF assms(3)] by simp
qed

lemma no_dot_rawurl: "CHR ''.'' \<notin> set (rawurl_encode s)"
proof -
  have "CHR ''.'' \<notin> insert CHR ''='' (set url_alphabet)" by code_simp
  then show ?thesis using set_encode_loop [of url_alphabet False s] by (auto simp: rawurl_encode_def)
qed

lemma signJWT_verifies:
  assumes "interoperate J M priv" and "ml_public M priv = (n, e)" and "ascii kid" and "plain_json m"
    and "findKey jwks kid = Some k" and "publicKey k = Some (n, e)" and "signJWT M priv kid m = Some tok"
  shows "\<exists>m'. map_of m' = map_of (json_attrs m)
    \<and> (\<forall>issuer audience nonce now skew. VerifyIDToken J tok jwks issuer audience nonce now skew
         = check_claims J m' issuer audience nonce now skew)"
proof -
  obtain hb cb sig where hb: "ml_marshal M (jwt_header kid) = Some hb" and cb: "ml_marshal M m = Some cb"
    and sig: "ml_sign M priv (ml_sha256 M (rawurl_encode hb @ ''.'' @ rawurl_encode cb)) = Some sig"
    and tok: "tok = rawurl_encode hb @ ''.'' @ rawurl_encode cb @ ''.'' @ rawurl_encode sig"
    using assms(7) by (auto simp: signJWT_def Let_def split: option.splits)
  obtain m' where m': "ol_claims J cb = Some m'" "map_of m' = map_of (json_attrs m)"
    using assms(1,4) cb unfolding interoperate_def by blast
  have "Split tok CHR ''.'' = [rawurl_encode hb, rawurl_encode cb, rawurl_encode sig]"
    unfolding tok by (rule Split_join3 [OF no_dot_rawurl no_dot_rawurl no_dot_rawurl])
  moreover have "ol_header J hb = Some (''RS256'', kid)" "ol_sha256 J = ml_sha256 M"
    "ol_rsa_verify J (n, e) (ml_sha256 M (rawurl_encode hb @ ''.'' @ rawurl_encode cb)) sig"
    using assms(1-3) hb sig unfolding interoperate_def by auto
  ultimately have "VerifyIDToken J tok jwks issuer audience nonce now skew = check_claims J m' issuer audience nonce now skew"
    for issuer audience nonce now skew
    using assms(5,6) m'(1) by (simp add: VerifyIDToken_def rawurl_decode_encode require_def ensure_def)
  then show ?thesis using m'(2) by blast
qed

lemma mock_token_MockToken:
  assumes "mock_token M p (Some f) now rnd = (MockToken tr, p')"
  shows "\<exists>pc. map_of (mpCodes p) (f ''code'') = Some pc \<and> p' = p\<lparr>mpCodes := del (mpCodes p) (f ''code'')\<rparr>
    \<and> signJWT M (mpPriv p) mock_kid (mock_claims (mpIssuer p) pc now) = Some (IDToken tr)"
  using assms by (auto simp: mock_token_def Let_def split: option.splits)

lemma minted_verifies:
  assumes "interoperate J M (mpPriv p)" and "ml_public M (mpPriv p) = (n, e)" and "0 \<le> e" and "e < 2 ^ 63"
    and "map_of (mpCodes p) (f ''code'') = Some pc" and "plain_json (mock_claims (mpIssuer p) pc now)"
    and "\<bar>unix now\<bar> + 600 < 2 ^ 53" and "mock_token M p (Some f) now rnd = (MockToken tr, p')"
  shows "\<exists>claims. (\<forall>later. VerifyIDToken J (IDToken tr) (mock_jwks M p) (mpIssuer p) (pcClientID pc) (pcNonce pc) later 120 =
        (if later > seconds (unix now) + minutes 12 then Inl TokenExpired
         else if later + minutes 2 < seconds (unix now) then Inl IssuedInFuture else Inr claims))
    \<and> claims_String claims ''sub'' = pcSubject pc \<and> claims_String claims ''email'' = pcEmail pc
    \<and> claims_String claims ''department'' = pcDepartment pc"
proof -
  let ?m = "mock_claims (mpIssuer p) pc now"
  obtain k where k: "findKey (mock_jwks M p) mock_kid = Some k" "publicKey k = Some (n, e)"
    using mock_publicKey [OF assms(2-4)] by blast
  have "signJWT M (mpPriv p) mock_kid ?m = Some (IDToken tr)"
    using mock_token_MockToken [OF assms(8)] assms(5) by auto
  moreover have "ascii mock_kid" by (simp add: ascii_def mock_kid_def code_of_def)
  ultimately obtain m' where m': "map_of m' = map_of (json_attrs ?m)"
    and v: "VerifyIDToken J (IDToken tr) (mock_jwks M p) issuer audience nonce later skew = check_claims J m' issuer audience nonce later skew"
    for issuer audience nonce later skew
    using signJWT_verifies [OF assms(1,2) _ assms(6) k] by blast
  have s: "claims_String m' ''iss'' = mpIssuer p" "map_of m' ''aud'' = Some (AStr (pcClientID pc))"
    "claims_String m' ''sub'' = pcSubject pc" "claims_String m' ''email'' = pcEmail pc"
    "claims_String m' ''department'' = pcDepartment pc" "claims_String m' ''nonce'' = pcNonce pc"
    "claims_Float64 m' ''iat'' = Some (float64 (unix now))" "claims_Float64 m' ''exp'' = Some (float64 (unix (now + minutes 10)))"
    by (simp_all add: claims_String_def claims_Float64_def m' json_attrs_def mock_claims_def)
  have u: "unix (now + minutes 10) = unix now + 600" by (simp add: unix_def minutes_def seconds_def)
  have t: "int64 J (float64 (unix now)) = unix now" "int64 J (float64 (unix now + 600)) = unix now + 600"
    using assms(7) by (auto intro!: int64_exact)
  have x: "unix_plus (unix now) 0 = seconds (unix now)" "unix_plus (unix now + 600) 120 = seconds (unix now) + minutes 12"
    using assms(7) by (auto simp: unix_plus_exact seconds_def minutes_def)
  have "check_claims J m' (mpIssuer p) (pcClientID pc) (pcNonce pc) later 120 =
      (if later > seconds (unix now) + minutes 12 then Inl TokenExpired
       else if later + minutes 2 < seconds (unix now) then Inl IssuedInFuture else Inr m')" for later
    by (simp add: check_claims_def s u t x ensure_def require_def) (simp add: minutes_def)
  then show ?thesis using v s by auto
qed

text \<open>
  C18: The tokens of the provider are the ones the relying party accepts.  When the token endpoint
  answers with a token, the code is used up, and the token verifies against the provider's own key set, for its
  issuer and for client and nonce of the authorization request, from two minutes before the second it was
  issued in until twelve minutes after it; before and after that it is refused.  It names the provider's user.
\<close>

theorem minted_token_verifies:
  assumes "interoperate J M (mpPriv p)" and "ml_public M (mpPriv p) = (n, e)" and "0 \<le> e" and "e < 2 ^ 63"
    and "map_of (mpCodes p) (f ''code'') = Some pc" and "plain_json (mock_claims (mpIssuer p) pc now)"
    and "\<bar>unix now\<bar> + 600 < 2 ^ 53" and "mock_token M p (Some f) now rnd = (MockToken tr, p')"
  shows "fst (mock_token M p' (Some f) now' rnd') = MockError 400 ''invalid or already-used code''
    \<and> (\<exists>claims. claims_String claims ''sub'' = pcSubject pc \<and> claims_String claims ''email'' = pcEmail pc
        \<and> claims_String claims ''department'' = pcDepartment pc
        \<and> (\<forall>later. VerifyIDToken J (IDToken tr) (mock_jwks M p) (mpIssuer p) (pcClientID pc) (pcNonce pc) later 120 =
            (if later > seconds (unix now) + minutes 12 then Inl TokenExpired
             else if later + minutes 2 < seconds (unix now) then Inl IssuedInFuture else Inr claims)))"
proof -
  have "map_of (mpCodes p') (f ''code'') = None"
    using mock_token_MockToken [OF assms(8)] by (auto simp: map_of_del)
  then have "fst (mock_token M p' (Some f) now' rnd') = MockError 400 ''invalid or already-used code''"
    by (simp add: mock_token_def)
  then show ?thesis using minted_verifies [OF assms] by blast
qed

section \<open>A login against the mock provider\<close>

text \<open>The authorization request the browser carries over, and the provider's answer.\<close>

lemma mock_authorize_Redirect:
  assumes "mock_authorize M p q rnd now = (MockRedirect back, p1)"
  shows "\<exists>code. randString rnd = Some code
    \<and> p1 = p\<lparr>mpCodes := put (mpCodes p) code
         \<lparr>pcNonce = q ''nonce'', pcRedirectURI = q ''redirect_uri'', pcClientID = q ''client_id'', pcSubject = mpSubject p,
          pcEmail = mpSubject p, pcDepartment = mpDepartment p, pcIssuedAt = now\<rparr>\<rparr>"
  using assms by (auto simp: mock_authorize_def Let_def split: option.splits)

lemma ascii_rawurl: "ascii (rawurl_encode s)"
proof -
  have "list_all (\<lambda>c. code_of c < 128) (CHR ''='' # url_alphabet)" by (simp add: url_alphabet_def code_of_def)
  then show ?thesis using set_encode_loop [of url_alphabet False s] by (auto simp: rawurl_encode_def ascii_def list_all_iff)
qed

text \<open>
  A login against the mock provider comes to its end.  Let the browser take the parameters of the
  gateway's redirect to the authorization endpoint and come back within ten minutes with the code and the
  state; let the network give the gateway the provider's discovery document, its key set and the answer
  of its token endpoint to the code, minted within two minutes of the gateway's clock.  Then the
  callback logs the browser in as the provider's user and goes on to the \<open>returnTo\<close> of the login.
\<close>

theorem mock_login_completes:
  assumes "interoperate J M (mpPriv p)" and "ml_public M (mpPriv p) = (n, e)" and "0 \<le> e" and "e < 2 ^ 63"
    and "store_inv st" and "oidc_login J s st l = (OidcRedirect url, s1, st1)"
    and "map_of (osTenants s) (liTenant l) = Some tenant" and "tOIDCIssuer tenant = mpIssuer p"
    and "liState l = Some rs" and "liNonce l = Some rn" and "liVerifier l = Some rv" and "rs \<noteq> []"
    and "\<forall>(k, v)\<in>set (authorize_params (tOIDCClientID tenant) (redirectURI s (liTenant l)) (rawurl_encode rs)
           (rawurl_encode rn) (PKCEChallengeS256 J (rawurl_encode rv)) defaultScopes). q k = v"
    and "mock_authorize M p q rnd t1 = (MockRedirect back, p1)"
    and "ciTenant i = liTenant l" and "ciQuery i ''error'' = []" and "randString rnd = Some (ciQuery i ''code'')"
    and "ciQuery i ''code'' \<noteq> []" and "ciQuery i ''state'' = q ''state''" and "ciTake i \<le> liPut l + minutes 10"
    and "Metadata J (ciNet i) (osDiscovery s1) (mpIssuer p) (ciLookup i) (ciFetched i) = (Some (mock_metadata p), dc)"
    and "f ''code'' = ciQuery i ''code''" and "mock_token M p1 (Some f) t2 rnd' = (MockToken tr, p2)"
    and "http_post (ciNet i) (TokenEndpoint (mock_metadata p))
           (values_Encode (token_params (tOIDCClientID tenant) (tOIDCClientSecret tenant) (redirectURI s (liTenant l))
             (ciQuery i ''code'') (rawurl_encode rv))) = Some (200, body)"
    and "ol_token J body = Some tr"
    and "cache_JWKS J (ciNet i) dc (mpIssuer p) (JWKSURI (mock_metadata p)) (ciLookupKeys i) (ciFetchedKeys i)
         = (Some (mock_jwks M p), dc')"
    and "\<bar>unix t2\<bar> + 600 < 2 ^ 53" and "seconds (unix t2) \<le> ciVerify i + minutes 2" and "ciVerify i \<le> t2 + minutes 2"
    and "ascii (mpIssuer p)" and "ascii (mpSubject p)" and "ascii (mpDepartment p)" and "ascii (tOIDCClientID tenant)"
    and "mpSubject p \<noteq> []"
    and "\<forall>r\<in>set (users st). ur_id r \<noteq> ciUUID i" and "ciRandom i = Some rid" and "\<forall>r\<in>set (sessions st). sID r \<noteq> rid"
  shows "\<exists>sess ck s2 st2. callback J s1 st1 i = (OidcLoggedIn sess ck (liReturnTo l), s2, st2) \<and> sSubject sess = mpSubject p"
proof -
  let ?pc = "\<lparr>pcNonce = q ''nonce'', pcRedirectURI = q ''redirect_uri'', pcClientID = q ''client_id'', pcSubject = mpSubject p,
          pcEmail = mpSubject p, pcDepartment = mpDepartment p, pcIssuedAt = t1\<rparr>"
  have p1: "p1 = p\<lparr>mpCodes := put (mpCodes p) (ciQuery i ''code'') ?pc\<rparr>"
    using mock_authorize_Redirect [OF assms(14)] assms(17) by auto
  have q: "q ''nonce'' = rawurl_encode rn" "q ''client_id'' = tOIDCClientID tenant" "q ''state'' = rawurl_encode rs"
    using assms(13) by (simp_all add: authorize_params_def)
  have same: "mpPriv p1 = mpPriv p" "mpIssuer p1 = mpIssuer p" "mock_jwks M p1 = mock_jwks M p" "map_of (mpCodes p1) (f ''code'') = Some ?pc"
    by (simp_all add: p1 mock_jwks_def assms(22) map_of_put)
  have plain: "plain_json (mock_claims (mpIssuer p1) ?pc t2)"
    using assms(30-33) ascii_rawurl [of rn]
    by (simp add: plain_json_def mock_claims_def same q) (simp add: ascii_def code_of_def)
  obtain claims where v: "VerifyIDToken J (IDToken tr) (mock_jwks M p) (mpIssuer p) (tOIDCClientID tenant) (rawurl_encode rn) (ciVerify i) 120
      = Inr claims" and sub: "claims_String claims ''sub'' = mpSubject p"
  proof -
    note m = minted_verifies [OF _ _ assms(3,4) same(4) plain assms(27,23), of J n, unfolded same, OF assms(1,2)]
    have "t2 < seconds (unix t2) + seconds 1" by (simp add: unix_def seconds_def)
    then have "ciVerify i \<le> seconds (unix t2) + minutes 12" using assms(29) by (simp add: minutes_def seconds_def)
    then show ?thesis using m that assms(28) q by (auto simp: not_less)
  qed
  have "IDToken tr \<noteq> []" using v by (auto simp: VerifyIDToken_def)
  moreover have "rawurl_encode rs \<noteq> []" using assms(12) rawurl_decode_encode [of rs] rawurl_decode_encode [of "[]"]
    by (auto simp: rawurl_encode_def)
  ultimately show ?thesis
    using verified_login_completes [OF assms(5-7,9-11,15,16,18) _ _ assms(20), of "mock_metadata p" dc body tr "mock_jwks M p" dc' claims rid]
      assms(8,19,21,24-26,34-37) v sub q by simp
qed

section \<open>Samples\<close>

definition bob_code :: pendingCode where
  "bob_code = \<lparr>pcNonce = rawurl_encode ''n'', pcRedirectURI = ''https://gw/oidc/acme/callback'', pcClientID = ''gw'',
     pcSubject = ''bob@acme'', pcEmail = ''bob@acme'', pcDepartment = ''Engineering'', pcIssuedAt = 0\<rparr>"

definition bob_claims :: attrs where
  "bob_claims = mock_claims ''https://idp'' bob_code (seconds 1)"

text \<open>A library that encodes the two maps of the sample and signs by copying the digest.\<close>

definition sample_mocklib :: "unit mocklib" where
  "sample_mocklib = \<lparr>ml_sha256 = (\<lambda>s. s), ml_sign = (\<lambda>k d. Some d), ml_public = (\<lambda>k. (3233, 17)),
     ml_marshal = (\<lambda>m. if m = jwt_header mock_kid then Some ''H'' else if m = bob_claims then Some ''P'' else None),
     ml_url = (\<lambda>u. Some ([], \<lambda>q. u @ ''?'' @ q))\<rparr>"

definition sample_provider :: "unit mock_provider" where
  "sample_provider = \<lparr>mpIssuer = ''https://idp'', mpSubject = ''bob@acme'', mpDepartment = ''Engineering'', mpPriv = (), mpCodes = []\<rparr>"

definition bob_provider :: "unit mock_provider" where
  "bob_provider = sample_provider\<lparr>mpCodes := [(''63'', bob_code)]\<rparr>"

definition bob_token :: TokenResponse where
  "bob_token = \<lparr>AccessToken = ''64'', IDToken = the (signJWT sample_mocklib () mock_kid bob_claims), TokenType = ''Bearer'', ExpiresIn = 600\<rparr>"

definition sample_oidclib :: oidclib where
  "sample_oidclib = \<lparr>ol_sha256 = (\<lambda>s. s), ol_rsa_verify = (\<lambda>k d sig. k = (3233, 17) \<and> d = sig),
     ol_header = (\<lambda>b. if b = ''H'' then Some (''RS256'', mock_kid) else None),
     ol_claims = (\<lambda>b. if b = ''P'' then Some (json_attrs bob_claims) else Some (json_attrs (jwt_header mock_kid))),
     ol_metadata = (\<lambda>b. Some (mock_metadata sample_provider)), ol_jwks = (\<lambda>b. Some (mock_jwks sample_mocklib sample_provider)),
     ol_token = (\<lambda>b. Some bob_token), ol_int64 = (\<lambda>x. 0)\<rparr>"

lemma jwt_header_inject: "jwt_header kid = jwt_header kid' \<longleftrightarrow> kid = kid'"
  by (simp add: jwt_header_def)

lemma sample_interoperate: "interoperate sample_oidclib sample_mocklib ()"
proof -
  have "jwt_header kid \<noteq> bob_claims" "bob_claims \<noteq> jwt_header kid" for kid
    by (simp_all add: jwt_header_def bob_claims_def mock_claims_def)
  then show ?thesis
    by (auto simp: interoperate_def sample_oidclib_def sample_mocklib_def jwt_header_inject split: if_splits)
qed

lemma bob_plain: "plain_json bob_claims"
  using ascii_rawurl [of "''n''"]
  by (simp add: plain_json_def bob_claims_def mock_claims_def bob_code_def) (simp add: ascii_def code_of_def)

lemma bob_minted: "mock_token sample_mocklib bob_provider (Some (\<lambda>k. ''63'')) (seconds 1) (Some ''d'') = (MockToken bob_token, sample_provider)"
proof -
  have "randString (Some ''d'') = Some ''64''" by code_simp
  moreover have "signJWT sample_mocklib () mock_kid bob_claims \<noteq> None"
    by (simp add: signJWT_def sample_mocklib_def Let_def)
  ultimately show ?thesis
    by (auto simp: mock_token_def bob_provider_def sample_provider_def bob_token_def bob_claims_def del_def Let_def)
qed

theorem minted_token_verifies_witness:
  "(\<exists>claims. VerifyIDToken sample_oidclib (IDToken bob_token) (mock_jwks sample_mocklib bob_provider) ''https://idp'' ''gw''
       (rawurl_encode ''n'') (seconds 1) 120 = Inr claims \<and> claims_String claims ''sub'' = ''bob@acme'')
   \<and> VerifyIDToken sample_oidclib (IDToken bob_token) (mock_jwks sample_mocklib bob_provider) ''https://idp'' ''gw''
       (rawurl_encode ''n'') (minutes 13) 120 = Inl TokenExpired"
proof -
  have b: "mpPriv bob_provider = ()" "mpIssuer bob_provider = ''https://idp''" "map_of (mpCodes bob_provider) ''63'' = Some bob_code"
    by (simp_all add: bob_provider_def sample_provider_def)
  have c: "pcClientID bob_code = ''gw''" "pcNonce bob_code = rawurl_encode ''n''" "pcSubject bob_code = ''bob@acme''"
    by (simp_all add: bob_code_def)
  have u: "unix (seconds 1) = 1" by (simp add: unix_def seconds_def)
  have k: "ml_public sample_mocklib () = (3233, 17)" by (simp add: sample_mocklib_def)
  from minted_token_verifies [of sample_oidclib sample_mocklib bob_provider 3233 17 "\<lambda>k. ''63''" bob_code "seconds 1" "Some ''d''" bob_token
      sample_provider undefined undefined]
  obtain claims where "claims_String claims ''sub'' = ''bob@acme''"
    "\<And>later. VerifyIDToken sample_oidclib (IDToken bob_token) (mock_jwks sample_mocklib bob_provider) ''https://idp'' ''gw''
       (rawurl_encode ''n'') later 120 = (if later > seconds 1 + minutes 12 then Inl TokenExpired
        else if later + minutes 2 < seconds 1 then Inl IssuedInFuture else Inr claims)"
    using sample_interoperate b c u k bob_plain bob_minted by (auto simp: bob_claims_def)
  then show ?thesis by (simp add: seconds_def minutes_def)
qed

definition sample_net :: network where
  "sample_net = \<lparr>http_get = (\<lambda>u. Some (200, [])), http_post = (\<lambda>u b. Some (200, []))\<rparr>"

definition sample_start :: login_inputs where
  "sample_start = acme_start\<lparr>liNet := sample_net\<rparr>"

definition bob_return :: callback_inputs where
  "bob_return = acme_return\<lparr>ciQuery := (\<lambda>k. if k = ''state'' then rawurl_encode ''s'' else if k = ''code'' then ''63'' else []),
     ciNet := sample_net\<rparr>"

definition browser :: "string \<Rightarrow> string" where
  "browser k = (case map_of (authorize_params ''gw'' ''https://gw/oidc/acme/callback'' (rawurl_encode ''s'') (rawurl_encode ''n'')
     (PKCEChallengeS256 sample_oidclib (rawurl_encode ''v'')) defaultScopes) k of None \<Rightarrow> [] | Some v \<Rightarrow> v)"

lemma bob_authorized: "\<exists>back. mock_authorize sample_mocklib sample_provider browser (Some ''c'') 0 = (MockRedirect back, bob_provider)"
proof -
  have "randString (Some ''c'') = Some ''63''" by code_simp
  then show ?thesis
    by (simp add: mock_authorize_def sample_provider_def bob_provider_def bob_code_def browser_def authorize_params_def sample_mocklib_def Let_def)
qed

theorem mock_login_completes_witness:
  "\<exists>url s1 st1 sess ck s2 st2. oidc_login sample_oidclib oidc_acme empty_store sample_start = (OidcRedirect url, s1, st1)
    \<and> callback sample_oidclib s1 st1 bob_return = (OidcLoggedIn sess ck ''/home'', s2, st2) \<and> sSubject sess = ''bob@acme''"
proof -
  let ?J = sample_oidclib and ?m = "mock_metadata sample_provider" and ?k = "mock_jwks sample_mocklib sample_provider"
  let ?dc = "(NewDiscoveryCache (minutes 10))\<lparr>dcMeta := [(''https://idp'', (?m, 0))]\<rparr>"
  obtain url st1 where l: "oidc_login ?J oidc_acme empty_store sample_start = (OidcRedirect url, oidc_acme\<lparr>osDiscovery := ?dc\<rparr>, st1)"
    by (simp add: oidc_login_def oidc_tenant_def oidc_acme_def sample_start_def acme_start_def Metadata_def NewDiscoveryCache_def
        fetch_metadata_def sample_net_def sample_oidclib_def mock_metadata_def sample_provider_def Let_def GenerateState_def
        GeneratePKCEVerifier_def PutOIDCRequest_def insert_row_def empty_store_def)
  obtain loc where a: "mock_authorize sample_mocklib sample_provider browser (Some ''c'') 0 = (MockRedirect loc, bob_provider)"
    using bob_authorized by blast
  have r: "randString (Some ''c'') = Some ''63''" by code_simp
  have md: "Metadata ?J sample_net ?dc ''https://idp'' (seconds 1) (seconds 1) = (Some ?m, ?dc)"
    by (simp add: Metadata_def NewDiscoveryCache_def minutes_def seconds_def)
  have ks: "cache_JWKS ?J sample_net ?dc ''https://idp'' (JWKSURI ?m) (seconds 1) (seconds 1)
      = (Some ?k, ?dc\<lparr>dcJWKS := [(''https://idp'', (?k, seconds 1))]\<rparr>)"
    by (simp add: cache_JWKS_def NewDiscoveryCache_def fetch_jwks_def sample_net_def sample_oidclib_def)
  have ps: "\<forall>(k, v)\<in>set (authorize_params ''gw'' ''https://gw/oidc/acme/callback'' (rawurl_encode ''s'') (rawurl_encode ''n'')
      (PKCEChallengeS256 ?J (rawurl_encode ''v'')) defaultScopes). browser k = v"
    by (simp add: browser_def authorize_params_def)
  have as: "ascii ''https://idp''" "ascii ''bob@acme''" "ascii ''Engineering''" "ascii ''gw''" by (simp_all add: ascii_def code_of_def)
  have u: "unix (seconds 1) = 1" by (simp add: unix_def seconds_def)
  have li: "liTenant sample_start = ''acme''" "liState sample_start = Some ''s''" "liNonce sample_start = Some ''n''"
    "liVerifier sample_start = Some ''v''" "liPut sample_start = 0" "liReturnTo sample_start = ''/home''"
    by (simp_all add: sample_start_def acme_start_def)
  have ci: "ciTenant bob_return = ''acme''" "ciQuery bob_return ''error'' = []" "ciQuery bob_return ''code'' = ''63''"
    "ciQuery bob_return ''state'' = rawurl_encode ''s''" "ciTake bob_return = seconds 1" "ciLookup bob_return = seconds 1"
    "ciFetched bob_return = seconds 1" "ciLookupKeys bob_return = seconds 1" "ciFetchedKeys bob_return = seconds 1"
    "ciVerify bob_return = seconds 1" "ciNet bob_return = sample_net" "ciRandom bob_return = Some ''sid-1''"
    by (simp_all add: bob_return_def acme_return_def)
  have sp: "mpIssuer sample_provider = ''https://idp''" "mpSubject sample_provider = ''bob@acme''" "mpDepartment sample_provider = ''Engineering''"
    by (simp_all add: sample_provider_def)
  have ac: "map_of (osTenants oidc_acme) ''acme'' = Some (snd (hd (osTenants oidc_acme)))"
    "tOIDCIssuer (snd (hd (osTenants oidc_acme))) = ''https://idp''" "tOIDCClientID (snd (hd (osTenants oidc_acme))) = ''gw''"
    "redirectURI oidc_acme ''acme'' = ''https://gw/oidc/acme/callback''" "browser ''state'' = rawurl_encode ''s''"
    by (simp_all add: oidc_acme_def redirectURI_def oidc_base_def browser_def authorize_params_def)
  have lib: "http_post sample_net u b = Some (200, [])" "ol_token ?J [] = Some bob_token" "ml_public sample_mocklib k = (3233, 17)" for u b k
    by (simp_all add: sample_net_def sample_oidclib_def sample_mocklib_def)
  have nn: "randString (Some ''c'') = Some (ciQuery bob_return ''code'')" by (simp add: r ci)
  have io: "interoperate ?J sample_mocklib (mpPriv sample_provider)" using sample_interoperate by simp
  have "\<exists>sess ck s2 st2. callback ?J (oidc_acme\<lparr>osDiscovery := ?dc\<rparr>) st1 bob_return
      = (OidcLoggedIn sess ck (liReturnTo sample_start), s2, st2) \<and> sSubject sess = mpSubject sample_provider"
  proof (rule mock_login_completes [OF io _ _ _ store_inv_empty l _ _ _ _ _ _ _ a _ _ nn,
        of 3233 17 "snd (hd (osTenants oidc_acme))" "''s''" "''n''" "''v''"
        ?dc "\<lambda>k. ''63''" "seconds 1" "Some ''d''" bob_token sample_provider "[]" "?dc\<lparr>dcJWKS := [(''https://idp'', (?k, seconds 1))]\<rparr>" "''sid-1''"], goal_cases)
    case 10 show ?case using ps by (simp only: ac li)
  next
    case 16 show ?case using md by (simp only: ci sp) simp
  next
    case 21 show ?case using ks by (simp only: ci sp)
  qed (simp_all only: lib li ci sp ac u as r bob_minted, simp_all add: minutes_def seconds_def empty_store_def)
  then show ?thesis using l unfolding li sp by blast
qed

end
