(* ===== verification/Keys.thy ===== *)
theory Keys
  imports SamlSp
begin

text \<open>
  The signing keys of the service providers, \<open>internal/saml/keys.go\<close>, over an explicit file system, and the whole of
  \<open>spFor\<close> of \<open>sp.go\<close> with its files.  PEM, PKCS, RSA and X.509 are parameters.  The properties: a key pair that was
  created is the one that is read back, so the identity of a service provider survives restarts of the gateway; and
  a certificate file that cannot be read costs the tenant its signing key.
\<close>

section \<open>Files\<close>

type_synonym files = "(string \<times> string) list"

text \<open>
  \<open>os.WriteFile\<close> truncates the file when it opens it, so that a write that fails behind that point leaves a part of
  the data.
\<close>

datatype write_outcome = Written | Refused | Cut nat

definition ReadFile :: "(string \<Rightarrow> bool) \<Rightarrow> files \<Rightarrow> string \<Rightarrow> string option" where
  "ReadFile readable fs p = (if readable p then map_of fs p else None)"

definition WriteFile :: "(string \<Rightarrow> write_outcome) \<Rightarrow> files \<Rightarrow> string \<Rightarrow> string \<Rightarrow> bool \<times> files" where
  "WriteFile outcome fs p data =
     (case outcome p of
        Written \<Rightarrow> (True, put fs p data)
      | Refused \<Rightarrow> (False, fs)
      | Cut n \<Rightarrow> (False, put fs p (take n data)))"

section \<open>Keys and certificates (keys.go)\<close>

record cert_template =
  ctSerial :: int
  ctCommonName :: string
  ctNotBefore :: instant
  ctNotAfter :: instant
  ctDigitalSignature :: bool
  ctBasicConstraintsValid :: bool

datatype pkcs8_key = RSAKey string | OtherKey

record keylib =
  kl_pem_decode :: "string \<Rightarrow> string option"
    \<comment> \<open>\<open>pem.Decode\<close>: the bytes of the first block\<close>
  kl_pem_encode :: "string \<Rightarrow> string \<Rightarrow> string"
    \<comment> \<open>\<open>pem.EncodeToMemory\<close>: type and bytes of the block\<close>
  kl_pkcs1 :: "string \<Rightarrow> string option"
  kl_pkcs8 :: "string \<Rightarrow> pkcs8_key option"
  kl_marshal_pkcs1 :: "string \<Rightarrow> string"
  kl_create_cert :: "cert_template \<Rightarrow> string \<Rightarrow> string option"
    \<comment> \<open>\<open>x509.CreateCertificate\<close>, self-signed with the key\<close>
  kl_parse_cert :: "string \<Rightarrow> certificate option"
  kl_add_years :: "instant \<Rightarrow> nat \<Rightarrow> instant"
    \<comment> \<open>\<open>Time.AddDate\<close>\<close>

text \<open>What one call reads beside its arguments: permissions, a fresh key, the clock and the fate of its writes.\<close>

record key_inputs =
  kiReadable :: "string \<Rightarrow> bool"
  kiMkdir :: "string \<Rightarrow> bool"
  kiGenerated :: "string option"
  kiSerial :: instant
  kiBefore :: instant
  kiAfter :: instant
  kiWrite :: "string \<Rightarrow> write_outcome"

datatype pem_error = NoPEMBlock | BadKey | NotRSA

datatype key_error =
    BadKeyFile pem_error | BadCertFile | BadCertificate | GenerateFailed | CreateFailed | WriteKeyFailed | WriteCertFailed

definition parseRSAKeyPEM :: "keylib \<Rightarrow> string \<Rightarrow> pem_error + string" where
  "parseRSAKeyPEM K data =
     (case kl_pem_decode K data of
        None \<Rightarrow> Inl NoPEMBlock
      | Some block \<Rightarrow>
          (case kl_pkcs1 K block of
             Some key \<Rightarrow> Inr key
           | None \<Rightarrow>
               (case kl_pkcs8 K block of
                  None \<Rightarrow> Inl BadKey
                | Some OtherKey \<Rightarrow> Inl NotRSA
                | Some (RSAKey key) \<Rightarrow> Inr key)))"

definition parseCertPEM :: "keylib \<Rightarrow> string \<Rightarrow> string option" where
  "parseCertPEM K data = kl_pem_decode K data"

definition sp_template :: "keylib \<Rightarrow> key_inputs \<Rightarrow> string \<Rightarrow> cert_template" where
  "sp_template K i entityID =
     \<lparr>ctSerial = kiSerial i, ctCommonName = entityID, ctNotBefore = kiBefore i - hours 1,
      ctNotAfter = kl_add_years K (kiAfter i) 3, ctDigitalSignature = True, ctBasicConstraintsValid = True\<rparr>"

definition createSPKeyPair ::
    "keylib \<Rightarrow> files \<Rightarrow> key_inputs \<Rightarrow> string \<Rightarrow> string \<Rightarrow> string \<Rightarrow> (key_error + string \<times> certificate \<times> string) \<times> files" where
  "createSPKeyPair K fs i keyPath certPath entityID =
     (case kiGenerated i of
        None \<Rightarrow> (Inl GenerateFailed, fs)
      | Some priv \<Rightarrow>
          (case kl_create_cert K (sp_template K i entityID) priv of
             None \<Rightarrow> (Inl CreateFailed, fs)
           | Some der \<Rightarrow>
               (case kl_parse_cert K der of
                  None \<Rightarrow> (Inl BadCertificate, fs)
                | Some cert \<Rightarrow>
                    (case WriteFile (kiWrite i) fs keyPath (kl_pem_encode K ''RSA PRIVATE KEY'' (kl_marshal_pkcs1 K priv)) of
                       (False, fs1) \<Rightarrow> (Inl WriteKeyFailed, fs1)
                     | (True, fs1) \<Rightarrow>
                         (case WriteFile (kiWrite i) fs1 certPath (kl_pem_encode K ''CERTIFICATE'' der) of
                            (False, fs2) \<Rightarrow> (Inl WriteCertFailed, fs2)
                          | (True, fs2) \<Rightarrow> (Inr (priv, cert, der), fs2))))))"

definition LoadOrCreateSPKeyPair ::
    "keylib \<Rightarrow> files \<Rightarrow> key_inputs \<Rightarrow> string \<Rightarrow> string \<Rightarrow> string \<Rightarrow> (key_error + string \<times> certificate \<times> string) \<times> files" where
  "LoadOrCreateSPKeyPair K fs i keyPath certPath entityID =
     (case (ReadFile (kiReadable i) fs keyPath, ReadFile (kiReadable i) fs certPath) of
        (Some keyPEM, Some certPEM) \<Rightarrow>
          (case parseRSAKeyPEM K keyPEM of
             Inl e \<Rightarrow> (Inl (BadKeyFile e), fs)
           | Inr priv \<Rightarrow>
               (case parseCertPEM K certPEM of
                  None \<Rightarrow> (Inl BadCertFile, fs)
                | Some der \<Rightarrow>
                    (case kl_parse_cert K der of
                       None \<Rightarrow> (Inl BadCertificate, fs)
                     | Some cert \<Rightarrow> (Inr (priv, cert, der), fs))))
      | _ \<Rightarrow> createSPKeyPair K fs i keyPath certPath entityID)"

section \<open>The service provider of a tenant, with its files (sp.go)\<close>

definition key_path :: "saml_server \<Rightarrow> string \<Rightarrow> string" where
  "key_path s tenantID = ssKeyDir s @ ''/'' @ tenantID @ ''.key.pem''"

definition cert_path :: "saml_server \<Rightarrow> string \<Rightarrow> string" where
  "cert_path s tenantID = ssKeyDir s @ ''/'' @ tenantID @ ''.cert.pem''"

definition spFor_files :: "keylib \<Rightarrow> saml_server \<Rightarrow> files \<Rightarrow> key_inputs \<Rightarrow> string \<Rightarrow> SP option \<times> saml_server \<times> files" where
  "spFor_files K s fs i tenantID =
     (case map_of (ssSPs s) tenantID of
        Some sp \<Rightarrow> (Some sp, s, fs)
      | None \<Rightarrow>
          if \<not> kiMkdir i (ssKeyDir s) then (None, s, fs)
          else
            let entityID = saml_base s tenantID @ ''/saml/'' @ tenantID @ ''/metadata''
            in case LoadOrCreateSPKeyPair K fs i (key_path s tenantID) (cert_path s tenantID) entityID of
                 (Inl e, fs') \<Rightarrow> (None, s, fs')
               | (Inr (priv, cert, der), fs') \<Rightarrow>
                   let sp = \<lparr>spEntityID = entityID, spACSURL = saml_base s tenantID @ ''/saml/'' @ tenantID @ ''/acs'',
                             spPrivateKey = priv, spCertDER = der\<rparr>
                   in (Some sp, s\<lparr>ssSPs := put (ssSPs s) tenantID sp\<rparr>, fs'))"

text \<open>
  A gateway process asks for its providers in any order; a restart keeps the files and loses the cache.  The files
  can be read, and what has been generated, the clock and the fate of the writes are arbitrary.
\<close>

inductive sp_step :: "keylib \<Rightarrow> saml_server \<times> files \<Rightarrow> saml_server \<times> files \<Rightarrow> bool" for K where
  ask: "spFor_files K s fs i t = (r, s', fs') \<Longrightarrow> kiReadable i = (\<lambda>p. True) \<Longrightarrow> sp_step K (s, fs) (s', fs')"
| restart: "sp_step K (s, fs) (s\<lparr>ssSPs := []\<rparr>, fs)"

section \<open>Facts\<close>

text \<open>PEM blocks and PKCS1 keys are read back as they were written.\<close>

definition keys_read_back :: "keylib \<Rightarrow> bool" where
  "keys_read_back K \<longleftrightarrow> (\<forall>ty b. kl_pem_decode K (kl_pem_encode K ty b) = Some b) \<and> (\<forall>k. kl_pkcs1 K (kl_marshal_pkcs1 K k) = Some k)"

definition key_files :: "keylib \<Rightarrow> files \<Rightarrow> string \<Rightarrow> string \<Rightarrow> string \<times> certificate \<times> string \<Rightarrow> bool" where
  "key_files K fs keyPath certPath pair \<longleftrightarrow>
     (\<exists>keyPEM certPEM. map_of fs keyPath = Some keyPEM \<and> map_of fs certPath = Some certPEM
       \<and> parseRSAKeyPEM K keyPEM = Inr (fst pair) \<and> parseCertPEM K certPEM = Some (snd (snd pair))
       \<and> kl_parse_cert K (snd (snd pair)) = Some (fst (snd pair)))"

lemma WriteFile_other: "WriteFile w fs p data = (ok, fs') \<Longrightarrow> \<forall>q. q \<noteq> p \<longrightarrow> map_of fs' q = map_of fs q"
  by (auto simp: WriteFile_def map_of_put split: write_outcome.splits)

lemma WriteFile_True: "WriteFile w fs p data = (True, fs') \<longleftrightarrow> w p = Written \<and> fs' = put fs p data"
  by (auto simp: WriteFile_def split: write_outcome.splits)

lemma key_files_load:
  assumes "key_files K fs keyPath certPath pair" and "kiReadable i keyPath" and "kiReadable i certPath"
  shows "LoadOrCreateSPKeyPair K fs i keyPath certPath e = (Inr pair, fs)"
  using assms by (cases pair) (auto simp: key_files_def LoadOrCreateSPKeyPair_def ReadFile_def)

lemma parse_written:
  assumes "keys_read_back K"
  shows "parseRSAKeyPEM K (kl_pem_encode K ty (kl_marshal_pkcs1 K k)) = Inr k" and "parseCertPEM K (kl_pem_encode K ty b) = Some b"
  using assms by (simp_all add: keys_read_back_def parseRSAKeyPEM_def parseCertPEM_def)

lemma createSPKeyPair_files:
  assumes "keys_read_back K" and "keyPath \<noteq> certPath" and "createSPKeyPair K fs i keyPath certPath e = (Inr pair, fs')"
  shows "key_files K fs' keyPath certPath pair"
  using assms(2,3) parse_written [OF assms(1)]
  by (auto simp: createSPKeyPair_def WriteFile_True key_files_def map_of_put split: option.splits prod.splits bool.splits)

lemma LoadOrCreate_files:
  assumes "keys_read_back K" and "keyPath \<noteq> certPath" and "LoadOrCreateSPKeyPair K fs i keyPath certPath e = (Inr pair, fs')"
  shows "key_files K fs' keyPath certPath pair"
  using assms(3) createSPKeyPair_files [OF assms(1,2)]
  by (auto simp: LoadOrCreateSPKeyPair_def ReadFile_def split: option.splits if_splits sum.splits)
     (auto simp: key_files_def)

lemma LoadOrCreate_other:
  assumes "LoadOrCreateSPKeyPair K fs i keyPath certPath e = (r, fs')" and "q \<noteq> keyPath" and "q \<noteq> certPath"
  shows "map_of fs' q = map_of fs q"
proof -
  have "createSPKeyPair K fs i keyPath certPath e = (r, fs') \<Longrightarrow> map_of fs' q = map_of fs q"
    using assms(2,3) by (auto simp: createSPKeyPair_def split: option.splits prod.splits bool.splits dest!: WriteFile_other)
  then show ?thesis
    using assms(1) by (auto simp: LoadOrCreateSPKeyPair_def split: option.splits sum.splits)
qed

lemma paths_differ:
  "key_path s t \<noteq> cert_path s' t'"
  "ssKeyDir s' = ssKeyDir s \<Longrightarrow> key_path s t = key_path s' t' \<longleftrightarrow> t = t'"
  "ssKeyDir s' = ssKeyDir s \<Longrightarrow> cert_path s t = cert_path s' t' \<longleftrightarrow> t = t'"
proof -
  have "take 8 (rev (key_path s t)) = rev ''.key.pem''" "take 8 (rev (cert_path s' t')) = rev ''cert.pem''"
    by (simp_all add: key_path_def cert_path_def)
  then show "key_path s t \<noteq> cert_path s' t'" by auto
qed (auto simp: key_path_def cert_path_def)

text \<open>The providers in the cache are those of the files.\<close>

definition backed :: "keylib \<Rightarrow> saml_server \<Rightarrow> files \<Rightarrow> string \<Rightarrow> SP \<Rightarrow> bool" where
  "backed K s fs t sp \<longleftrightarrow>
     (\<exists>cert. key_files K fs (key_path s t) (cert_path s t) (spPrivateKey sp, cert, spCertDER sp))
     \<and> spEntityID sp = saml_base s t @ ''/saml/'' @ t @ ''/metadata'' \<and> spACSURL sp = saml_base s t @ ''/saml/'' @ t @ ''/acs''"

definition all_backed :: "keylib \<Rightarrow> saml_server \<times> files \<Rightarrow> bool" where
  "all_backed K c \<longleftrightarrow> (\<forall>t sp. map_of (ssSPs (fst c)) t = Some sp \<longrightarrow> backed K (fst c) (snd c) t sp)"

lemma spFor_files_frame:
  "spFor_files K s fs i t = (r, s', fs') \<Longrightarrow> ssKeyDir s' = ssKeyDir s \<and> ssPublicBaseURL s' = ssPublicBaseURL s"
  by (auto simp: spFor_files_def Let_def split: option.splits prod.splits sum.splits if_splits)

lemma backed_cong:
  assumes "ssKeyDir s' = ssKeyDir s" and "ssPublicBaseURL s' = ssPublicBaseURL s"
    and "map_of fs' (key_path s t) = map_of fs (key_path s t)" and "map_of fs' (cert_path s t) = map_of fs (cert_path s t)"
  shows "backed K s' fs' t sp \<longleftrightarrow> backed K s fs t sp"
  using assms by (simp add: backed_def key_files_def key_path_def cert_path_def saml_base_def)

text \<open>A provider that is backed by its files is the one that is given out, and stays backed.\<close>

lemma spFor_files_backed:
  assumes "all_backed K (s, fs)" and "backed K s fs t sp" and "kiReadable i = (\<lambda>p. True)" and "kiMkdir i (ssKeyDir s)"
    and "spFor_files K s fs i t = (r, s', fs')"
  shows "r = Some sp \<and> fs' = fs"
proof (cases "map_of (ssSPs s) t")
  case (Some sp')
  then have "backed K s fs t sp'" using assms(1) by (simp add: all_backed_def)
  then have "sp' = sp" using assms(2) by (auto simp: backed_def key_files_def intro: SP.equality)
  then show ?thesis using assms(5) Some by (simp add: spFor_files_def)
next
  case None
  obtain cert where "key_files K fs (key_path s t) (cert_path s t) (spPrivateKey sp, cert, spCertDER sp)"
    using assms(2) by (auto simp: backed_def)
  note l = key_files_load [OF this, of i]
  show ?thesis using None l assms(2-5) by (auto simp: spFor_files_def Let_def backed_def)
qed

lemma spFor_files_keeps:
  assumes "keys_read_back K" and "all_backed K (s, fs)" and "kiReadable i = (\<lambda>p. True)" and "spFor_files K s fs i t = (r, s', fs')"
  shows "all_backed K (s', fs')" and "backed K s fs u sp \<Longrightarrow> backed K s' fs' u sp"
    and "r = Some sp \<Longrightarrow> backed K s' fs' t sp"
proof -
  note frame = spFor_files_frame [OF assms(4)]
  show keep: "backed K s' fs' u sp" if b: "backed K s fs u sp" for u sp
  proof (cases "u = t")
    case True
    have "map_of fs' p = map_of fs p" for p
    proof (cases "kiMkdir i (ssKeyDir s)")
      case True
      then show ?thesis using spFor_files_backed [OF assms(2) _ assms(3) _ assms(4)] b \<open>u = t\<close> by blast
    next
      case False
      then show ?thesis using assms(4) by (auto simp: spFor_files_def split: option.splits)
    qed
    then show ?thesis using b backed_cong [of s' s fs' u fs K sp] frame by blast
  next
    case False
    have "map_of fs' p = map_of fs p" if "p \<noteq> key_path s t" "p \<noteq> cert_path s t" for p
      using assms(4) LoadOrCreate_other that
      by (auto simp: spFor_files_def Let_def split: option.splits prod.splits sum.splits if_splits)
    then have "map_of fs' (key_path s u) = map_of fs (key_path s u)" "map_of fs' (cert_path s u) = map_of fs (cert_path s u)"
      using False paths_differ by (metis)+
    then show ?thesis using b backed_cong [of s' s fs' u fs K sp] frame by blast
  qed
  show new: "backed K s' fs' t sp" if r: "r = Some sp" for sp
  proof (cases "map_of (ssSPs s) t")
    case (Some sp')
    then show ?thesis using assms(2,4) r by (simp add: spFor_files_def all_backed_def)
  next
    case None
    then obtain priv cert der where l: "LoadOrCreateSPKeyPair K fs i (key_path s t) (cert_path s t)
          (saml_base s t @ ''/saml/'' @ t @ ''/metadata'') = (Inr (priv, cert, der), fs')"
      and sp: "sp = \<lparr>spEntityID = saml_base s t @ ''/saml/'' @ t @ ''/metadata'', spACSURL = saml_base s t @ ''/saml/'' @ t @ ''/acs'',
          spPrivateKey = priv, spCertDER = der\<rparr>"
      using assms(4) r by (auto simp: spFor_files_def Let_def split: if_splits prod.splits sum.splits)
    have "key_files K fs' (key_path s t) (cert_path s t) (priv, cert, der)"
      by (rule LoadOrCreate_files [OF assms(1) paths_differ(1) l])
    then show ?thesis using frame sp by (auto simp: backed_def key_path_def cert_path_def saml_base_def)
  qed
  have "map_of (ssSPs s') u = Some sp \<Longrightarrow> map_of (ssSPs s) u = Some sp \<or> u = t \<and> r = Some sp" for u sp
    using assms(4) by (auto simp: spFor_files_def Let_def map_of_put split: option.splits prod.splits sum.splits if_splits)
  then show "all_backed K (s', fs')"
    using keep new assms(2) unfolding all_backed_def fst_conv snd_conv by blast
qed

lemma restart_backed: "backed K (s\<lparr>ssSPs := x\<rparr>) fs t sp \<longleftrightarrow> backed K s fs t sp"
  by (rule backed_cong) simp_all

lemma sp_step_keeps:
  assumes "keys_read_back K" and "sp_step K c c'" and "all_backed K c"
  shows "all_backed K c' \<and> ssKeyDir (fst c') = ssKeyDir (fst c) \<and> (backed K (fst c) (snd c) t sp \<longrightarrow> backed K (fst c') (snd c') t sp)"
  using assms(2)
proof (cases rule: sp_step.cases)
  case (ask s fs i t' r s' fs')
  then show ?thesis using spFor_files_keeps(1,2) [OF assms(1) _ ask(4,3)] spFor_files_frame [OF ask(3)] assms(3) by simp
next
  case (restart s fs)
  then show ?thesis by (simp add: all_backed_def restart_backed)
qed

lemma sp_steps_keep:
  assumes "keys_read_back K" and "(sp_step K)\<^sup>*\<^sup>* c c'" and "all_backed K c"
  shows "all_backed K c' \<and> ssKeyDir (fst c') = ssKeyDir (fst c) \<and> (backed K (fst c) (snd c) t sp \<longrightarrow> backed K (fst c') (snd c') t sp)"
  using assms(2)
proof (induction rule: rtranclp_induct)
  case (step y z)
  then show ?case using sp_step_keeps [OF assms(1) step.hyps(2)] step.IH by simp
qed (simp add: assms(3))

text \<open>The server of \<open>SamlSp\<close>, whose key pairs are a parameter, makes the step with the pair that is in the files.\<close>

lemma spFor_files_spFor:
  assumes "spFor_files K s fs i t = (r, s', fs')" and "kiMkdir i (ssKeyDir s)"
  shows "spFor (P\<lparr>pl_key_pair := \<lambda>kp cp e. case fst (LoadOrCreateSPKeyPair K fs i kp cp e) of
      Inl err \<Rightarrow> None | Inr (priv, cert, der) \<Rightarrow> Some (priv, der)\<rparr>) s t = (r, s')"
proof (cases "map_of (ssSPs s) t")
  case (Some sp)
  then have "r = Some sp" "s' = s" using assms(1) by (simp_all add: spFor_files_def)
  then show ?thesis using Some by (simp add: spFor_def)
next
  case None
  then show ?thesis using assms
    by (auto simp: spFor_files_def spFor_def key_path_def cert_path_def saml_base_def Let_def split: sum.splits prod.splits)
qed

section \<open>Properties\<close>

text \<open>
  C26: The identity of a service provider survives restarts.  When a server that started with an empty cache has given
  out the provider of a tenant, then after any number of further requests, for this and other tenants, and of
  restarts, the tenant's provider is still the same: the same identifiers, the same signing key and the same
  certificate, and asking for it writes no file.
\<close>

theorem sp_identity_survives_restarts:
  assumes "keys_read_back K" and "ssSPs s0 = []" and "(sp_step K)\<^sup>*\<^sup>* (s0, fs0) (s, fs)"
    and "spFor_files K s fs i t = (Some sp, s1, fs1)" and "kiReadable i = (\<lambda>p. True)"
    and "(sp_step K)\<^sup>*\<^sup>* (s1, fs1) (s2, fs2)" and "kiReadable j = (\<lambda>p. True)" and "kiMkdir j (ssKeyDir s2)"
  shows "\<exists>s3. spFor_files K s2 fs2 j t = (Some sp, s3, fs2)"
proof -
  have "all_backed K (s0, fs0)" by (simp add: all_backed_def assms(2))
  then have "all_backed K (s, fs)" using sp_steps_keep [OF assms(1,3)] by blast
  note first = spFor_files_keeps [OF assms(1) this assms(5,4)]
  then have "all_backed K (s1, fs1)" "backed K s1 fs1 t sp" by simp_all
  then have "all_backed K (s2, fs2)" "backed K s2 fs2 t sp" using sp_steps_keep [OF assms(1,6)] by auto
  then show ?thesis
    using spFor_files_backed [of K s2 fs2 t sp j] assms(7,8) by (cases "spFor_files K s2 fs2 j t") auto
qed

text \<open>
  A certificate file that is missing or cannot be read costs the tenant its signing key.  A pair that was in the
  files is not looked at: the call takes the fresh key, and the key file holds it afterwards.
\<close>

theorem unreadable_certificate_replaces_key:
  assumes "keys_read_back K" and "keyPath \<noteq> certPath" and "ReadFile (kiReadable i) fs certPath = None"
    and "kiGenerated i = Some fresh" and "LoadOrCreateSPKeyPair K fs i keyPath certPath entityID = (Inr (priv, cert, der), fs')"
  shows "priv = fresh \<and> map_option (parseRSAKeyPEM K) (map_of fs' keyPath) = Some (Inr fresh)"
proof -
  have c: "createSPKeyPair K fs i keyPath certPath entityID = (Inr (priv, cert, der), fs')"
    using assms(3,5) by (simp add: LoadOrCreateSPKeyPair_def split: option.splits)
  then have "priv = fresh" using assms(4) by (auto simp: createSPKeyPair_def split: option.splits prod.splits bool.splits)
  moreover obtain keyPEM where "map_of fs' keyPath = Some keyPEM" "parseRSAKeyPEM K keyPEM = Inr priv"
    using createSPKeyPair_files [OF assms(1,2) c] by (auto simp: key_files_def)
  ultimately show ?thesis by simp
qed

section \<open>Samples\<close>

definition plain_keylib :: keylib where
  "plain_keylib = \<lparr>kl_pem_decode = (\<lambda>s. if s = [] then None else Some (tl s)), kl_pem_encode = (\<lambda>ty b. CHR ''P'' # b),
     kl_pkcs1 = Some, kl_pkcs8 = (\<lambda>b. None), kl_marshal_pkcs1 = (\<lambda>k. k), kl_create_cert = (\<lambda>c k. Some (''cert-'' @ k)),
     kl_parse_cert = (\<lambda>der. Some (RSACert der)), kl_add_years = (\<lambda>t y. t + hours (int y * 8760))\<rparr>"

definition key_sample :: "string \<Rightarrow> key_inputs" where
  "key_sample k = \<lparr>kiReadable = (\<lambda>p. True), kiMkdir = (\<lambda>d. True), kiGenerated = Some k, kiSerial = 0, kiBefore = 0, kiAfter = 0,
     kiWrite = (\<lambda>p. Written)\<rparr>"

definition fresh_server :: saml_server where
  "fresh_server = \<lparr>ssTenants = [], ssKeyDir = ''data'', ssPublicBaseURL = None, ssSPs = [], ssIdPCache = []\<rparr>"

lemma plain_keylib_read_back: "keys_read_back plain_keylib"
  by (simp add: keys_read_back_def plain_keylib_def)

theorem sp_identity_survives_restarts_witness:
  "\<exists>sp s1 fs1 s3. spFor_files plain_keylib fresh_server [] (key_sample ''k1'') ''acme'' = (Some sp, s1, fs1)
    \<and> spPrivateKey sp = ''k1'' \<and> spFor_files plain_keylib (s1\<lparr>ssSPs := []\<rparr>) fs1 (key_sample ''k2'') ''acme'' = (Some sp, s3, fs1)"
proof -
  obtain sp s1 fs1 where f: "spFor_files plain_keylib fresh_server [] (key_sample ''k1'') ''acme'' = (Some sp, s1, fs1)"
    "spPrivateKey sp = ''k1''"
    by (simp add: spFor_files_def fresh_server_def key_sample_def LoadOrCreateSPKeyPair_def ReadFile_def createSPKeyPair_def
        plain_keylib_def WriteFile_def Let_def)
  have i: "kiReadable (key_sample k) = (\<lambda>p. True)" "kiMkdir (key_sample k) d" for k d by (simp_all add: key_sample_def)
  have "ssSPs fresh_server = []" by (simp add: fresh_server_def)
  note survives = sp_identity_survives_restarts [OF plain_keylib_read_back this rtranclp.rtrancl_refl f(1) i(1) _ i]
  show ?thesis using survives [OF r_into_rtranclp, OF sp_step.restart] f by blast
qed

theorem unreadable_certificate_replaces_key_witness:
  "fst (LoadOrCreateSPKeyPair plain_keylib [(''k'', ''Pold''), (''c'', ''Pcert-old'')] (key_sample ''new'') ''k'' ''c'' ''e'')
     = Inr (''old'', RSACert ''cert-old'', ''cert-old'')
   \<and> (\<exists>priv cert der fs'. LoadOrCreateSPKeyPair plain_keylib [(''k'', ''Pold''), (''c'', ''Pcert-old'')]
       ((key_sample ''new'')\<lparr>kiReadable := (\<lambda>p. p \<noteq> ''c'')\<rparr>) ''k'' ''c'' ''e'' = (Inr (priv, cert, der), fs') \<and> priv = ''new'')"
proof -
  let ?i = "(key_sample ''new'')\<lparr>kiReadable := (\<lambda>p. p \<noteq> ''c'')\<rparr>" and ?fs = "[(''k'', ''Pold''), (''c'', ''Pcert-old'')]"
  obtain priv cert der fs' where l: "LoadOrCreateSPKeyPair plain_keylib ?fs ?i ''k'' ''c'' ''e'' = (Inr (priv, cert, der), fs')"
    by (simp add: LoadOrCreateSPKeyPair_def ReadFile_def createSPKeyPair_def plain_keylib_def key_sample_def WriteFile_def)
  have "priv = ''new''"
    using unreadable_certificate_replaces_key [OF plain_keylib_read_back _ _ _ l, of "''new''"] by (simp add: ReadFile_def key_sample_def)
  moreover have "fst (LoadOrCreateSPKeyPair plain_keylib ?fs (key_sample ''new'') ''k'' ''c'' ''e'') = Inr (''old'', RSACert ''cert-old'', ''cert-old'')"
    by (simp add: LoadOrCreateSPKeyPair_def ReadFile_def plain_keylib_def key_sample_def parseRSAKeyPEM_def parseCertPEM_def)
  ultimately show ?thesis using l by blast
qed

end
