(* ===== verification/XmlText.thy ===== *)
theory XmlText
  imports SamlSp
begin

text \<open>
  Documents as written: a list of tokens, each with its source text.  What the XML decoder gives for the
  text of such a document is the hypothesis \<open>reads\<close>; the raw start tags, the ends of the elements and the
  namespaces in scope then follow, also for a part of a document, wherever it stands in a larger one.
\<close>

section \<open>Text and tokens\<close>

type_synonym segments = "(xtoken \<times> string) list"

definition open_tag :: "string \<Rightarrow> string \<Rightarrow> string \<Rightarrow> (string \<times> string \<times> string) list \<Rightarrow> xtoken \<times> string" where
  "open_tag pfx uri nm attrs =
     (StartElement (uri, nm) (map (\<lambda>(p, k, v). ((p, k), v)) attrs),
      ''<'' @ pfx @ '':'' @ nm
      @ concat (map (\<lambda>(p, k, v). '' '' @ (if p = [] then k else p @ '':'' @ k) @ ''='' @ quoted v) attrs) @ ''>'')"

definition close_tag :: "string \<Rightarrow> string \<Rightarrow> xtoken \<times> string" where
  "close_tag pfx nm = (EndElement, ''</'' @ pfx @ '':'' @ nm @ ''>'')"

definition leaf :: "string \<Rightarrow> string \<Rightarrow> string \<Rightarrow> (string \<times> string \<times> string) list \<Rightarrow> string \<Rightarrow> segments" where
  "leaf pfx uri nm attrs t =
     open_tag pfx uri nm attrs # (if t = [] then [] else [(CharData t, t)]) @ [close_tag pfx nm]"

definition source_of :: "segments \<Rightarrow> string" where
  "source_of segs = concat (map snd segs)"

fun offsets :: "nat \<Rightarrow> segments \<Rightarrow> (xtoken \<times> nat) list" where
  "offsets n [] = []"
| "offsets n ((t, src) # segs) = (t, n + length src) # offsets (n + length src) segs"

text \<open>The decoder gives the tokens of a document, the raw scanner the same with the ends of their texts.\<close>

definition reads :: "xmllib \<Rightarrow> segments \<Rightarrow> bool" where
  "reads X segs \<longleftrightarrow> decode_tokens X (source_of segs) = Some (map fst segs) \<and> decode_raw X (source_of segs) = Some (offsets 0 segs)"

text \<open>The raw start tags of a document, and that the scanner finds them.\<close>

fun raw_of :: "nat \<Rightarrow> segments \<Rightarrow> (nat \<times> string) list" where
  "raw_of i [] = []"
| "raw_of i ((t, src) # segs) =
     (case t of StartElement nm attrs \<Rightarrow> (i, TrimSpace src) # raw_of (Suc i) segs | _ \<Rightarrow> raw_of (Suc i) segs)"

lemma raw_tags_of_segments:
  "raw_tags_loop (pre @ source_of segs) i (length pre) (offsets (length pre) segs) = raw_of i segs"
proof (induction segs arbitrary: i pre)
  case (Cons seg segs)
  obtain t src where seg: "seg = (t, src)" by (cases seg)
  have "raw_tags_loop ((pre @ src) @ source_of segs) (Suc i) (length (pre @ src)) (offsets (length (pre @ src)) segs)
      = raw_of (Suc i) segs" by (rule Cons.IH)
  then show ?case by (cases t) (simp_all add: seg source_of_def)
qed simp

lemma captureRawTags_reads: "reads X segs \<Longrightarrow> captureRawTags X (source_of segs) = Some (raw_of 0 segs)"
  using raw_tags_of_segments [of "[]" segs 0] by (simp add: captureRawTags_def reads_def)

lemma parseXMLDoc_reads: "reads X segs \<Longrightarrow> parseXMLDoc X (source_of segs) = Some (index_doc (map fst segs))"
  by (simp add: parseXMLDoc_def reads_def)

lemma map_of_raw_of:
  "map_of (raw_of i segs) j =
     (if i \<le> j \<and> j < i + length segs \<and> is_start_tok (fst (segs ! (j - i))) then Some (TrimSpace (snd (segs ! (j - i)))) else None)"
proof (induction i segs rule: raw_of.induct)
  case (2 i t src segs)
  have "j - i = Suc (j - Suc i)" if "i < j" using that by simp
  then show ?case using "2.IH" by (cases "j = i"; cases "i < j"; cases t) (auto simp: is_start_tok_def)
qed simp

section \<open>Parts of documents\<close>

text \<open>The loop of \<open>index\<close> only ever prepends to what it has collected.\<close>

lemma index_loop_acc:
  "index_loop i ts stk cur ends scopes =
     (fst (index_loop i ts stk cur [] []) @ ends, snd (index_loop i ts stk cur [] []) @ scopes)"
proof (induction ts arbitrary: i stk cur ends scopes)
  case (Cons t ts)
  show ?case
  proof (cases t)
    case (StartElement nm attrs)
    then show ?thesis
      using Cons.IH [of "Suc i" "(i, cur) # stk" "declare_ns cur attrs" ends "(i, cur) # scopes"]
        Cons.IH [of "Suc i" "(i, cur) # stk" "declare_ns cur attrs" "[]" "[(i, cur)]"] by simp
  next
    case EndElement
    show ?thesis
    proof (cases stk)
      case Nil
      then show ?thesis using EndElement Cons.IH [of "Suc i" "[]" cur ends scopes] by simp
    next
      case (Cons top rest)
      obtain s scope where top: "top = (s, scope)" by (cases top)
      show ?thesis
        using EndElement Cons Cons.IH [of "Suc i" rest scope "(s, i) # ends" scopes] Cons.IH [of "Suc i" rest scope "[(s, i)]" "[]"]
        by (simp add: top)
    qed
  next
    case (CharData x)
    then show ?thesis using Cons.IH [of "Suc i" stk cur ends scopes] by simp
  next
    case OtherToken
    then show ?thesis using Cons.IH [of "Suc i" stk cur ends scopes] by simp
  qed
qed simp

text \<open>A balanced part is read like on its own, and leaves the scope and the open elements as they were.\<close>

definition end_scope :: "(nat \<times> nsScope) list \<Rightarrow> nsScope \<Rightarrow> nsScope" where
  "end_scope stk cur = (if stk = [] then cur else snd (last stk))"

lemma index_loop_frame:
  assumes "balanced (length stk) ts"
  shows "index_loop i (ts @ rest) (stk @ stack) cur ends scopes =
    index_loop (i + length ts) rest stack (end_scope stk cur)
      (fst (index_loop i ts stk cur [] []) @ ends) (snd (index_loop i ts stk cur [] []) @ scopes)"
  using assms
proof (induction ts arbitrary: i stk cur ends scopes)
  case Nil
  then show ?case by (simp add: end_scope_def)
next
  case (Cons t ts)
  show ?case
  proof (cases t)
    case (StartElement nm attrs)
    then show ?thesis
      using Cons.prems Cons.IH [of "(i, cur) # stk" "Suc i" "declare_ns cur attrs" ends "(i, cur) # scopes"]
        index_loop_acc [of "Suc i" ts "(i, cur) # stk" "declare_ns cur attrs" "[]" "[(i, cur)]"]
      by (simp add: end_scope_def)
  next
    case EndElement
    then obtain s scope stk' where stk: "stk = (s, scope) # stk'" using Cons.prems by (cases stk) auto
    have "end_scope stk' scope = end_scope stk cur" by (simp add: end_scope_def stk)
    then show ?thesis
      using EndElement stk Cons.prems Cons.IH [of stk' "Suc i" scope "(s, i) # ends" scopes]
        index_loop_acc [of "Suc i" ts stk' scope "[(s, i)]" "[]"]
      by simp
  next
    case (CharData x)
    then show ?thesis using Cons.prems Cons.IH [of stk "Suc i" cur ends scopes] by simp
  next
    case OtherToken
    then show ?thesis using Cons.prems Cons.IH [of stk "Suc i" cur ends scopes] by simp
  qed
qed

text \<open>Positions shift with the part; scopes that agree on some prefixes still do.\<close>

definition agree :: "string set \<Rightarrow> nsScope \<Rightarrow> nsScope \<Rightarrow> bool" where
  "agree P s s' \<longleftrightarrow> (\<forall>p\<in>P. ns_lookup s p = ns_lookup s' p)"

lemma ns_lookup_put: "ns_lookup (put s k v) p = (if p = k then v else ns_lookup s p)"
  by (simp add: ns_lookup_def map_of_put)

lemma agree_declare: "agree P s s' \<Longrightarrow> agree P (declare_ns s attrs) (declare_ns s' attrs)"
  unfolding declare_ns_def
  by (induction attrs arbitrary: s s') (simp_all add: agree_def ns_lookup_put)

abbreviation shifted :: "string set \<Rightarrow> nat \<Rightarrow> nat \<times> nsScope \<Rightarrow> nat \<times> nsScope \<Rightarrow> bool" where
  "shifted P off a b \<equiv> fst b = fst a + off \<and> agree P (snd a) (snd b)"

lemma index_loop_shift:
  assumes "list_all2 (shifted P off) stk stk'" and "agree P cur cur'" and "list_all2 (shifted P off) scopes scopes'"
  shows "fst (index_loop (i + off) ts stk' cur' (map (\<lambda>(s, e). (s + off, e + off)) ends) scopes')
        = map (\<lambda>(s, e). (s + off, e + off)) (fst (index_loop i ts stk cur ends scopes))
    \<and> list_all2 (shifted P off) (snd (index_loop i ts stk cur ends scopes))
        (snd (index_loop (i + off) ts stk' cur' (map (\<lambda>(s, e). (s + off, e + off)) ends) scopes'))"
  using assms
proof (induction ts arbitrary: i stk stk' cur cur' ends scopes scopes')
  case (Cons t ts)
  show ?case
  proof (cases t)
    case (StartElement nm attrs)
    then show ?thesis
      using Cons.prems Cons.IH [of "(i, cur) # stk" "(i + off, cur') # stk'" "declare_ns cur attrs" "declare_ns cur' attrs"
        "(i, cur) # scopes" "(i + off, cur') # scopes'" "Suc i" ends] by (simp add: agree_declare)
  next
    case EndElement
    show ?thesis
    proof (cases stk)
      case Nil
      then show ?thesis using EndElement Cons.prems Cons.IH [of "[]" "[]" cur cur' scopes scopes' "Suc i" ends] by simp
    next
      case (Cons top rest)
      then obtain top' rest' where stk': "stk' = top' # rest'" "shifted P off top top'" "list_all2 (shifted P off) rest rest'"
        using Cons.prems(1) by (cases stk') auto
      show ?thesis
        using EndElement Cons stk' Cons.prems Cons.IH [of rest rest' "snd top" "snd top'" scopes scopes' "Suc i" "(fst top, i) # ends"]
        by (cases top; cases top') simp
    qed
  next
    case (CharData x)
    then show ?thesis using Cons.prems Cons.IH [of stk stk' cur cur' scopes scopes' "Suc i" ends] by simp
  next
    case OtherToken
    then show ?thesis using Cons.prems Cons.IH [of stk stk' cur cur' scopes scopes' "Suc i" ends] by simp
  qed
qed simp

text \<open>Later tokens leave what is known about earlier elements, apart from the open ones.\<close>

lemma index_loop_keeps:
  assumes "s < i"
  shows "s \<notin> fst ` set stk \<Longrightarrow> map_of (fst (index_loop i ts stk cur ends scopes)) s = map_of ends s"
    and "map_of (snd (index_loop i ts stk cur ends scopes)) s = map_of scopes s"
  using assms by (induction i ts stk cur ends scopes rule: index_loop.induct) (auto split: list.splits)

text \<open>The scope behind a part of a document.\<close>

fun scope_walk :: "xtoken list \<Rightarrow> nsScope list \<Rightarrow> nsScope \<Rightarrow> nsScope list \<times> nsScope" where
  "scope_walk [] stk cur = (stk, cur)"
| "scope_walk (StartElement nm attrs # ts) stk cur = scope_walk ts (cur # stk) (declare_ns cur attrs)"
| "scope_walk (EndElement # ts) stk cur = (case stk of [] \<Rightarrow> scope_walk ts stk cur | s # stk' \<Rightarrow> scope_walk ts stk' s)"
| "scope_walk (CharData t # ts) stk cur = scope_walk ts stk cur"
| "scope_walk (OtherToken # ts) stk cur = scope_walk ts stk cur"

definition scope_after :: "xtoken list \<Rightarrow> nsScope" where
  "scope_after ts = snd (scope_walk ts [] [])"

lemma scope_walk_append: "scope_walk (ts @ us) stk cur = scope_walk us (fst (scope_walk ts stk cur)) (snd (scope_walk ts stk cur))"
  by (induction ts stk cur rule: scope_walk.induct) (auto split: list.splits)

lemma scope_walk_balanced:
  "balanced (length stk) ts \<Longrightarrow> scope_walk ts (stk @ stk') cur = (stk', if stk = [] then cur else last stk)"
proof (induction ts arbitrary: stk cur)
  case (Cons t ts)
  show ?case
  proof (cases t)
    case (StartElement nm attrs)
    then show ?thesis using Cons.prems Cons.IH [of "cur # stk"] by simp
  next
    case EndElement
    then show ?thesis using Cons.prems Cons.IH [of "tl stk"] by (cases stk) (auto split: if_splits)
  qed (use Cons in simp_all)
qed simp

lemma scope_after_balanced: "balanced 0 ts \<Longrightarrow> scope_after (A @ ts) = scope_after A"
  using scope_walk_balanced [of "[]" ts] by (simp add: scope_after_def scope_walk_append)

lemma scope_after_open: "scope_after (A @ [StartElement nm attrs]) = declare_ns (scope_after A) attrs"
  by (simp add: scope_after_def scope_walk_append)

text \<open>Reading a document up to some place.\<close>

definition below :: "nat \<Rightarrow> (nat \<times> 'a) list \<Rightarrow> bool" where
  "below i m \<longleftrightarrow> (\<forall>a\<in>set m. fst a < i)"

lemma below_simps [simp]: "below i []" "below i (a # m) \<longleftrightarrow> fst a < i \<and> below i m"
  by (simp_all add: below_def)

lemma below_Suc: "below i m \<Longrightarrow> below (Suc i) m"
  by (auto simp: below_def less_SucI)

lemma below_lookup: "below i m \<Longrightarrow> i \<le> x \<Longrightarrow> map_of m x = None \<and> x \<notin> fst ` set m"
  by (force simp: below_def map_of_eq_None_iff)

lemma index_loop_prefix:
  assumes "below i stk \<and> below i ends \<and> below i scopes"
  shows "\<exists>stk' ends' scopes'. (below (i + length A) stk' \<and> below (i + length A) ends' \<and> below (i + length A) scopes')
    \<and> (\<forall>rest. index_loop i (A @ rest) stk cur ends scopes
          = index_loop (i + length A) rest stk' (snd (scope_walk A (map snd stk) cur)) ends' scopes')"
  using assms
proof (induction i A stk cur ends scopes rule: index_loop.induct)
  case (1 i stk cur ends scopes)
  then show ?case by (intro exI [of _ stk] exI [of _ ends] exI [of _ scopes]) simp
next
  case (2 i nm attrs ts stk cur ends scopes)
  then have "below (Suc i) ((i, cur) # stk) \<and> below (Suc i) ends \<and> below (Suc i) ((i, cur) # scopes)"
    by (simp add: below_Suc)
  from "2.IH" [OF this] show ?case by simp
next
  case (3 i ts stk cur ends scopes)
  show ?case
  proof (cases stk)
    case Nil
    then have "below (Suc i) stk \<and> below (Suc i) ends \<and> below (Suc i) scopes" using "3.prems" by (simp add: below_Suc)
    from "3.IH"(1) [OF Nil this] show ?thesis by (simp add: Nil)
  next
    case (Cons top rest)
    obtain s scope where top: "top = (s, scope)" by (cases top)
    have "below (Suc i) rest \<and> below (Suc i) ((s, i) # ends) \<and> below (Suc i) scopes"
      using "3.prems" Cons top by (simp add: below_Suc)
    from "3.IH"(2) [OF Cons top [symmetric] this] show ?thesis by (simp add: Cons top)
  qed
next
  case (4 i t ts stk cur ends scopes)
  then have "below (Suc i) stk \<and> below (Suc i) ends \<and> below (Suc i) scopes" by (simp add: below_Suc)
  from "4.IH" [OF this] show ?case by simp
next
  case (5 i ts stk cur ends scopes)
  then have "below (Suc i) stk \<and> below (Suc i) ends \<and> below (Suc i) scopes" by (simp add: below_Suc)
  from "5.IH" [OF this] show ?case by simp
qed

lemma index_doc_sel:
  "matchEnd (index_doc ts) = fst (index_loop 0 ts [] [] [] [])" "nsAtStart (index_doc ts) = snd (index_loop 0 ts [] [] [] [])"
  "tokens (index_doc ts) = ts"
  by (simp_all add: index_doc_def split: prod.splits)

text \<open>What the index of a document knows about a balanced part of it.\<close>

lemma index_doc_part:
  fixes A B :: "xtoken list"
  assumes "balanced 0 ts" and "length A \<le> x" and "x < length A + length ts"
  shows "map_of (matchEnd (index_doc (A @ ts @ B))) x = map_of (fst (index_loop (length A) ts [] (scope_after A) [] [])) x"
    and "map_of (nsAtStart (index_doc (A @ ts @ B))) x = map_of (snd (index_loop (length A) ts [] (scope_after A) [] [])) x"
    and "tokens (index_doc (A @ ts @ B)) ! x = ts ! (x - length A)"
proof -
  let ?r = "index_loop (length A) ts [] (scope_after A) [] []"
  obtain stk ends scopes where less: "below (length A) stk" "below (length A) ends" "below (length A) scopes"
    and pre: "\<And>rest. index_loop 0 (A @ rest) [] [] [] [] = index_loop (length A) rest stk (scope_after A) ends scopes"
    using index_loop_prefix [of 0 "[]" "[]" "[]" A "[]"] by (auto simp: scope_after_def)
  have "index_loop 0 (A @ ts @ B) [] [] [] []
      = index_loop (length A + length ts) B stk (scope_after A) (fst ?r @ ends) (snd ?r @ scopes)"
    using pre index_loop_frame [of "[]" ts "length A" B stk "scope_after A" ends scopes] assms(1) by (simp add: end_scope_def)
  moreover have "x \<notin> fst ` set stk" "map_of ends x = None" "map_of scopes x = None"
    using below_lookup [OF _ assms(2)] less by blast+
  ultimately show "map_of (matchEnd (index_doc (A @ ts @ B))) x = map_of (fst ?r) x"
    and "map_of (nsAtStart (index_doc (A @ ts @ B))) x = map_of (snd ?r) x"
    using index_loop_keeps(1) [of x "length A + length ts" stk B "scope_after A" "fst ?r @ ends" "snd ?r @ scopes"]
      index_loop_keeps(2) [of x "length A + length ts" B stk "scope_after A" "fst ?r @ ends" "snd ?r @ scopes"] assms(3)
    by (simp_all add: index_doc_sel map_add_def split: option.splits)
  have "x - length A < length ts" using assms(2,3) by arith
  then show "tokens (index_doc (A @ ts @ B)) ! x = ts ! (x - length A)"
    using assms(2) by (simp add: index_doc_sel nth_append)
qed

lemma map_of_shift:
  fixes off k :: nat
  shows "map_of (map (\<lambda>(s, e). (s + off, e + off)) m) (k + off) = map_option (\<lambda>e. e + off) (map_of m k)"
  by (induction m) auto

lemma map_of_shifted:
  "list_all2 (shifted P off) m m' \<Longrightarrow> map_of m k = Some s \<Longrightarrow> \<exists>s'. map_of m' (k + off) = Some s' \<and> agree P s s'"
  by (induction m m' rule: list_all2_induct) (auto split: if_splits)

lemma starts_from_Nil: "starts_from i [] = {}"
  by (simp add: starts_from_def)

lemma index_loop_scopes: "k \<in> starts_from i ts \<Longrightarrow> map_of (snd (index_loop i ts stk cur ends scopes)) k \<noteq> None"
proof (induction i ts stk cur ends scopes rule: index_loop.induct)
  case (2 i nm attrs ts stk cur ends scopes)
  then show ?case
    using index_loop_acc [of "Suc i" ts "(i, cur) # stk" "declare_ns cur attrs" ends "(i, cur) # scopes"]
    by (cases "k = i") (auto simp: starts_from_Cons is_start_tok_def map_add_def split: option.splits)
qed (auto simp: starts_from_Cons is_start_tok_def starts_from_Nil split: list.splits)

text \<open>The same part in two documents: positions shift and scopes agree as they do before the part.\<close>

lemma part_view:
  fixes A B :: "xtoken list"
  assumes "balanced 0 ts" and "agree P cur (scope_after A)" and "k < length ts" and "is_start_tok (ts ! k)"
  shows "\<exists>e. map_of (fst (index_loop 0 ts [] cur [] [])) k = Some e \<and> k < e \<and> e < length ts
      \<and> map_of (matchEnd (index_doc (A @ ts @ B))) (length A + k) = Some (length A + e)"
    and "\<exists>s s'. map_of (snd (index_loop 0 ts [] cur [] [])) k = Some s
      \<and> map_of (nsAtStart (index_doc (A @ ts @ B))) (length A + k) = Some s' \<and> agree P s s'"
proof -
  let ?r = "index_loop 0 ts [] cur [] []" and ?r' = "index_loop (length A) ts [] (scope_after A) [] []"
  have k: "k \<in> starts_from 0 ts" using assms(3,4) by (auto simp: starts_from_def)
  have sh: "fst ?r' = map (\<lambda>(s, e). (s + length A, e + length A)) (fst ?r)" "list_all2 (shifted P (length A)) (snd ?r) (snd ?r')"
    using index_loop_shift [of "length A" P "[]" "[]" cur "scope_after A" "[]" "[]" 0 ts "[]"] assms(2) by simp_all
  obtain e where e: "map_of (fst ?r) k = Some e" "k < e" "e < length ts"
    using index_loop_ends [of "[]" ts 0 cur "[]" "[]" "fst ?r" "snd ?r"] assms(1) k by auto
  then show "\<exists>e. map_of (fst ?r) k = Some e \<and> k < e \<and> e < length ts
      \<and> map_of (matchEnd (index_doc (A @ ts @ B))) (length A + k) = Some (length A + e)"
    using map_of_shift [of "length A" "fst ?r" k] index_doc_part(1) [OF assms(1), of A "length A + k" B] assms(3)
    by (simp add: sh(1) add.commute)
  obtain s where s: "map_of (snd ?r) k = Some s" using index_loop_scopes [OF k] by fastforce
  then show "\<exists>s s'. map_of (snd ?r) k = Some s
      \<and> map_of (nsAtStart (index_doc (A @ ts @ B))) (length A + k) = Some s' \<and> agree P s s'"
    using map_of_shifted [OF sh(2) s] index_doc_part(2) [OF assms(1), of A "length A + k" B] assms(3)
    by (auto simp: add.commute)
qed

end
