(* ===== verification/CanonLaws.thy ===== *)
theory CanonLaws
  imports XmlText
begin

text \<open>
  Canonicalization of a part of a document does not depend on the rest: the same tokens at another place, with
  other surroundings, give the same text, as long as the prefixes the part uses mean the same.
\<close>

section \<open>Rendering one start tag\<close>

text \<open>The prefixes a start tag uses.\<close>

definition used_prefixes :: "xattr list \<Rightarrow> string \<Rightarrow> string list" where
  "used_prefixes attrs rawTag =
     fst (splitQName (fst (qname rawTag)))
     # filter (\<lambda>p. p \<noteq> []) (map (\<lambda>aq. fst (splitQName (snd aq))) (plain_attrs attrs (snd (qname rawTag))))"

lemma needed_decls_cong:
  assumes "\<forall>p\<in>set ps. ns_lookup s p = ns_lookup s' p"
  shows "needed_decls s rendered ps = needed_decls s' rendered ps"
proof -
  let ?qs = "rev (remdups (rev ps))"
  have f: "filter (\<lambda>p. map_of rendered p \<noteq> Some (ns_lookup s p)) ?qs = filter (\<lambda>p. map_of rendered p \<noteq> Some (ns_lookup s' p)) ?qs"
    using assms by (intro filter_cong) auto
  have m: "map (\<lambda>p. (p, ns_lookup s p)) (filter Q ?qs) = map (\<lambda>p. (p, ns_lookup s' p)) (filter Q ?qs)" for Q
    using assms by (intro map_cong) auto
  show ?thesis unfolding needed_decls_def f m ..
qed

lemma insort_key_cong: "\<forall>y\<in>insert x (set ys). f y = g y \<Longrightarrow> insort_key f x ys = insort_key g x ys"
  by (induction ys) auto

lemma sort_key_cong: "\<forall>x\<in>set xs. f x = g x \<Longrightarrow> sort_key f xs = sort_key g xs"
proof (induction xs)
  case (Cons x xs)
  then have "sort_key f xs = sort_key g xs" by simp
  then show ?case using Cons.prems insort_key_cong [of x "sort_key g xs" f g] by simp
qed simp

lemma sorted_attrs_cong:
  assumes "\<forall>aq\<in>set as. fst (splitQName (snd aq)) \<noteq> [] \<longrightarrow>
    ns_lookup s (fst (splitQName (snd aq))) = ns_lookup s' (fst (splitQName (snd aq)))"
  shows "sorted_attrs s as = sorted_attrs s' as"
proof -
  have "sort_key (\<lambda>aq. (attr_uri s (snd aq), snd (splitQName (snd aq)))) as
      = sort_key (\<lambda>aq. (attr_uri s' (snd aq), snd (splitQName (snd aq)))) as"
    using assms by (intro sort_key_cong) (auto simp: attr_uri_def Let_def)
  then show ?thesis by (simp only: sorted_attrs_def)
qed

text \<open>A start tag with its attributes, and the namespaces written so far behind it.\<close>

definition render_start :: "nsScope \<Rightarrow> nsScope \<Rightarrow> xattr list \<Rightarrow> string \<Rightarrow> string \<times> nsScope" where
  "render_start effective rendered attrs rawTag =
     (let needed = needed_decls effective rendered (used_prefixes attrs rawTag)
      in (''<'' @ fst (qname rawTag) @ concat (map render_decl needed)
            @ concat (map render_attr (sorted_attrs effective (plain_attrs attrs (snd (qname rawTag))))) @ ''>'',
          foldl (\<lambda>s pu. put s (fst pu) (snd pu)) rendered needed))"

lemma render_start_cong:
  assumes "agree (set (used_prefixes attrs rawTag)) s s'"
  shows "render_start s rendered attrs rawTag = render_start s' rendered attrs rawTag"
proof -
  have "\<forall>aq\<in>set (plain_attrs attrs (snd (qname rawTag))). fst (splitQName (snd aq)) \<noteq> [] \<longrightarrow>
      fst (splitQName (snd aq)) \<in> set (used_prefixes attrs rawTag)"
    by (auto simp: used_prefixes_def)
  then have "sorted_attrs s (plain_attrs attrs (snd (qname rawTag))) = sorted_attrs s' (plain_attrs attrs (snd (qname rawTag)))"
    using assms by (intro sorted_attrs_cong) (auto simp: agree_def)
  then show ?thesis
    using assms needed_decls_cong [of "used_prefixes attrs rawTag" s s' rendered] by (simp add: render_start_def agree_def Let_def)
qed

lemma render_Suc:
  "render (Suc n) doc raw excl start fin rendered =
     (if start \<in> set excl then ([], False)
      else case map_of raw start of
             None \<Rightarrow> ([], False)
           | Some rawTag \<Rightarrow>
               let (tag, newRendered) = render_start (declare_ns (ns_at_start doc start) (se_attrs doc start)) rendered
                                          (se_attrs doc start) rawTag;
                   (body, deep) = render_children (fin - start) doc excl
                     (\<lambda>i e. render n doc raw excl i e newRendered) (start + 1) fin
               in (tag @ body @ ''</'' @ fst (qname rawTag) @ ''>'', deep))"
  by (simp add: render_start_def used_prefixes_def Let_def split: option.splits prod.splits)

section \<open>Rendering a part\<close>

text \<open>Positions \<open>lo\<close> to \<open>hi\<close> of one document stand in another, \<open>off\<close> behind.\<close>

definition same_part ::
    "xmldoc \<Rightarrow> (nat \<times> string) list \<Rightarrow> xmldoc \<Rightarrow> (nat \<times> string) list \<Rightarrow> nat \<Rightarrow> nat \<Rightarrow> nat \<Rightarrow> bool" where
  "same_part d raw d' raw' off lo hi \<longleftrightarrow>
     (\<forall>i. lo \<le> i \<longrightarrow> i < hi \<longrightarrow> tokens d' ! (i + off) = tokens d ! i
        \<and> (is_start d i \<longrightarrow>
             i < match_end d i \<and> match_end d i < hi \<and> match_end d' (i + off) = match_end d i + off
             \<and> map_of raw' (i + off) = map_of raw i
             \<and> (\<forall>tag. map_of raw i = Some tag \<longrightarrow>
                  agree (set (used_prefixes (se_attrs d i) tag))
                    (declare_ns (ns_at_start d i) (se_attrs d i)) (declare_ns (ns_at_start d' (i + off)) (se_attrs d i)))))"

lemma same_part_tokens:
  assumes "same_part d raw d' raw' off lo hi" and "lo \<le> i" and "i < hi"
  shows "tokens d' ! (i + off) = tokens d ! i" and "is_start d' (i + off) = is_start d i" and "se_attrs d' (i + off) = se_attrs d i"
  using assms by (simp_all add: same_part_def is_start_def se_attrs_def)

lemma same_part_ends:
  "same_part d raw d' raw' off lo hi \<Longrightarrow> lo \<le> i \<Longrightarrow> i < hi \<Longrightarrow> is_start d i
    \<Longrightarrow> match_end d' (i + off) = match_end d i + off"
  by (simp add: same_part_def)

lemma render_children_same:
  assumes "same_part d raw d' raw' off lo hi" and "\<forall>x\<in>set excl. x < lo + off"
    and "\<And>j. lo \<le> j \<Longrightarrow> j < hi \<Longrightarrow> is_start d j \<Longrightarrow> child j (match_end d j) = child' (j + off) (match_end d j + off)"
    and "lo \<le> i" and "fin \<le> hi"
  shows "render_children m d' excl child' (i + off) (fin + off) = render_children m d [] child i fin"
  using assms(4)
proof (induction m arbitrary: i)
  case (Suc m)
  show ?case
  proof (cases "i < fin")
    case True
    note tok = same_part_tokens [OF assms(1) Suc.prems, of]
    have i: "i < hi" using True assms(5) by simp
    show ?thesis
    proof (cases "tokens d ! i")
      case (StartElement nm attrs)
      then have s: "is_start d i" by (simp add: is_start_def)
      then have e: "match_end d' (i + off) = match_end d i + off" "i < match_end d i"
        using assms(1) Suc.prems i by (auto simp: same_part_def)
      have "i + off \<notin> set excl" using assms(2) Suc.prems by fastforce
      moreover have "render_children m d' excl child' (match_end d i + 1 + off) (fin + off)
          = render_children m d [] child (match_end d i + 1) fin"
        using Suc.prems e(2) by (intro Suc.IH) simp
      ultimately show ?thesis
        using True StartElement tok(1) [OF i] e assms(3) [OF Suc.prems i s] by (simp add: Let_def add.commute add.left_commute)
    next
      case (CharData t)
      then show ?thesis using True tok(1) [OF i] Suc.prems Suc.IH [of "i + 1"] by (simp add: Let_def)
    next
      case EndElement
      then show ?thesis using True tok(1) [OF i] Suc.prems Suc.IH [of "i + 1"] by simp
    next
      case OtherToken
      then show ?thesis using True tok(1) [OF i] Suc.prems Suc.IH [of "i + 1"] by simp
    qed
  qed simp
qed simp

lemma render_same:
  assumes "same_part d raw d' raw' off lo hi" and "\<forall>x\<in>set excl. x < lo + off"
    and "lo \<le> i" and "i < hi" and "is_start d i"
  shows "render n d' raw' excl (i + off) (match_end d i + off) rendered = render n d raw [] i (match_end d i) rendered"
  using assms(3-5)
proof (induction n arbitrary: i rendered)
  case 0
  then show ?case using assms(2) by fastforce
next
  case (Suc n)
  have x: "i + off \<notin> set excl" using assms(2) Suc.prems by fastforce
  have m: "map_of raw' (i + off) = map_of raw i" and e: "match_end d i < hi"
    and ag: "\<And>tag. map_of raw i = Some tag \<Longrightarrow> agree (set (used_prefixes (se_attrs d i) tag))
      (declare_ns (ns_at_start d i) (se_attrs d i)) (declare_ns (ns_at_start d' (i + off)) (se_attrs d i))"
    using assms(1) Suc.prems by (auto simp: same_part_def)
  have c: "render_children (match_end d i - i) d' excl (\<lambda>j e. render n d' raw' excl j e nr) (i + 1 + off) (match_end d i + off)
      = render_children (match_end d i - i) d [] (\<lambda>j e. render n d raw [] j e nr) (i + 1) (match_end d i)" for nr
    using Suc.prems e by (intro render_children_same [OF assms(1,2)]) (simp_all add: Suc.IH)
  show ?case
  proof (cases "map_of raw i")
    case (Some tag)
    then show ?thesis
      using c x m render_start_cong [OF ag [OF Some], of rendered] same_part_tokens(3) [OF assms(1) Suc.prems(1,2)]
      by (simp add: render_Suc del: render.simps split: prod.splits)
  qed (use x m in simp)
qed

lemma render_children_fuel:
  assumes "\<And>j. i \<le> j \<Longrightarrow> j < fin \<Longrightarrow> is_start d j \<Longrightarrow> j < match_end d j" and "fin - i \<le> m"
  shows "render_children m d excl child i fin = render_children (fin - i) d excl child i fin"
  using assms
proof (induction m arbitrary: i rule: less_induct)
  case (less m)
  show ?case
  proof (cases "i < fin")
    case True
    then obtain m' k where m: "m = Suc m'" and k: "fin - i = Suc k" using less.prems(2) by (cases m; cases "fin - i") auto
    have eq: "render_children m' d excl child j fin = render_children k d excl child j fin" if "i < j" for j
    proof -
      have "render_children m' d excl child j fin = render_children (fin - j) d excl child j fin"
        using less.prems that m by (intro less.IH) auto
      moreover have "render_children k d excl child j fin = render_children (fin - j) d excl child j fin"
        using less.prems that m k by (intro less.IH) auto
      ultimately show ?thesis by simp
    qed
    have "is_start d i \<Longrightarrow> i < match_end d i" using less.prems(1) True by simp
    then show ?thesis
      unfolding m k using True by (auto simp: eq is_start_def Let_def split: xtoken.splits)
  next
    case False
    then show ?thesis by (cases m) simp_all
  qed
qed

section \<open>Parts as written\<close>

abbreviation doc_of :: "segments \<Rightarrow> xmldoc" where
  "doc_of segs \<equiv> index_doc (map fst segs)"

definition uses_only :: "string set \<Rightarrow> segments \<Rightarrow> bool" where
  "uses_only P segs \<longleftrightarrow>
     (\<forall>(t, src)\<in>set segs. case t of StartElement nm as \<Rightarrow> set (used_prefixes as (TrimSpace src)) \<subseteq> P | _ \<Rightarrow> True)"

lemma same_part_segments:
  fixes A A0 ts B B0 :: segments
  assumes "balanced 0 (map fst ts)" and "agree P (scope_after (map fst A0)) (scope_after (map fst A))" and "uses_only P ts"
    and "length A = length A0 + off"
  shows "same_part (doc_of (A0 @ ts @ B0)) (raw_of 0 (A0 @ ts @ B0)) (doc_of (A @ ts @ B)) (raw_of 0 (A @ ts @ B)) off
    (length A0) (length A0 + length ts)"
  unfolding same_part_def
proof (intro allI impI)
  fix i assume i: "length A0 \<le> i" "i < length A0 + length ts"
  let ?ts = "map fst ts" and ?d = "doc_of (A0 @ ts @ B0)" and ?d' = "doc_of (A @ ts @ B)" and ?cur = "scope_after (map fst A0)"
  define k where "k = i - length A0"
  then have ik: "i = length A0 + k" "k < length ts" and ik': "i + off = length A + k" using i assms(4) by auto
  have tok: "tokens ?d ! i = ?ts ! k" "tokens ?d' ! (i + off) = ?ts ! k"
    unfolding ik' using index_doc_part(3) [OF assms(1), of "map fst A0" i] index_doc_part(3) [OF assms(1), of "map fst A" "length A + k"] ik
    by simp_all
  have eq: "tokens ?d' ! (i + off) = tokens ?d ! i" using tok by simp
  moreover have "i < match_end ?d i \<and> match_end ?d i < length A0 + length ts \<and> match_end ?d' (i + off) = match_end ?d i + off
      \<and> map_of (raw_of 0 (A @ ts @ B)) (i + off) = map_of (raw_of 0 (A0 @ ts @ B0)) i
      \<and> (\<forall>tag. map_of (raw_of 0 (A0 @ ts @ B0)) i = Some tag \<longrightarrow>
           agree (set (used_prefixes (se_attrs ?d i) tag))
             (declare_ns (ns_at_start ?d i) (se_attrs ?d i)) (declare_ns (ns_at_start ?d' (i + off)) (se_attrs ?d i)))"
    if "is_start ?d i"
  proof -
    have k: "k < length ?ts" "is_start_tok (?ts ! k)" using that ik tok by (simp_all add: is_start_conv)
    obtain e where e: "k < e" "e < length ts" "match_end ?d i = length A0 + e" "match_end ?d' (length A + k) = length A + e"
      using part_view(1) [OF assms(1,2) k, of "map fst B"]
        part_view(1) [OF assms(1), of UNIV ?cur "map fst A0" k "map fst B0"] k ik by (auto simp: match_end_def agree_def)
    obtain nm as where t: "fst (ts ! k) = StartElement nm as" using k ik by (auto simp: is_start_tok_def split: xtoken.splits)
    have raw: "map_of (raw_of 0 (A0 @ ts @ B0)) i = Some (TrimSpace (snd (ts ! k)))"
      "map_of (raw_of 0 (A @ ts @ B)) (i + off) = Some (TrimSpace (snd (ts ! k)))"
      using t ik unfolding map_of_raw_of ik' by (simp_all add: nth_append is_start_tok_def)
    have "set (used_prefixes as (TrimSpace (snd (ts ! k)))) \<subseteq> P"
      using bspec [OF assms(3) [unfolded uses_only_def] nth_mem [OF ik(2)]] t by (cases "ts ! k") simp
    moreover have "agree P (ns_at_start ?d i) (ns_at_start ?d' (length A + k))"
      using part_view(2) [OF assms(1,2) k, of "map fst B"]
        part_view(2) [OF assms(1), of UNIV ?cur "map fst A0" k "map fst B0"] k ik by (auto simp: ns_at_start_def agree_def)
    ultimately have "agree (set (used_prefixes as (TrimSpace (snd (ts ! k))))) (declare_ns (ns_at_start ?d i) as)
        (declare_ns (ns_at_start ?d' (length A + k)) as)"
      using agree_declare [of P] by (auto simp: agree_def)
    moreover have "se_attrs ?d i = as" using tok t ik by (simp add: se_attrs_def)
    ultimately show ?thesis using e raw assms(4) ik(1) unfolding ik' by simp
  qed
  ultimately show "tokens ?d' ! (i + off) = tokens ?d ! i \<and> (is_start ?d i \<longrightarrow>
      i < match_end ?d i \<and> match_end ?d i < length A0 + length ts \<and> match_end ?d' (i + off) = match_end ?d i + off
      \<and> map_of (raw_of 0 (A @ ts @ B)) (i + off) = map_of (raw_of 0 (A0 @ ts @ B0)) i
      \<and> (\<forall>tag. map_of (raw_of 0 (A0 @ ts @ B0)) i = Some tag \<longrightarrow>
           agree (set (used_prefixes (se_attrs ?d i) tag))
             (declare_ns (ns_at_start ?d i) (se_attrs ?d i)) (declare_ns (ns_at_start ?d' (i + off)) (se_attrs ?d i))))"
    by blast
qed

text \<open>A whole element that declares the prefixes it uses can stand anywhere.\<close>

definition declares :: "xattr list \<Rightarrow> string set" where
  "declares attrs = {p. map_of (declare_ns [] attrs) p \<noteq> None}"

lemma declare_ns_lookup:
  "map_of (declare_ns s attrs) p = (case map_of (declare_ns [] attrs) p of None \<Rightarrow> map_of s p | Some u \<Rightarrow> Some u)"
  by (induction attrs rule: rev_induct) (auto simp: declare_ns_def map_of_put split: option.splits)

lemma agree_declares: "agree (declares attrs) (declare_ns s attrs) (declare_ns s' attrs)"
  using declare_ns_lookup [of s attrs] declare_ns_lookup [of s' attrs]
  by (auto simp: agree_def declares_def ns_lookup_def)

lemma balanced_append: "balanced n ts \<Longrightarrow> balanced (n + k) (ts @ us) = balanced k us"
  by (induction n ts rule: balanced.induct) (auto simp: Suc_diff_Suc)

lemma ns_at_start_element: "ns_at_start (index_doc (A @ StartElement nm attrs # B)) (length A) = scope_after A"
proof -
  obtain stk ends scopes where less: "below (length A) stk" "below (length A) ends" "below (length A) scopes"
    and pre: "\<And>rest. index_loop 0 (A @ rest) [] [] [] [] = index_loop (length A) rest stk (scope_after A) ends scopes"
    using index_loop_prefix [of 0 "[]" "[]" "[]" A "[]"] by (auto simp: scope_after_def)
  show ?thesis
    by (simp add: ns_at_start_def index_doc_sel pre index_loop_keeps(2))
qed

lemma match_end_element:
  assumes "balanced 0 mid"
  shows "map_of (matchEnd (index_doc (A @ (StartElement nm attrs # mid @ [EndElement]) @ B))) (length A) = Some (length A + length mid + 1)"
proof -
  let ?ts = "StartElement nm attrs # mid @ [EndElement]"
  have b: "balanced 0 ?ts" using assms balanced_append [of 0 mid 1 "[EndElement]"] by simp
  show ?thesis
    using index_doc_part(1) [OF b, of A "length A" B] assms
      index_loop_frame [of "[]" mid "Suc (length A)" "[EndElement]" "[(length A, scope_after A)]" "declare_ns (scope_after A) attrs" "[]" "[(length A, scope_after A)]"]
    by simp
qed

definition element :: "xtoken \<times> string \<Rightarrow> segments \<Rightarrow> xtoken \<times> string \<Rightarrow> segments" where
  "element op mid cl = op # mid @ [cl]"

definition closed_element :: "xtoken \<times> string \<Rightarrow> segments \<Rightarrow> xtoken \<times> string \<Rightarrow> bool" where
  "closed_element op mid cl \<longleftrightarrow>
     (\<exists>nm attrs. fst op = StartElement nm attrs \<and> fst cl = EndElement \<and> balanced 0 (map fst mid)
        \<and> uses_only (declares attrs) (op # mid))"

lemma same_part_element:
  fixes A A0 mid B B0 :: segments
  assumes "closed_element op mid cl" and "length A = length A0 + off"
  shows "same_part (doc_of (A0 @ element op mid cl @ B0)) (raw_of 0 (A0 @ element op mid cl @ B0))
    (doc_of (A @ element op mid cl @ B)) (raw_of 0 (A @ element op mid cl @ B)) off (length A0) (length A0 + length (element op mid cl))"
    (is "same_part ?d ?r ?d' ?r' off _ _")
proof -
  obtain nm attrs where op: "fst op = StartElement nm attrs" and cl: "fst cl = EndElement" and b: "balanced 0 (map fst mid)"
    and u: "uses_only (declares attrs) (op # mid)"
    using assms(1) by (auto simp: closed_element_def)
  have "agree (declares attrs) (scope_after (map fst (A0 @ [op]))) (scope_after (map fst (A @ [op])))"
    by (simp add: op scope_after_open agree_declares)
  moreover have "uses_only (declares attrs) mid" using u by (simp add: uses_only_def)
  ultimately have mid: "same_part (doc_of ((A0 @ [op]) @ mid @ cl # B0)) (raw_of 0 ((A0 @ [op]) @ mid @ cl # B0))
      (doc_of ((A @ [op]) @ mid @ cl # B)) (raw_of 0 ((A @ [op]) @ mid @ cl # B)) off (length (A0 @ [op])) (length (A0 @ [op]) + length mid)"
    using b assms(2) by (intro same_part_segments) simp_all
  show ?thesis
    unfolding same_part_def
  proof (intro allI impI)
    fix i assume i: "length A0 \<le> i" "i < length A0 + length (element op mid cl)"
    consider "i = length A0" | "length A0 < i" "i < length A0 + 1 + length mid" | "i = length A0 + 1 + length mid"
      using i by (fastforce simp: element_def)
    then show "tokens ?d' ! (i + off) = tokens ?d ! i \<and> (is_start ?d i \<longrightarrow>
        i < match_end ?d i \<and> match_end ?d i < length A0 + length (element op mid cl) \<and> match_end ?d' (i + off) = match_end ?d i + off
        \<and> map_of ?r' (i + off) = map_of ?r i
        \<and> (\<forall>tag. map_of ?r i = Some tag \<longrightarrow> agree (set (used_prefixes (se_attrs ?d i) tag))
             (declare_ns (ns_at_start ?d i) (se_attrs ?d i)) (declare_ns (ns_at_start ?d' (i + off)) (se_attrs ?d i))))"
    proof cases
      case 1
      have i': "i + off = length A" using 1 assms(2) by simp
      have e: "match_end ?d i = length A0 + length mid + 1" "match_end ?d' (length A) = length A + length mid + 1"
        using match_end_element [OF b, of "map fst A0" nm attrs "map fst B0"] match_end_element [OF b, of "map fst A" nm attrs "map fst B"] 1
        by (simp_all add: match_end_def element_def op cl)
      have "set (used_prefixes attrs (TrimSpace (snd op))) \<subseteq> declares attrs"
        using u op by (cases op) (simp add: uses_only_def)
      then have "agree (set (used_prefixes attrs (TrimSpace (snd op)))) (declare_ns s attrs) (declare_ns s' attrs)" for s s'
        using agree_declares [of attrs s s'] by (auto simp: agree_def)
      then show ?thesis
        unfolding i' using e 1 assms(2)
        by (auto simp: index_doc_sel se_attrs_def op map_of_raw_of is_start_tok_def element_def nth_append split: if_splits)
    next
      case 2
      then show ?thesis using mid unfolding same_part_def element_def by (auto dest!: spec [of _ i])
    next
      case 3
      then show ?thesis using assms(2) by (auto simp: index_doc_sel is_start_def cl element_def nth_append)
    qed
  qed
qed

section \<open>Searching in a part\<close>

lemma direct_child_same:
  assumes "same_part d raw d' raw' off lo hi" and "lo \<le> i" and "fin \<le> hi"
  shows "direct_child_loop m d' (i + off) (fin + off) space local
    = map_option (\<lambda>(a, b). (a + off, b + off)) (direct_child_loop m d i fin space local)"
  using assms(2)
proof (induction m arbitrary: i)
  case (Suc m)
  show ?case
  proof (cases "i < fin")
    case True
    then have i: "i < hi" using assms(3) by simp
    note tok = same_part_tokens [OF assms(1) Suc.prems i]
    have nm: "se_name d' (i + off) = se_name d i" by (simp add: se_name_def tok(1))
    have e: "match_end d' (i + off) = match_end d i + off" "i < match_end d i" if "is_start d i"
      using assms(1) Suc.prems i that by (auto simp: same_part_def)
    then show ?thesis
      using True Suc.prems Suc.IH [of "i + 1"] Suc.IH [of "match_end d i + 1"]
      by (cases "is_start d i") (simp_all add: tok(2) nm Let_def)
  qed simp
qed simp

lemma findDirectChild_same:
  assumes "same_part d raw d' raw' off lo hi" and "lo \<le> a" and "b \<le> hi"
  shows "findDirectChild d' (a + off, b + off) space local
    = map_option (\<lambda>(a, b). (a + off, b + off)) (findDirectChild d (a, b) space local)"
  using direct_child_same [OF assms(1) _ assms(3), of "a + 1"] assms(2) by (simp add: findDirectChild_def)

lemma all_descendants_same:
  assumes "same_part d raw d' raw' off lo hi" and "lo \<le> i" and "fin \<le> hi"
  shows "all_descendants_loop m d' (i + off) (fin + off) space local
    = map (\<lambda>(a, b). (a + off, b + off)) (all_descendants_loop m d i fin space local)"
  using assms(2)
proof (induction m arbitrary: i)
  case (Suc m)
  show ?case
  proof (cases "i < fin")
    case True
    then have i: "i < hi" using assms(3) by simp
    note tok = same_part_tokens [OF assms(1) Suc.prems i]
    have nm: "se_name d' (i + off) = se_name d i" by (simp add: se_name_def tok(1))
    have e: "match_end d' (i + off) = match_end d i + off" "i < match_end d i" if "is_start d i"
      using assms(1) Suc.prems i that by (auto simp: same_part_def)
    then show ?thesis
      using True Suc.prems Suc.IH [of "i + 1"] Suc.IH [of "match_end d i + 1"]
      by (cases "is_start d i") (auto simp: tok(2) nm Let_def)
  qed simp
qed simp

lemma findAllDescendants_same:
  assumes "same_part d raw d' raw' off lo hi" and "lo \<le> a" and "b \<le> hi"
  shows "findAllDescendants d' (a + off) (b + off) space local
    = map (\<lambda>(a, b). (a + off, b + off)) (findAllDescendants d a b space local)"
  using all_descendants_same [OF assms(1) _ assms(3), of "a + 1"] assms(2) by (simp add: findAllDescendants_def)

lemma elementText_same:
  assumes "same_part d raw d' raw' off lo hi" and "lo \<le> a" and "b \<le> hi"
  shows "elementText d' (a + off, b + off) = elementText d (a, b)"
proof -
  have "[a + 1 + off..<b + off] = map (\<lambda>i. i + off) [a + 1..<b]" by (induction b) auto
  then have "map (\<lambda>i. case tokens d' ! i of CharData t \<Rightarrow> t | _ \<Rightarrow> []) [a + 1 + off..<b + off]
      = map (\<lambda>i. case tokens d ! i of CharData t \<Rightarrow> t | _ \<Rightarrow> []) [a + 1..<b]"
    using same_part_tokens(1) [OF assms(1)] assms(2,3) by simp
  then show ?thesis by (simp add: elementText_def)
qed

section \<open>Leaving out a child\<close>

lemma range_element: "length (element op mid cl) = length mid + 2"
  by (simp add: element_def)

text \<open>What follows the first child stands there as it does without that child.\<close>

lemma same_part_behind:
  fixes pre post body sg :: segments
  assumes "closed_element op body cl" and "balanced 0 (map fst sg)"
  shows "same_part (doc_of (element op body cl)) (raw_of 0 (element op body cl))
    (doc_of (pre @ element op (sg @ body) cl @ post)) (raw_of 0 (pre @ element op (sg @ body) cl @ post)) (length pre + length sg)
    1 (1 + length body)"
proof -
  obtain nm attrs where op: "fst op = StartElement nm attrs" and b: "balanced 0 (map fst body)" and u: "uses_only (declares attrs) (op # body)"
    using assms(1) by (auto simp: closed_element_def)
  have ub: "uses_only (declares attrs) body" using u by (simp add: uses_only_def)
  have "scope_after (map fst (pre @ op # sg)) = declare_ns (scope_after (map fst pre)) attrs"
    using scope_after_balanced [OF assms(2), of "map fst (pre @ [op])"] by (simp add: op scope_after_open)
  moreover have "scope_after (map fst [op]) = declare_ns [] attrs" by (simp add: op scope_after_def)
  ultimately have "agree (declares attrs) (scope_after (map fst [op])) (scope_after (map fst (pre @ op # sg)))"
    by (simp add: agree_declares)
  then show ?thesis
    using same_part_segments [OF b _ ub, of "[op]" "pre @ op # sg" "length pre + length sg" "[cl]" "cl # post"] by (simp add: element_def)
qed

lemma balanced_element:
  "fst op = StartElement nm attrs \<Longrightarrow> fst cl = EndElement \<Longrightarrow> balanced 0 (map fst mid) \<Longrightarrow> balanced 0 (map fst (element op mid cl))"
  using balanced_append [of 0 "map fst mid" 1 "[EndElement]"] by (simp add: element_def)

text \<open>Rendered without its first child, an element gives the text of the element that never had it.\<close>

lemma render_without_first:
  fixes pre post body sg :: segments
  assumes "closed_element op body cl" and "sg = element sgop sgmid sgcl" and "fst sgop = StartElement sgnm sgattrs"
    and "fst sgcl = EndElement" and "balanced 0 (map fst sgmid)"
  shows "render n (doc_of (pre @ element op (sg @ body) cl @ post)) (raw_of 0 (pre @ element op (sg @ body) cl @ post)) [length pre + 1]
      (length pre) (length pre + length sg + length body + 1) []
    = render n (doc_of (element op body cl)) (raw_of 0 (element op body cl)) [] 0 (length body + 1) []"
proof (cases n)
  case (Suc m)
  let ?j = "length pre" and ?u = "doc_of (element op body cl)" and ?ru = "raw_of 0 (element op body cl)"
  let ?d = "doc_of (pre @ element op (sg @ body) cl @ post)" and ?r = "raw_of 0 (pre @ element op (sg @ body) cl @ post)"
  let ?fin = "?j + length sg + length body + 1" and ?ufin = "length body + 1"
  obtain nm attrs where op: "fst op = StartElement nm attrs" and cl: "fst cl = EndElement" and b: "balanced 0 (map fst body)"
    and u: "uses_only (declares attrs) (op # body)"
    using assms(1) by (auto simp: closed_element_def)
  have u2: "set (used_prefixes attrs (TrimSpace (snd op))) \<subseteq> declares attrs"
    using u op by (cases op) (simp add: uses_only_def)
  let ?raw = "TrimSpace (snd op)"
  have "balanced 0 (map fst sg)" unfolding assms(2) by (rule balanced_element [OF assms(3-5)])
  from same_part_behind [OF assms(1) this] have body: "same_part ?u ?ru ?d ?r (?j + length sg) 1 (1 + length body)" .
  have start: "is_start ?d (?j + 1)" "match_end ?d (?j + 1) = ?j + length sg"
    using match_end_element [OF assms(5), of "map fst pre @ [fst op]" sgnm sgattrs "map fst body @ EndElement # map fst post"]
    by (simp_all add: match_end_def index_doc_sel is_start_def element_def assms(2-4) cl nth_append)
  have c1: "render_children (?fin - ?j) ?d [?j + 1] child (?j + 1) ?fin = render_children (?fin - ?j - 1) ?d [?j + 1] child (?j + length sg + 1) ?fin" for child
    using start by (simp add: is_start_def Let_def split: xtoken.splits)
  have c2: "render_children (?fin - ?j - 1) ?d [?j + 1] child (?j + length sg + 1) ?fin
      = render_children (length body) ?d [?j + 1] child (?j + length sg + 1) ?fin" for child
  proof -
    have "k < match_end ?d k" if k: "?j + length sg + 1 \<le> k" "k < ?fin" "is_start ?d k" for k
    proof -
      define i where "i = k - (?j + length sg)"
      have i: "k = i + (?j + length sg)" "1 \<le> i" "i < 1 + length body" using k by (auto simp: i_def)
      then show ?thesis using body k(3) same_part_tokens(2) [OF body i(2,3)] by (auto simp: same_part_def)
    qed
    then show ?thesis using render_children_fuel [of "?j + length sg + 1" ?fin ?d "?fin - ?j - 1" "[?j + 1]" child] by simp
  qed
  have c3: "render_children (?ufin - 0) ?u [] child 1 ?ufin = render_children (length body) ?u [] child 1 ?ufin" for child
    using render_children_fuel [of 1 ?ufin ?u "?ufin" "[]" child] body by (simp add: same_part_def)
  have c4: "render_children (length body) ?d [?j + 1] (\<lambda>i e. render m ?d ?r [?j + 1] i e nr) (1 + (?j + length sg)) (?ufin + (?j + length sg))
      = render_children (length body) ?u [] (\<lambda>i e. render m ?u ?ru [] i e nr) 1 ?ufin" for nr
  proof (rule render_children_same [OF body])
    show "\<forall>x\<in>set [?j + 1]. x < 1 + (?j + length sg)" by (simp add: assms(2) element_def)
    then show "render m ?u ?ru [] k (match_end ?u k) nr = render m ?d ?r [?j + 1] (k + (?j + length sg)) (match_end ?u k + (?j + length sg)) nr"
      if "1 \<le> k" "k < 1 + length body" "is_start ?u k" for k
      using render_same [OF body _ that] by simp
  qed simp_all
  have shift: "1 + (?j + length sg) = ?j + length sg + 1" "?ufin + (?j + length sg) = ?fin" by simp_all
  have children: "render_children (?fin - ?j) ?d [?j + 1] (\<lambda>i e. render m ?d ?r [?j + 1] i e nr) (?j + 1) ?fin
      = render_children (?ufin - 0) ?u [] (\<lambda>i e. render m ?u ?ru [] i e nr) (0 + 1) ?ufin" for nr
    by (simp only: c1 c2 c3 c4 [unfolded shift] add_0)
  have raw: "map_of ?r ?j = Some ?raw" "map_of ?ru 0 = Some ?raw"
    using op by (simp_all add: map_of_raw_of element_def nth_append is_start_tok_def)
  have atts: "se_attrs ?d ?j = attrs" "se_attrs ?u 0 = attrs"
    using op by (simp_all add: se_attrs_def index_doc_sel element_def nth_append)
  have tag: "render_start (declare_ns (ns_at_start ?d ?j) attrs) [] attrs ?raw = render_start (declare_ns (ns_at_start ?u 0) attrs) [] attrs ?raw"
    using u2 agree_declares [of attrs] by (intro render_start_cong) (auto simp: agree_def)
  have kept: "(?j \<in> set [?j + 1]) = False" "((0 :: nat) \<in> set []) = False" by simp_all
  show ?thesis by (simp only: Suc render_Suc raw atts kept if_False option.case Let_def case_prod_beta tag children)
qed simp

lemma canonicalize_without_first:
  fixes pre post body sg :: segments
  assumes "closed_element op body cl" and "sg = element sgop sgmid sgcl" and "fst sgop = StartElement sgnm sgattrs"
    and "fst sgcl = EndElement" and "balanced 0 (map fst sgmid)"
  shows "canonicalize (doc_of (pre @ element op (sg @ body) cl @ post)) (raw_of 0 (pre @ element op (sg @ body) cl @ post))
      (length pre, length pre + length sg + length body + 1) [length pre + 1]
    = canonicalize (doc_of (element op body cl)) (raw_of 0 (element op body cl)) (0, length body + 1) []"
  using render_without_first [OF assms] by (simp add: canonicalize_def del: render.simps)

lemma canonicalize_same:
  assumes "same_part d raw d' raw' off lo hi" and "lo \<le> i" and "i < hi" and "is_start d i"
  shows "canonicalize d' raw' (i + off, match_end d i + off) [] = canonicalize d raw (i, match_end d i) []"
  using render_same [OF assms(1) _ assms(2-4), of "[]"] by (simp add: canonicalize_def del: render.simps)

lemma uses_only_Cons: "uses_only P (s # segs) \<longleftrightarrow> uses_only P [s] \<and> uses_only P segs"
  by (simp add: uses_only_def)

lemma uses_only_Cons2: "uses_only P (s # s' # segs) \<longleftrightarrow> uses_only P [s] \<and> uses_only P (s' # segs)"
  by (simp add: uses_only_def)

lemma uses_only_append: "uses_only P (a @ b) \<longleftrightarrow> uses_only P a \<and> uses_only P b"
  by (auto simp: uses_only_def)

section \<open>Searching behind the first child\<close>

lemma closed_element_index:
  assumes "closed_element op mid cl"
  shows "well_matched (doc_of (element op mid cl))" and "length (tokens (doc_of (element op mid cl))) = length mid + 2"
proof -
  obtain nm attrs where "fst op = StartElement nm attrs" "fst cl = EndElement" "balanced 0 (map fst mid)"
    using assms by (auto simp: closed_element_def)
  then have "balanced 0 (map fst (element op mid cl))" by (rule balanced_element)
  then show "well_matched (doc_of (element op mid cl))" by (rule index_doc_well_matched)
qed (simp add: index_doc_sel element_def)

lemma first_child_tokens:
  fixes pre post body sg :: segments
  assumes "sg = element sgop sgmid sgcl" and "fst sgop = StartElement sgnm sgattrs" and "fst sgcl = EndElement"
    and "balanced 0 (map fst sgmid)" and "d = doc_of (pre @ element op (sg @ body) cl @ post)"
  shows "tokens d ! (length pre + 1) = StartElement sgnm sgattrs" and "match_end d (length pre + 1) = length pre + length sg"
  using match_end_element [OF assms(4), of "map fst pre @ [fst op]" sgnm sgattrs "map fst body @ fst cl # map fst post"]
  by (simp_all add: match_end_def index_doc_sel element_def assms(1-3,5) nth_append)

lemma direct_child_skip:
  "i < fin \<Longrightarrow> is_start d i \<Longrightarrow> \<not> (snd (se_name d i) = local \<and> fst (se_name d i) = space)
    \<Longrightarrow> direct_child_loop (Suc n) d i fin space local = direct_child_loop n d (match_end d i + 1) fin space local"
  by (auto simp: Let_def)

lemma findDirectChild_behind:
  fixes pre post body sg :: segments
  assumes "closed_element op body cl" and "sg = element sgop sgmid sgcl" and "fst sgop = StartElement sgnm sgattrs"
    and "fst sgcl = EndElement" and "balanced 0 (map fst sgmid)" and "sgnm \<noteq> (space, local)"
    and "d = doc_of (pre @ element op (sg @ body) cl @ post)"
  shows "findDirectChild d (length pre, length pre + length sg + length body + 1) space local
    = map_option (\<lambda>(a, b). (a + (length pre + length sg), b + (length pre + length sg)))
        (findDirectChild (doc_of (element op body cl)) (0, length body + 1) space local)"
proof -
  let ?j = "length pre" and ?L = "doc_of (element op body cl)"
  note first = first_child_tokens [OF assms(2-5,7)]
  have sg: "length sg = length sgmid + 2" by (simp add: assms(2) range_element)
  have "balanced 0 (map fst sg)" unfolding assms(2) by (rule balanced_element [OF assms(3-5)])
  from same_part_behind [OF assms(1) this, of pre post]
  have P: "same_part ?L (raw_of 0 (element op body cl)) d (raw_of 0 (pre @ element op (sg @ body) cl @ post)) (?j + length sg) 1 (1 + length body)"
    by (simp only: assms(7))
  have "findDirectChild d (?j, ?j + length sg + length body + 1) space local
      = direct_child_loop (length sg + length body) d (?j + length sg + 1) (?j + length sg + length body + 1) space local"
  proof -
    have "length sg + length body + 1 = Suc (length sg + length body)" by simp
    moreover have "\<not> (snd sgnm = local \<and> fst sgnm = space)" using assms(6) by (cases sgnm) auto
    ultimately show ?thesis
      using first sg direct_child_skip [of "?j + 1" "?j + length sg + length body + 1" d local space "length sg + length body"]
      by (simp add: findDirectChild_def is_start_def se_name_def numeral_eq_Suc del: direct_child_loop.simps)
  qed
  also have "\<dots> = map_option (\<lambda>(a, b). (a + (?j + length sg), b + (?j + length sg)))
      (direct_child_loop (length sg + length body) ?L 1 (length body + 1) space local)"
    using direct_child_same [OF P, of 1 "length body + 1"] by (simp add: algebra_simps)
  also have "direct_child_loop (length sg + length body) ?L 1 (length body + 1) space local
      = direct_child_loop (length body + 1) ?L 1 (length body + 1) space local"
    using scan_fuel_enough(1) [OF closed_element_index(1) [OF assms(1)], of "length body + 1" 1 "length sg + length body"]
      scan_fuel_enough(1) [OF closed_element_index(1) [OF assms(1)], of "length body + 1" 1 "length body + 1"]
      closed_element_index(2) [OF assms(1)] by simp
  finally show ?thesis by (simp add: findDirectChild_def)
qed

lemma all_descendants_skip:
  assumes "\<And>k. i \<le> k \<Longrightarrow> k < i + m \<Longrightarrow> is_start d k \<Longrightarrow> \<not> (snd (se_name d k) = local \<and> (space = [] \<or> fst (se_name d k) = space))"
    and "i + m \<le> fin"
  shows "all_descendants_loop (m + n) d i fin space local = all_descendants_loop n d (i + m) fin space local"
  using assms
proof (induction m arbitrary: i)
  case (Suc m)
  have "all_descendants_loop (m + n) d (Suc i) fin space local = all_descendants_loop n d (Suc i + m) fin space local"
  proof (rule Suc.IH)
    show "\<not> (snd (se_name d k) = local \<and> (space = [] \<or> fst (se_name d k) = space))" if "Suc i \<le> k" "k < Suc i + m" "is_start d k" for k
      using Suc.prems(1) [of k] that by simp
  qed (use Suc.prems(2) in simp)
  then show ?case using Suc.prems(1) [of i] Suc.prems(2) by (auto simp: Let_def)
qed simp

lemma findAllDescendants_behind:
  fixes pre post body sg :: segments
  assumes "closed_element op body cl" and "balanced 0 (map fst sg)"
    and "\<And>k nm as. k < length sg \<Longrightarrow> fst (sg ! k) = StartElement nm as \<Longrightarrow> \<not> (snd nm = local \<and> (space = [] \<or> fst nm = space))"
    and "d = doc_of (pre @ element op (sg @ body) cl @ post)"
  shows "findAllDescendants d (length pre) (length pre + length sg + length body + 1) space local
    = map (\<lambda>(a, b). (a + (length pre + length sg), b + (length pre + length sg)))
        (findAllDescendants (doc_of (element op body cl)) 0 (length body + 1) space local)"
proof -
  let ?j = "length pre" and ?L = "doc_of (element op body cl)"
  from same_part_behind [OF assms(1,2), of pre post]
  have P: "same_part ?L (raw_of 0 (element op body cl)) d (raw_of 0 (pre @ element op (sg @ body) cl @ post)) (?j + length sg) 1 (1 + length body)"
    by (simp only: assms(4))
  have "\<not> (snd (se_name d k) = local \<and> (space = [] \<or> fst (se_name d k) = space))" if k: "?j + 1 \<le> k" "k < ?j + 1 + length sg" "is_start d k" for k
  proof -
    define q where "q = k - (?j + 1)"
    have q: "k = ?j + 1 + q" "q < length sg" using k by (auto simp: q_def)
    then have "tokens d ! k = fst (sg ! q)" by (simp add: assms(4) index_doc_sel element_def nth_append)
    then show ?thesis using assms(3) [OF q(2)] k(3) by (auto simp: is_start_def se_name_def split: xtoken.splits)
  qed
  then have "findAllDescendants d ?j (?j + length sg + length body + 1) space local
      = all_descendants_loop (length body + 1) d (?j + 1 + length sg) (?j + length sg + length body + 1) space local"
    using all_descendants_skip [of "?j + 1" "length sg" d local space "?j + length sg + length body + 1" "length body + 1"]
    by (simp add: findAllDescendants_def)
  also have "\<dots> = map (\<lambda>(a, b). (a + (?j + length sg), b + (?j + length sg)))
      (all_descendants_loop (length body + 1) ?L 1 (length body + 1) space local)"
    using all_descendants_same [OF P, of 1 "length body + 1"] by (simp add: algebra_simps)
  finally show ?thesis by (simp add: findAllDescendants_def)
qed

section \<open>Names in start tags\<close>

text \<open>Start tags whose names the raw scan reads back as written.\<close>

definition name_char :: "char \<Rightarrow> bool" where
  "name_char c \<longleftrightarrow> \<not> isSpaceByte c \<and> c \<noteq> CHR ''>'' \<and> c \<noteq> CHR ''/'' \<and> c \<noteq> CHR ''=''"

definition plain_name :: "string \<Rightarrow> bool" where
  "plain_name s \<longleftrightarrow> list_all name_char s \<and> CHR '':'' \<notin> set s"

definition tag_ok :: "string \<Rightarrow> string \<Rightarrow> (string \<times> string \<times> string) list \<Rightarrow> bool" where
  "tag_ok pfx nm attrs \<longleftrightarrow> plain_name pfx \<and> plain_name nm
     \<and> list_all (\<lambda>(p, k, v). plain_name p \<and> plain_name k \<and> k \<noteq> [] \<and> CHR 0x22 \<notin> set v) attrs"

definition attr_text :: "string \<times> string \<Rightarrow> string" where
  "attr_text kv = '' '' @ fst kv @ ''='' @ quoted (snd kv)"

lemma attr_step_one:
  assumes "list_all name_char k" and "k \<noteq> []" and "CHR 0x22 \<notin> set v"
  shows "attr_step (attr_text (k, v) @ rest) = Some (k, Some rest)"
proof -
  have sp: "isSpaceByte CHR '' ''" "\<not> isSpaceByte CHR ''=''" "\<not> isSpaceByte CHR 0x22" "is_quote CHR 0x22" by code_simp+
  obtain c k' where k: "k = c # k'" using assms(2) by (cases k) auto
  have c: "\<not> isSpaceByte c" "c \<noteq> CHR ''/''" "c \<noteq> CHR ''>''" using assms(1) by (auto simp: k name_char_def)
  have a: "attr_text (k, v) @ rest = '' '' @ k @ ''='' @ quoted v @ rest" by (simp add: attr_text_def)
  have d: "dropWhile isSpaceByte ('' '' @ k @ ''='' @ quoted v @ rest) = k @ ''='' @ quoted v @ rest"
    using c sp by (simp add: k)
  have t: "takeWhile (\<lambda>c. c \<noteq> CHR ''='' \<and> \<not> isSpaceByte c) (k @ ''='' @ r) = k"
    "dropWhile (\<lambda>c. c \<noteq> CHR ''='') (k @ ''='' @ r) = ''='' @ r" for r
    using assms(1) by (induction k) (auto simp: name_char_def)
  have q: "dropWhile (\<lambda>c. c \<noteq> CHR 0x22) (v @ CHR 0x22 # rest) = CHR 0x22 # rest"
    using assms(3) by (induction v) auto
  have h: "hd (k @ r) = c" "k @ r \<noteq> []" for r by (simp_all add: k)
  show ?thesis
    unfolding attr_step_def a d t Let_def using c sp q h by (simp add: t quoted_def)
qed

lemma attr_names_text:
  assumes "\<forall>(k, v)\<in>set kvs. list_all name_char k \<and> k \<noteq> [] \<and> CHR 0x22 \<notin> set v"
  shows "attr_names (concat (map attr_text kvs) @ ''>'') = map fst kvs"
  using assms
proof (induction kvs)
  case Nil
  have "attr_names ''>'' = []" by code_simp
  then show ?case by simp
next
  case (Cons kv kvs)
  obtain k v where kv: "kv = (k, v)" by (cases kv)
  then have "attr_step (attr_text (k, v) @ concat (map attr_text kvs) @ ''>'') = Some (k, Some (concat (map attr_text kvs) @ ''>''))"
    using Cons.prems by (intro attr_step_one) auto
  then show ?case
    using Cons by (subst attr_names.simps) (simp add: kv)
qed

lemma qname_text:
  assumes "list_all name_char q" and "\<forall>(k, v)\<in>set kvs. list_all name_char k \<and> k \<noteq> [] \<and> CHR 0x22 \<notin> set v"
  shows "qname (''<'' @ q @ concat (map attr_text kvs) @ ''>'') = (q, map fst kvs)"
proof -
  let ?rest = "concat (map attr_text kvs) @ ''>''"
  have sp: "isSpaceByte CHR '' ''" by code_simp
  obtain c r where rest: "?rest = c # r" and c: "isSpaceByte c \<or> c = CHR ''>''"
    using sp by (cases kvs) (auto simp: attr_text_def)
  have "takeWhile (\<lambda>c. \<not> isSpaceByte c \<and> c \<noteq> CHR ''>'' \<and> c \<noteq> CHR ''/'') (q @ c # r) = q"
    "dropWhile (\<lambda>c. \<not> isSpaceByte c \<and> c \<noteq> CHR ''>'' \<and> c \<noteq> CHR ''/'') (q @ c # r) = c # r"
    using assms(1) c by (induction q) (auto simp: name_char_def)
  then have "qname (''<'' @ q @ c # r) = (q, attr_names (c # r))" by (simp add: qname_def)
  then show ?thesis using attr_names_text [OF assms(2)] by (simp only: rest)
qed

lemma TrimSpace_tag: "TrimSpace (''<'' @ s @ ''>'') = ''<'' @ s @ ''>''"
  by (simp add: TrimSpace_def is_space_def code_of_def)

lemma splitQName_plain: "CHR '':'' \<notin> set k \<Longrightarrow> splitQName k = ([], k)"
proof -
  assume "CHR '':'' \<notin> set k"
  then have "Cut k CHR '':'' = None" by (induction k) auto
  then show ?thesis by (simp add: splitQName_def)
qed

lemma splitQName_prefix: "CHR '':'' \<notin> set p \<Longrightarrow> splitQName (p @ '':'' @ k) = (p, k)"
  by (simp add: splitQName_def Cut_append)

lemma uses_only_open_tag:
  assumes "tag_ok pfx nm attrs" and "pfx \<in> P" and "\<forall>(p, k, v)\<in>set attrs. p = [] \<or> p = ''xmlns'' \<or> p \<in> P"
  shows "uses_only P [open_tag pfx uri nm attrs]"
proof -
  define lit :: "string \<times> string \<times> string \<Rightarrow> string" where "lit = (\<lambda>(p, k, v). if p = [] then k else p @ '':'' @ k)"
  define kvs where "kvs = map (\<lambda>a. (lit a, snd (snd a))) attrs"
  define as :: "xattr list" where "as = map (\<lambda>(p, k, v). ((p, k), v)) attrs"
  have colon: "name_char CHR '':''" by code_simp
  have tag: "snd (open_tag pfx uri nm attrs) = ''<'' @ (pfx @ '':'' @ nm) @ concat (map attr_text kvs) @ ''>''"
    by (simp add: open_tag_def kvs_def lit_def attr_text_def comp_def case_prod_beta')
  have ok: "plain_name (fst a)" "plain_name (fst (snd a))" "fst (snd a) \<noteq> []" "CHR 0x22 \<notin> set (snd (snd a))" if "a \<in> set attrs" for a
    using assms(1) that by (auto simp: tag_ok_def list_all_iff dest!: bspec [of _ _ a])
  have "list_all name_char (lit a) \<and> lit a \<noteq> []" if "a \<in> set attrs" for a
    using ok [OF that] colon by (cases a) (simp add: lit_def plain_name_def)
  then have "\<forall>(k, v)\<in>set kvs. list_all name_char k \<and> k \<noteq> [] \<and> CHR 0x22 \<notin> set v"
    using ok by (auto simp: kvs_def)
  moreover have "list_all name_char (pfx @ '':'' @ nm)" using assms(1) colon by (simp add: tag_ok_def plain_name_def)
  ultimately have q: "qname (TrimSpace (snd (open_tag pfx uri nm attrs))) = (pfx @ '':'' @ nm, map fst kvs)"
    using TrimSpace_tag [of "(pfx @ '':'' @ nm) @ concat (map attr_text kvs)"] qname_text [of "pfx @ '':'' @ nm" kvs] unfolding tag by simp
  have z: "zip as (map fst kvs @ replicate (length as) []) = map (\<lambda>a. (((fst a, fst (snd a)), snd (snd a)), lit a)) attrs"
    unfolding as_def kvs_def by (subst zip_append2) (auto simp: zip_map_map zip_same_conv_map comp_def case_prod_beta)
  have "fst (splitQName (lit a)) \<in> insert [] P" if "a \<in> set attrs" "fst a \<noteq> ''xmlns''" for a
    using ok [OF that(1)] that(2) bspec [OF assms(3) that(1)] splitQName_plain [of "fst (snd a)"] splitQName_prefix [of "fst a" "fst (snd a)"]
    by (cases a) (auto simp: lit_def plain_name_def)
  then have "fst (splitQName (snd aq)) \<in> insert [] P" if "aq \<in> set (plain_attrs as (map fst kvs))" for aq
    using that unfolding plain_attrs_def z by (fastforce simp: is_xmlns_def)
  moreover have "fst (splitQName (pfx @ '':'' @ nm)) = pfx"
    using assms(1) splitQName_prefix [of pfx nm] by (simp add: tag_ok_def plain_name_def)
  ultimately have "set (used_prefixes as (TrimSpace (snd (open_tag pfx uri nm attrs)))) \<subseteq> P"
    using assms(2) by (auto simp: used_prefixes_def q)
  then show ?thesis by (simp add: uses_only_def open_tag_def as_def)
qed

end
