(* ===== verification/Sign.thy ===== *)
theory Sign
  imports CanonLaws
begin

text \<open>
  Signing of an element, \<open>internal/saml/sign.go\<close>, which the development identity provider uses.  The key is the
  parameter \<open>signer\<close> (\<open>rsa.SignPKCS1v15\<close> of a digest).  The property: what it signs verifies, wherever the signed element
  stands in a document.
\<close>

section \<open>BuildSignedElementXML\<close>

datatype sign_error = SignParse | SignNoRoot | SignTooDeep | SignKey

definition signedInfo_xml :: "string \<Rightarrow> string \<Rightarrow> string" where
  "signedInfo_xml rid digestB64 =
     ''<ds:SignedInfo xmlns:ds='' @ quoted dsNS
     @ ''><ds:CanonicalizationMethod Algorithm='' @ quoted ''http://www.w3.org/2001/10/xml-exc-c14n#''
     @ ''></ds:CanonicalizationMethod><ds:SignatureMethod Algorithm='' @ quoted ''http://www.w3.org/2001/04/xmldsig-more#rsa-sha256''
     @ ''></ds:SignatureMethod><ds:Reference URI='' @ quoted (''#'' @ rid)
     @ ''><ds:Transforms><ds:Transform Algorithm='' @ quoted ''http://www.w3.org/2000/09/xmldsig#enveloped-signature''
     @ ''></ds:Transform></ds:Transforms><ds:DigestMethod Algorithm='' @ quoted ''http://www.w3.org/2001/04/xmlenc#sha256''
     @ ''></ds:DigestMethod><ds:DigestValue>'' @ digestB64
     @ ''</ds:DigestValue></ds:Reference></ds:SignedInfo>''"

definition signature_xml :: "string \<Rightarrow> string \<Rightarrow> string \<Rightarrow> string" where
  "signature_xml signedInfo sigB64 certB64 =
     ''<ds:Signature xmlns:ds='' @ quoted dsNS @ ''>'' @ signedInfo
     @ ''<ds:SignatureValue>'' @ sigB64
     @ ''</ds:SignatureValue><ds:KeyInfo><ds:X509Data><ds:X509Certificate>'' @ certB64
     @ ''</ds:X509Certificate></ds:X509Data></ds:KeyInfo></ds:Signature>''"

definition BuildSignedElementXML ::
    "samllib \<Rightarrow> (string \<Rightarrow> string option) \<Rightarrow> string \<Rightarrow> string \<Rightarrow> string \<Rightarrow> string \<Rightarrow> string \<Rightarrow> sign_error + string" where
  "BuildSignedElementXML S signer certDER rid openTag bodyXML closeTag =
     (let unsigned = openTag @ bodyXML @ closeTag in
      require SignParse (parseXMLDoc (sl_xml S) unsigned) (\<lambda>unsignedDoc.
      require SignParse (captureRawTags (sl_xml S) unsigned) (\<lambda>raw.
      require SignNoRoot (rootRange unsignedDoc) (\<lambda>rng.
      require SignTooDeep (canonicalize unsignedDoc raw rng []) (\<lambda>canonicalTarget.
      let signedInfo = signedInfo_xml rid (std_encode (sl_sha256 S canonicalTarget)) in
      require SignParse (parseXMLDoc (sl_xml S) signedInfo) (\<lambda>siDoc.
      require SignParse (captureRawTags (sl_xml S) signedInfo) (\<lambda>siRaw.
      let siRange = (case rootRange siDoc of None \<Rightarrow> (0, 0) | Some r \<Rightarrow> r) in
      require SignTooDeep (canonicalize siDoc siRaw siRange []) (\<lambda>canonicalSignedInfo.
      require SignKey (signer (sl_sha256 S canonicalSignedInfo)) (\<lambda>sigBytes.
      Inr (openTag @ signature_xml signedInfo (std_encode sigBytes) (std_encode certDER) @ bodyXML @ closeTag))))))))))"

section \<open>The signature as a document\<close>

abbreviation ds_open :: "string \<Rightarrow> (string \<times> string \<times> string) list \<Rightarrow> xtoken \<times> string" where
  "ds_open nm attrs \<equiv> open_tag ''ds'' dsNS nm attrs"

abbreviation ds_close :: "string \<Rightarrow> xtoken \<times> string" where
  "ds_close nm \<equiv> close_tag ''ds'' nm"

definition signed_info_mid :: "string \<Rightarrow> string \<Rightarrow> segments" where
  "signed_info_mid rid digestB64 =
     [ds_open ''CanonicalizationMethod'' [([], ''Algorithm'', ''http://www.w3.org/2001/10/xml-exc-c14n#'')], ds_close ''CanonicalizationMethod'',
      ds_open ''SignatureMethod'' [([], ''Algorithm'', ''http://www.w3.org/2001/04/xmldsig-more#rsa-sha256'')], ds_close ''SignatureMethod'',
      ds_open ''Reference'' [([], ''URI'', ''#'' @ rid)],
      ds_open ''Transforms'' [],
      ds_open ''Transform'' [([], ''Algorithm'', ''http://www.w3.org/2000/09/xmldsig#enveloped-signature'')], ds_close ''Transform'',
      ds_close ''Transforms'',
      ds_open ''DigestMethod'' [([], ''Algorithm'', ''http://www.w3.org/2001/04/xmlenc#sha256'')], ds_close ''DigestMethod'',
      ds_open ''DigestValue'' [], (CharData digestB64, digestB64), ds_close ''DigestValue'',
      ds_close ''Reference'']"

definition signed_info_segs :: "string \<Rightarrow> string \<Rightarrow> segments" where
  "signed_info_segs rid digestB64 =
     element (ds_open ''SignedInfo'' [(''xmlns'', ''ds'', dsNS)]) (signed_info_mid rid digestB64) (ds_close ''SignedInfo'')"

definition signature_mid :: "string \<Rightarrow> string \<Rightarrow> string \<Rightarrow> string \<Rightarrow> segments" where
  "signature_mid rid digestB64 sigB64 certB64 =
     signed_info_segs rid digestB64
     @ [ds_open ''SignatureValue'' [], (CharData sigB64, sigB64), ds_close ''SignatureValue'',
        ds_open ''KeyInfo'' [], ds_open ''X509Data'' [], ds_open ''X509Certificate'' [], (CharData certB64, certB64),
        ds_close ''X509Certificate'', ds_close ''X509Data'', ds_close ''KeyInfo'']"

definition signature_segs :: "string \<Rightarrow> string \<Rightarrow> string \<Rightarrow> string \<Rightarrow> segments" where
  "signature_segs rid digestB64 sigB64 certB64 =
     element (ds_open ''Signature'' [(''xmlns'', ''ds'', dsNS)]) (signature_mid rid digestB64 sigB64 certB64) (ds_close ''Signature'')"

lemma source_of_append [simp]: "source_of (a @ b) = source_of a @ source_of b"
  by (simp add: source_of_def)

lemma source_of_Cons: "source_of (s # segs) = snd s @ source_of segs"
  by (simp add: source_of_def)

lemma source_of_Nil [simp]: "source_of [] = []"
  by (simp add: source_of_def)

lemma source_signed_info: "source_of (signed_info_segs rid dg) = signedInfo_xml rid dg"
  by (simp add: signed_info_segs_def signed_info_mid_def signedInfo_xml_def element_def source_of_def open_tag_def close_tag_def quoted_def)

lemma source_signature: "source_of (signature_segs rid dg sg cert) = signature_xml (signedInfo_xml rid dg) sg cert"
  by (simp add: signature_segs_def signature_mid_def signature_xml_def element_def source_of_Cons source_signed_info)
    (simp add: source_of_def open_tag_def close_tag_def quoted_def)

section \<open>The prefixes of a signature\<close>

lemma ds_declared: "declares [((''xmlns'', ''ds''), dsNS)] = {''ds''}"
  by (auto simp: declares_def declare_ns_def map_of_put split: if_splits)

lemma uses_only_other [simp]: "uses_only P [close_tag pfx nm]" "uses_only P [(CharData t, src)]" "uses_only P []"
  by (simp_all add: uses_only_def close_tag_def)

lemma ds_tags_ok:
  "tag_ok ''ds'' ''Signature'' [(''xmlns'', ''ds'', dsNS)]" "tag_ok ''ds'' ''SignedInfo'' [(''xmlns'', ''ds'', dsNS)]"
  "tag_ok ''ds'' ''CanonicalizationMethod'' [([], ''Algorithm'', ''http://www.w3.org/2001/10/xml-exc-c14n#'')]"
  "tag_ok ''ds'' ''SignatureMethod'' [([], ''Algorithm'', ''http://www.w3.org/2001/04/xmldsig-more#rsa-sha256'')]"
  "tag_ok ''ds'' ''Transforms'' []" "tag_ok ''ds'' ''Transform'' [([], ''Algorithm'', ''http://www.w3.org/2000/09/xmldsig#enveloped-signature'')]"
  "tag_ok ''ds'' ''DigestMethod'' [([], ''Algorithm'', ''http://www.w3.org/2001/04/xmlenc#sha256'')]" "tag_ok ''ds'' ''DigestValue'' []"
  "tag_ok ''ds'' ''SignatureValue'' []" "tag_ok ''ds'' ''KeyInfo'' []" "tag_ok ''ds'' ''X509Data'' []" "tag_ok ''ds'' ''X509Certificate'' []"
  by code_simp+

lemma ds_reference_ok: "CHR 0x22 \<notin> set rid \<Longrightarrow> tag_ok ''ds'' ''Reference'' [([], ''URI'', CHR ''#'' # rid)]"
proof -
  have "tag_ok ''ds'' ''Reference'' [([], ''URI'', [])]" by code_simp
  then show "CHR 0x22 \<notin> set rid \<Longrightarrow> ?thesis" by (simp add: tag_ok_def)
qed

lemma uses_only_ds:
  "tag_ok ''ds'' nm as \<Longrightarrow> \<forall>(p, k, v)\<in>set as. p = [] \<or> p = ''xmlns'' \<Longrightarrow> uses_only {''ds''} [ds_open nm as]"
  by (rule uses_only_open_tag) auto

lemma signed_info_uses:
  assumes "CHR 0x22 \<notin> set rid"
  shows "uses_only {''ds''} (signed_info_segs rid dg)"
  unfolding signed_info_segs_def signed_info_mid_def element_def append.simps
  by (simp only: uses_only_Cons2) (intro conjI uses_only_ds uses_only_other ds_tags_ok ds_reference_ok assms; simp)

lemma closed_signed_info:
  assumes "CHR 0x22 \<notin> set rid"
  shows "closed_element (ds_open ''SignedInfo'' [(''xmlns'', ''ds'', dsNS)]) (signed_info_mid rid dg) (ds_close ''SignedInfo'')"
proof -
  have "uses_only {''ds''} (ds_open ''SignedInfo'' [(''xmlns'', ''ds'', dsNS)] # signed_info_mid rid dg)"
    using signed_info_uses [OF assms, of dg] by (simp add: signed_info_segs_def element_def uses_only_def)
  moreover have "balanced 0 (map fst (signed_info_mid rid dg))" by (simp add: signed_info_mid_def open_tag_def close_tag_def)
  ultimately show ?thesis unfolding closed_element_def
    by (intro exI [of _ "(dsNS, ''SignedInfo'')"] exI [of _ "[((''xmlns'', ''ds''), dsNS)]"]) (simp add: open_tag_def close_tag_def ds_declared)
qed

lemma closed_signature:
  assumes "CHR 0x22 \<notin> set rid"
  shows "closed_element (ds_open ''Signature'' [(''xmlns'', ''ds'', dsNS)]) (signature_mid rid dg sg cert) (ds_close ''Signature'')"
proof -
  have "uses_only {''ds''} (signature_mid rid dg sg cert)"
    unfolding signature_mid_def uses_only_append append.simps
    by (simp only: uses_only_Cons2) (intro conjI signed_info_uses assms uses_only_ds uses_only_other ds_tags_ok; simp)
  then have "uses_only {''ds''} (ds_open ''Signature'' [(''xmlns'', ''ds'', dsNS)] # signature_mid rid dg sg cert)"
    by (subst uses_only_Cons) (intro conjI uses_only_ds ds_tags_ok; simp)
  moreover have "balanced 0 (map fst (signature_mid rid dg sg cert))"
    by (simp add: signature_mid_def signed_info_segs_def signed_info_mid_def element_def open_tag_def close_tag_def)
  ultimately show ?thesis unfolding closed_element_def
    by (intro exI [of _ "(dsNS, ''Signature'')"] exI [of _ "[((''xmlns'', ''ds''), dsNS)]"]) (simp add: open_tag_def close_tag_def ds_declared)
qed

text \<open>Where the parts of a signature are.\<close>

lemmas signature_tokens = signature_segs_def signature_mid_def signed_info_segs_def signed_info_mid_def element_def open_tag_def close_tag_def

lemma signature_index:
  "matchEnd (doc_of (signature_segs rid dg sg cert)) =
    [(0, 28), (21, 27), (22, 26), (23, 25), (18, 20), (1, 17), (6, 16), (13, 15), (11, 12), (7, 10), (8, 9), (4, 5), (2, 3)]"
  by (simp add: index_doc_sel signature_tokens)

lemma signature_searches:
  fixes rid dg sg cert
  defines "d \<equiv> doc_of (signature_segs rid dg sg cert)"
  shows "findDirectChild d (0, 28) dsNS ''SignedInfo'' = Some (1, 17)"
    and "findDirectChild d (0, 28) dsNS ''SignatureValue'' = Some (18, 20)"
    and "findDirectChild d (1, 17) dsNS ''SignatureMethod'' = Some (4, 5)"
    and "findDirectChild d (1, 17) dsNS ''Reference'' = Some (6, 16)"
    and "findDirectChild d (6, 16) dsNS ''DigestMethod'' = Some (11, 12)"
    and "findDirectChild d (6, 16) dsNS ''DigestValue'' = Some (13, 15)"
    and "elementText d (13, 15) = dg" and "elementText d (18, 20) = sg"
    and "se_attrs d 4 = [(([], ''Algorithm''), ''http://www.w3.org/2001/04/xmldsig-more#rsa-sha256'')]"
    and "se_attrs d 6 = [(([], ''URI''), ''#'' @ rid)]"
    and "se_attrs d 11 = [(([], ''Algorithm''), ''http://www.w3.org/2001/04/xmlenc#sha256'')]"
proof -
  have "tokens d = map fst (signature_segs rid dg sg cert)" by (simp add: d_def index_doc_sel)
  note toks = this [unfolded signature_tokens, simplified]
  note s = toks signature_index [of rid dg sg cert, folded d_def] findDirectChild_def is_start_def se_name_def se_attrs_def
    elementText_def match_end_def numeral_eq_Suc Let_def
  show "findDirectChild d (0, 28) dsNS ''SignedInfo'' = Some (1, 17)" by (simp add: s)
  show "findDirectChild d (0, 28) dsNS ''SignatureValue'' = Some (18, 20)" by (simp add: s)
  show "findDirectChild d (1, 17) dsNS ''SignatureMethod'' = Some (4, 5)" by (simp add: s)
  show "findDirectChild d (1, 17) dsNS ''Reference'' = Some (6, 16)" by (simp add: s)
  show "findDirectChild d (6, 16) dsNS ''DigestMethod'' = Some (11, 12)" by (simp add: s)
  show "findDirectChild d (6, 16) dsNS ''DigestValue'' = Some (13, 15)" by (simp add: s)
  show "elementText d (13, 15) = dg" "elementText d (18, 20) = sg" by (simp_all add: s)
  show "se_attrs d 4 = [(([], ''Algorithm''), ''http://www.w3.org/2001/04/xmldsig-more#rsa-sha256'')]" by (simp add: s)
  show "se_attrs d 6 = [(([], ''URI''), ''#'' @ rid)]" by (simp add: s)
  show "se_attrs d 11 = [(([], ''Algorithm''), ''http://www.w3.org/2001/04/xmlenc#sha256'')]" by (simp add: s)
qed

section \<open>Signed elements verify\<close>

lemma TrimSpace_encode: "TrimSpace (std_encode b) = std_encode b"
proof -
  have "length std_alphabet = 64" by (simp add: std_alphabet_def)
  then have "set (std_encode b) \<subseteq> insert CHR ''='' (set std_alphabet)"
    unfolding std_encode_def by (rule set_encode_loop)
  moreover have "32 < code_of c" if "c \<in> insert CHR ''='' (set std_alphabet)" for c
    using no_space_alphabet that by (simp only: set_append Un_iff list.set) blast
  ultimately have "\<forall>c\<in>set (std_encode b). \<not> is_space c"
    by (force simp: is_space_def)
  then have "dropWhile is_space (std_encode b) = std_encode b" "dropWhile is_space (rev (std_encode b)) = rev (std_encode b)"
    by (auto simp: dropWhile_eq_self_iff hd_rev)
  then show ?thesis by (simp add: TrimSpace_def)
qed

lemma length_signed_info: "length (signed_info_segs rid dg) = 17"
  by (simp add: signed_info_segs_def signed_info_mid_def element_def)

lemma length_signature: "length (signature_segs rid dg sg cert) = 29"
  by (simp add: signature_segs_def signature_mid_def length_signed_info element_def)

lemma rootRange_element:
  assumes "closed_element op body cl"
  shows "rootRange (doc_of (element op body cl)) = Some (0, length body + 1)"
proof -
  obtain nm attrs where op: "fst op = StartElement nm attrs" "fst cl = EndElement" "balanced 0 (map fst body)"
    using assms by (auto simp: closed_element_def)
  have "map_of (matchEnd (doc_of (element op body cl))) 0 = Some (length body + 1)"
    using match_end_element [OF op(3), of "[]" nm attrs "[]"] op by (simp add: element_def)
  moreover have "tokens (doc_of (element op body cl)) = StartElement nm attrs # map fst body @ [EndElement]"
    by (simp add: index_doc_sel element_def op)
  ultimately show ?thesis by (simp add: rootRange_def is_start_def match_end_def upt_conv_Cons del: upt_Suc)
qed

lemma signature_verifies:
  fixes pre post :: segments
  assumes "closed_element op body cl" and "fst op = StartElement nm attrs" and "attr_or_empty attrs ''ID'' = rid"
    and "rid \<noteq> []" and "CHR 0x22 \<notin> set rid"
    and "sg = signature_segs rid (std_encode (sl_sha256 S target)) (std_encode sigb) cert"
    and "canonicalize (doc_of (element op body cl)) (raw_of 0 (element op body cl)) (0, length body + 1) [] = Some target"
    and "si = signed_info_segs rid (std_encode (sl_sha256 S target))"
    and "canonicalize (doc_of si) (raw_of 0 si) (0, 16) [] = Some csi" and "sl_rsa_verify S pub (sl_sha256 S csi) sigb"
    and "full = pre @ element op (sg @ body) cl @ post" and "fin = length pre + length sg + length body + 1"
  shows "findDirectChild (doc_of full) (length pre, fin) dsNS ''Signature'' = Some (length pre + 1, length pre + length sg)
    \<and> verifyEnvelopedSignature S (doc_of full) (raw_of 0 full) (length pre, fin) (length pre + 1, length pre + length sg) (RSACert pub)
        = Inr ()"
proof -
  let ?d = "doc_of full" and ?off = "length pre + 1" and ?dg = "std_encode (sl_sha256 S target)"
  let ?l = "doc_of sg"
  have len: "length sg = 29" by (simp add: assms(6) length_signature)
  have full: "full = (pre @ [op]) @ sg @ (body @ cl # post)" by (simp add: assms(11) element_def)
  have P: "same_part ?l (raw_of 0 sg) ?d (raw_of 0 full) ?off 0 29"
    using same_part_element [OF closed_signature [OF assms(5), of ?dg "std_encode sigb" cert], of "pre @ [op]" "[]" ?off "[]" "body @ cl # post",
        folded signature_segs_def, folded assms(6)] len by (simp add: full)
  have search: "findDirectChild ?d (a + ?off, b + ?off) dsNS nm' = map_option (\<lambda>(x, y). (x + ?off, y + ?off)) (findDirectChild ?l (a, b) dsNS nm')"
    if "b \<le> 29" for a b nm' using findDirectChild_same [OF P _ that] by simp
  have txts: "elementText ?d (a + ?off, b + ?off) = elementText ?l (a, b)" if "b \<le> 29" for a b
    using elementText_same [OF P _ that] by simp
  have atts: "se_attrs ?d (k + ?off) = se_attrs ?l k" if "k < 29" for k
    using same_part_tokens(3) [OF P _ that] by simp
  note loc = signature_searches [of rid ?dg "std_encode sigb" cert, folded assms(6)]
  have sig: "(?off, length pre + length sg) = (0 + ?off, 28 + ?off)" by (simp add: len)
  have si_range: "(1 + ?off, 17 + ?off) = (0 + (length pre + 2), 16 + (length pre + 2))" by simp
  have "fst (sg ! 0) = StartElement (dsNS, ''Signature'') [((''xmlns'', ''ds''), dsNS)]"
    by (simp add: assms(6) signature_tokens)
  then have tok: "tokens ?d ! ?off = StartElement (dsNS, ''Signature'') [((''xmlns'', ''ds''), dsNS)]"
    using len by (simp add: index_doc_sel full nth_append)
  have "match_end ?l 0 = 28" using signature_index [of rid ?dg "std_encode sigb" cert] by (simp add: match_end_def assms(6))
  moreover have "is_start ?l 0" by (simp add: is_start_def index_doc_sel assms(6) signature_tokens)
  ultimately have "match_end ?d ?off = 28 + ?off" using same_part_ends [OF P, of 0] by simp
  then have child: "findDirectChild ?d (length pre, fin) dsNS ''Signature'' = Some (?off, length pre + length sg)"
    using tok by (simp add: findDirectChild_def assms(12) len is_start_def se_name_def Let_def numeral_eq_Suc)
  have parent: "se_attrs ?d (length pre) = attrs" by (simp add: se_attrs_def index_doc_sel full nth_append assms(2))
  have target: "canonicalize ?d (raw_of 0 full) (length pre, fin) [?off] = Some target"
    using canonicalize_without_first [OF assms(1) assms(6) [unfolded signature_segs_def], of _ _ pre post] assms(7)
      closed_signature [OF assms(5), of ?dg "std_encode sigb" cert]
    by (auto simp: assms(11,12) closed_element_def)
  have C: "same_part (doc_of si) (raw_of 0 si) ?d (raw_of 0 full) (length pre + 2) 0 17"
  proof -
    let ?A = "pre @ [op, ds_open ''Signature'' [(''xmlns'', ''ds'', dsNS)]]"
      and ?B = "drop 17 (signature_mid rid ?dg (std_encode sigb) cert) @ [ds_close ''Signature''] @ body @ cl # post"
    have "full = ?A @ si @ ?B"
      by (simp add: full assms(6,8) signature_segs_def signature_mid_def element_def length_signed_info)
    then show ?thesis
      using same_part_element [OF closed_signed_info [OF assms(5), of ?dg], of ?A "[]" "length pre + 2" "[]" ?B,
          folded signed_info_segs_def, folded assms(8)]
      by (simp only: append_Nil append_Nil2 list.size length_append) (simp add: assms(8) length_signed_info)
  qed
  have "match_end (doc_of si) 0 = 16" "is_start (doc_of si) 0"
    by (simp_all add: assms(8) match_end_def is_start_def index_doc_sel signature_tokens)
  then have csi: "canonicalize ?d (raw_of 0 full) (1 + ?off, 17 + ?off) [] = Some csi"
    using canonicalize_same [OF C, of 0] assms(9) unfolding si_range by simp
  have "verifyEnvelopedSignature S ?d (raw_of 0 full) (length pre, fin) (0 + ?off, 28 + ?off) (RSACert pub) = Inr ()"
    unfolding verifyEnvelopedSignature_def
    using search [of 28 0] search [of 17 1] search [of 16 6] txts [of 15 13] txts [of 20 18] atts [of 4] atts [of 6] atts [of 11] loc
      parent target csi assms(3,4,10)
    by (simp add: require_def ensure_def Let_def attr_or_empty_def attr_value_def TrimPrefix_def HasPrefix_def digestAlgByURI_def sigAlgByURI_def
        TrimSpace_encode digest.same_iff)
  then show ?thesis using child unfolding sig by simp
qed

text \<open>What the decoder has to read: the element, and the SignedInfo over its digest.\<close>

definition reads_signing :: "samllib \<Rightarrow> xtoken \<times> string \<Rightarrow> segments \<Rightarrow> xtoken \<times> string \<Rightarrow> string \<Rightarrow> bool" where
  "reads_signing S op body cl rid \<longleftrightarrow>
     reads (sl_xml S) (element op body cl)
     \<and> (\<forall>target. canonicalize (doc_of (element op body cl)) (raw_of 0 (element op body cl)) (0, length body + 1) [] = Some target
          \<longrightarrow> reads (sl_xml S) (signed_info_segs rid (std_encode (sl_sha256 S target))))"

lemma BuildSigned_Inr:
  assumes "closed_element op body cl" and "CHR 0x22 \<notin> set rid" and "reads_signing S op body cl rid"
    and "BuildSignedElementXML S signer certDER rid (snd op) (source_of body) (snd cl) = Inr out"
  shows "\<exists>target csi sigb. canonicalize (doc_of (element op body cl)) (raw_of 0 (element op body cl)) (0, length body + 1) [] = Some target
    \<and> (let si = signed_info_segs rid (std_encode (sl_sha256 S target)) in
         canonicalize (doc_of si) (raw_of 0 si) (0, 16) [] = Some csi)
    \<and> signer (sl_sha256 S csi) = Some sigb
    \<and> out = source_of (element op
        (signature_segs rid (std_encode (sl_sha256 S target)) (std_encode sigb) (std_encode certDER) @ body) cl)"
proof -
  have src: "snd op @ source_of body @ snd cl = source_of (element op body cl)"
    by (simp add: element_def source_of_Cons)
  obtain target where target: "canonicalize (doc_of (element op body cl)) (raw_of 0 (element op body cl)) (0, length body + 1) [] = Some target"
    using assms(3,4) rootRange_element [OF assms(1)]
    by (auto simp: BuildSignedElementXML_def src require_def Let_def reads_signing_def parseXMLDoc_reads captureRawTags_reads split: option.splits)
  let ?si = "signed_info_segs rid (std_encode (sl_sha256 S target))"
  have r: "rootRange (doc_of ?si) = Some (0, 16)"
    using rootRange_element [OF closed_signed_info [OF assms(2), of "std_encode (sl_sha256 S target)"]]
    by (simp add: signed_info_segs_def signed_info_mid_def)
  have "reads (sl_xml S) (element op body cl)" "reads (sl_xml S) ?si" using assms(3) target by (simp_all add: reads_signing_def)
  then obtain csi sigb where "canonicalize (doc_of ?si) (raw_of 0 ?si) (0, 16) [] = Some csi" "signer (sl_sha256 S csi) = Some sigb"
    "out = snd op @ signature_xml (signedInfo_xml rid (std_encode (sl_sha256 S target))) (std_encode sigb) (std_encode certDER)
       @ source_of body @ snd cl"
    using assms(4) rootRange_element [OF assms(1)] target r
    by (auto simp: BuildSignedElementXML_def src require_def Let_def parseXMLDoc_reads captureRawTags_reads
        simp flip: source_signed_info split: option.splits)
  then show ?thesis using target
    by (simp add: element_def source_of_Cons source_signature Let_def)
qed

lemma BuildSigned_completes:
  assumes "closed_element op body cl" and "CHR 0x22 \<notin> set rid" and "reads_signing S op body cl rid"
    and "canonicalize (doc_of (element op body cl)) (raw_of 0 (element op body cl)) (0, length body + 1) [] = Some target"
    and "si = signed_info_segs rid (std_encode (sl_sha256 S target))"
    and "canonicalize (doc_of si) (raw_of 0 si) (0, 16) [] = Some csi" and "signer (sl_sha256 S csi) = Some sigb"
  shows "BuildSignedElementXML S signer certDER rid (snd op) (source_of body) (snd cl)
    = Inr (source_of (element op (signature_segs rid (std_encode (sl_sha256 S target)) (std_encode sigb) (std_encode certDER) @ body) cl))"
proof -
  have src: "snd op @ source_of body @ snd cl = source_of (element op body cl)"
    by (simp add: element_def source_of_Cons)
  have r: "rootRange (doc_of si) = Some (0, 16)"
    using rootRange_element [OF closed_signed_info [OF assms(2), of "std_encode (sl_sha256 S target)"]]
    by (simp add: assms(5) signed_info_segs_def signed_info_mid_def)
  have reads: "reads (sl_xml S) (element op body cl)" "reads (sl_xml S) si"
    using assms(3,4) by (simp_all add: reads_signing_def assms(5))
  have si: "signedInfo_xml rid (std_encode (sl_sha256 S target)) = source_of si" by (simp add: assms(5) source_signed_info)
  have "signature_xml (source_of si) (std_encode sigb) (std_encode certDER)
      = source_of (signature_segs rid (std_encode (sl_sha256 S target)) (std_encode sigb) (std_encode certDER))"
    by (simp add: assms(5) source_signature source_signed_info)
  then show ?thesis
    using parseXMLDoc_reads [OF reads(1)] captureRawTags_reads [OF reads(1)] parseXMLDoc_reads [OF reads(2)] captureRawTags_reads [OF reads(2)]
      rootRange_element [OF assms(1)] assms(4,6,7) r
    by (simp add: BuildSignedElementXML_def src si require_def Let_def) (simp add: element_def source_of_Cons)
qed

text \<open>
  C13: Signing and verifying agree, through two canonicalizations of different documents.  What
  BuildSignedElementXML returns for an element that declares the prefixes it uses is the element with a signature
  as its first child, and in every document that contains this element, whatever comes before and behind it and
  whatever namespaces are in scope there, verifyEnvelopedSignature finds that signature and accepts it under the
  public key that belongs to the signing key.
\<close>

theorem signed_element_verifies:
  assumes "closed_element op body cl" and "fst op = StartElement nm attrs" and "attr_or_empty attrs ''ID'' = rid"
    and "rid \<noteq> []" and "CHR 0x22 \<notin> set rid" and "reads_signing S op body cl rid"
    and "\<forall>d sig. signer d = Some sig \<longrightarrow> sl_rsa_verify S pub d sig"
    and "BuildSignedElementXML S signer certDER rid (snd op) (source_of body) (snd cl) = Inr out"
  shows "\<exists>sg. out = source_of (element op (sg @ body) cl) \<and> length sg = 29
    \<and> (\<forall>pre post. let full = pre @ element op (sg @ body) cl @ post;
                       parent = (length pre, length pre + length sg + length body + 1);
                       sig = (length pre + 1, length pre + length sg)
         in findDirectChild (index_doc (map fst full)) parent dsNS ''Signature'' = Some sig
            \<and> verifyEnvelopedSignature S (index_doc (map fst full)) (raw_of 0 full) parent sig (RSACert pub) = Inr ())"
proof -
  obtain target csi sigb where b:
    "canonicalize (doc_of (element op body cl)) (raw_of 0 (element op body cl)) (0, length body + 1) [] = Some target"
    "let si = signed_info_segs rid (std_encode (sl_sha256 S target)) in canonicalize (doc_of si) (raw_of 0 si) (0, 16) [] = Some csi"
    "signer (sl_sha256 S csi) = Some sigb"
    "out = source_of (element op (signature_segs rid (std_encode (sl_sha256 S target)) (std_encode sigb) (std_encode certDER) @ body) cl)"
    using BuildSigned_Inr [OF assms(1,5,6,8)] by blast
  have "sl_rsa_verify S pub (sl_sha256 S csi) sigb" using assms(7) b(3) by blast
  note v = signature_verifies [OF assms(1-5) refl b(1) refl b(2) [unfolded Let_def] this refl refl]
  show ?thesis
    by (rule exI [of _ "signature_segs rid (std_encode (sl_sha256 S target)) (std_encode sigb) (std_encode certDER)"])
      (use v b(4) length_signature in \<open>simp add: Let_def\<close>)
qed

end
