(* ===== verification/FakeIdp.thy ===== *)
theory FakeIdp
  imports Sign SamlLaws
begin

text \<open>
  The development identity provider, \<open>cmd/fakeidp/main.go\<close> (and \<open>ensureFakeIDP\<close> in \<open>main.go\<close>): the
  metadata it writes and the responses it mints.  Key generation, PEM files and certificates are parameters.  The
  properties: the gateway reads its metadata back, and accepts the responses it mints.
\<close>

section \<open>Metadata (runInit)\<close>

definition fakeidp_metadata :: "string \<Rightarrow> string \<Rightarrow> string \<Rightarrow> string" where
  "fakeidp_metadata entityID certB64 ssoURL =
     ''<?xml version='' @ quoted ''1.0'' @ ''?>'' @ [CHR 0x0A]
     @ ''<md:EntityDescriptor xmlns:md='' @ quoted mdNS @ '' xmlns:ds='' @ quoted dsNS @ '' entityID='' @ quoted entityID @ ''>'' @ [CHR 0x0A]
     @ ''  <md:IDPSSODescriptor protocolSupportEnumeration='' @ quoted sampNS @ ''>'' @ [CHR 0x0A]
     @ ''    <md:KeyDescriptor use='' @ quoted ''signing'' @ ''>'' @ [CHR 0x0A]
     @ ''      <ds:KeyInfo><ds:X509Data><ds:X509Certificate>'' @ certB64 @ ''</ds:X509Certificate></ds:X509Data></ds:KeyInfo>'' @ [CHR 0x0A]
     @ ''    </md:KeyDescriptor>'' @ [CHR 0x0A]
     @ ''    <md:SingleSignOnService Binding='' @ quoted ''urn:oasis:names:tc:SAML:2.0:bindings:HTTP-Redirect'' @ '' Location='' @ quoted ssoURL
     @ ''></md:SingleSignOnService>'' @ [CHR 0x0A]
     @ ''  </md:IDPSSODescriptor>'' @ [CHR 0x0A]
     @ ''</md:EntityDescriptor>'' @ [CHR 0x0A]"

text \<open>\<open>dirOf\<close>: the loop from the end of the path\<close>

fun dirOf_loop :: "string \<Rightarrow> nat \<Rightarrow> string" where
  "dirOf_loop p 0 = ''.''"
| "dirOf_loop p (Suc i) = (if p ! i = CHR ''/'' \<or> p ! i = CHR 0x5C then take i p else dirOf_loop p i)"

definition dirOf :: "string \<Rightarrow> string" where
  "dirOf p = dirOf_loop p (length p)"

section \<open>Responses (runMint)\<close>

record mint_inputs =
  miSPEntityID :: string
  miACSURL :: string
  miInResponseTo :: string
  miNameID :: string
  miDepartment :: string
  miCertDER :: "string option"
    \<comment> \<open>the self-signed certificate for the key file, if that can be read\<close>
  miAssertionUUID :: string
  miResponseUUID :: string
  miNow :: instant

definition fake_issuer :: string where
  "fake_issuer = ''https://fake-idp.example.com/entity''"

definition mint_body :: "splib \<Rightarrow> mint_inputs \<Rightarrow> string" where
  "mint_body P i =
     (let notAfter = miNow i + minutes 10 in
      ''<saml:Issuer>'' @ fake_issuer @ ''</saml:Issuer>''
      @ ''<saml:Subject>''
      @ ''<saml:NameID Format='' @ quoted ''urn:oasis:names:tc:SAML:1.1:nameid-format:emailAddress'' @ ''>'' @ miNameID i @ ''</saml:NameID>''
      @ ''<saml:SubjectConfirmation Method='' @ quoted ''urn:oasis:names:tc:SAML:2.0:cm:bearer'' @ ''>''
      @ ''<saml:SubjectConfirmationData InResponseTo='' @ quoted (miInResponseTo i) @ '' NotOnOrAfter='' @ quoted (pl_fmt_utc P notAfter)
      @ '' Recipient='' @ quoted (miACSURL i) @ ''></saml:SubjectConfirmationData>''
      @ ''</saml:SubjectConfirmation>''
      @ ''</saml:Subject>''
      @ ''<saml:Conditions NotBefore='' @ quoted (pl_fmt_utc P (miNow i - minutes 1)) @ '' NotOnOrAfter='' @ quoted (pl_fmt_utc P notAfter) @ ''>''
      @ ''<saml:AudienceRestriction><saml:Audience>'' @ miSPEntityID i @ ''</saml:Audience></saml:AudienceRestriction>''
      @ ''</saml:Conditions>''
      @ ''<saml:AttributeStatement>''
      @ ''<saml:Attribute Name='' @ quoted ''Department'' @ ''><saml:AttributeValue>'' @ miDepartment i @ ''</saml:AttributeValue></saml:Attribute>''
      @ ''</saml:AttributeStatement>'')"

definition mint_open :: "splib \<Rightarrow> mint_inputs \<Rightarrow> string" where
  "mint_open P i =
     ''<saml:Assertion xmlns:saml='' @ quoted samlNS @ '' ID='' @ quoted (NewAuthnRequestID (miAssertionUUID i))
     @ '' Version='' @ quoted ''2.0'' @ '' IssueInstant='' @ quoted (pl_fmt_utc P (miNow i)) @ ''>''"

definition mint_response :: "splib \<Rightarrow> mint_inputs \<Rightarrow> string \<Rightarrow> string" where
  "mint_response P i signedAssertion =
     ''<samlp:Response xmlns:samlp='' @ quoted sampNS @ '' xmlns:saml='' @ quoted samlNS
     @ '' ID='' @ quoted (NewAuthnRequestID (miResponseUUID i)) @ '' Version='' @ quoted ''2.0''
     @ '' IssueInstant='' @ quoted (pl_fmt_utc P (miNow i)) @ '' Destination='' @ quoted (miACSURL i)
     @ ''><saml:Issuer>'' @ fake_issuer @ ''</saml:Issuer>'' @ signedAssertion @ ''</samlp:Response>''"

definition mint_page :: "string \<Rightarrow> string \<Rightarrow> string" where
  "mint_page acsURL respB64 =
     ''<!doctype html><html><body onload='' @ quoted ''document.forms[0].submit()'' @ ''>'' @ [CHR 0x0A]
     @ ''<form method='' @ quoted ''POST'' @ '' action='' @ quoted acsURL @ ''>'' @ [CHR 0x0A]
     @ ''<input type='' @ quoted ''hidden'' @ '' name='' @ quoted ''SAMLResponse'' @ '' value='' @ quoted respB64 @ ''>'' @ [CHR 0x0A]
     @ ''</form>'' @ [CHR 0x0A]
     @ ''<p>Submitting fake SAML response to '' @ acsURL @ '' ...</p>'' @ [CHR 0x0A]
     @ ''</body></html>''"

datatype mint_result = MintUsage | MintFailed | Minted string string
  \<comment> \<open>exit status 2, exit status 1, or the response and the page around it\<close>

definition runMint :: "samllib \<Rightarrow> splib \<Rightarrow> (string \<Rightarrow> string option) \<Rightarrow> mint_inputs \<Rightarrow> mint_result" where
  "runMint S P signer i =
     (if miSPEntityID i = [] \<or> miACSURL i = [] then MintUsage
      else case miCertDER i of
             None \<Rightarrow> MintFailed
           | Some certDER \<Rightarrow>
               (case BuildSignedElementXML S signer certDER (NewAuthnRequestID (miAssertionUUID i)) (mint_open P i) (mint_body P i)
                       ''</saml:Assertion>'' of
                  Inl e \<Rightarrow> MintFailed
                | Inr signedAssertion \<Rightarrow>
                    let response = mint_response P i signedAssertion
                    in Minted response (mint_page (miACSURL i) (std_encode response))))"

section \<open>The same as documents\<close>

abbreviation saml_open :: "string \<Rightarrow> (string \<times> string \<times> string) list \<Rightarrow> xtoken \<times> string" where
  "saml_open nm attrs \<equiv> open_tag ''saml'' samlNS nm attrs"

abbreviation saml_close :: "string \<Rightarrow> xtoken \<times> string" where
  "saml_close nm \<equiv> close_tag ''saml'' nm"

abbreviation cdata :: "string \<Rightarrow> xtoken \<times> string" where
  "cdata t \<equiv> (CharData t, t)"

definition mint_assertion_open :: "splib \<Rightarrow> mint_inputs \<Rightarrow> xtoken \<times> string" where
  "mint_assertion_open P i = saml_open ''Assertion'' [(''xmlns'', ''saml'', samlNS), ([], ''ID'', NewAuthnRequestID (miAssertionUUID i)),
     ([], ''Version'', ''2.0''), ([], ''IssueInstant'', pl_fmt_utc P (miNow i))]"

definition mint_body_segs :: "splib \<Rightarrow> mint_inputs \<Rightarrow> segments" where
  "mint_body_segs P i =
     [saml_open ''Issuer'' [], cdata fake_issuer, saml_close ''Issuer'',
      saml_open ''Subject'' [],
      saml_open ''NameID'' [([], ''Format'', ''urn:oasis:names:tc:SAML:1.1:nameid-format:emailAddress'')], cdata (miNameID i), saml_close ''NameID'',
      saml_open ''SubjectConfirmation'' [([], ''Method'', ''urn:oasis:names:tc:SAML:2.0:cm:bearer'')],
      saml_open ''SubjectConfirmationData'' [([], ''InResponseTo'', miInResponseTo i),
        ([], ''NotOnOrAfter'', pl_fmt_utc P (miNow i + minutes 10)), ([], ''Recipient'', miACSURL i)], saml_close ''SubjectConfirmationData'',
      saml_close ''SubjectConfirmation'', saml_close ''Subject'',
      saml_open ''Conditions'' [([], ''NotBefore'', pl_fmt_utc P (miNow i - minutes 1)), ([], ''NotOnOrAfter'', pl_fmt_utc P (miNow i + minutes 10))],
      saml_open ''AudienceRestriction'' [], saml_open ''Audience'' [], cdata (miSPEntityID i), saml_close ''Audience'',
      saml_close ''AudienceRestriction'', saml_close ''Conditions'',
      saml_open ''AttributeStatement'' [], saml_open ''Attribute'' [([], ''Name'', ''Department'')],
      saml_open ''AttributeValue'' [], cdata (miDepartment i), saml_close ''AttributeValue'', saml_close ''Attribute'',
      saml_close ''AttributeStatement'']"

definition mint_response_open :: "splib \<Rightarrow> mint_inputs \<Rightarrow> xtoken \<times> string" where
  "mint_response_open P i = open_tag ''samlp'' sampNS ''Response'' [(''xmlns'', ''samlp'', sampNS), (''xmlns'', ''saml'', samlNS),
     ([], ''ID'', NewAuthnRequestID (miResponseUUID i)), ([], ''Version'', ''2.0''), ([], ''IssueInstant'', pl_fmt_utc P (miNow i)),
     ([], ''Destination'', miACSURL i)]"

definition mint_before :: "splib \<Rightarrow> mint_inputs \<Rightarrow> segments" where
  "mint_before P i = [mint_response_open P i, saml_open ''Issuer'' [], cdata fake_issuer, saml_close ''Issuer'']"

definition mint_signed :: "splib \<Rightarrow> mint_inputs \<Rightarrow> segments \<Rightarrow> segments" where
  "mint_signed P i sg =
     mint_before P i @ element (mint_assertion_open P i) (sg @ mint_body_segs P i) (saml_close ''Assertion'') @ [close_tag ''samlp'' ''Response'']"

lemma mint_sources:
  "snd (mint_assertion_open P i) = mint_open P i" "source_of (mint_body_segs P i) = mint_body P i"
  "snd (saml_close ''Assertion'') = ''</saml:Assertion>''"
  by (simp_all add: mint_assertion_open_def mint_open_def mint_body_segs_def mint_body_def source_of_def open_tag_def close_tag_def
      quoted_def Let_def)

lemma mint_response_source:
  assumes "out = source_of (element (mint_assertion_open P i) (sg @ mint_body_segs P i) (saml_close ''Assertion''))"
  shows "mint_response P i out = source_of (mint_signed P i sg)"
  unfolding mint_signed_def assms source_of_append
  by (simp add: mint_response_def mint_before_def mint_response_open_def source_of_Cons open_tag_def close_tag_def quoted_def)

text \<open>The assertion declares the one prefix it uses.\<close>

definition mint_texts_ok :: "splib \<Rightarrow> mint_inputs \<Rightarrow> bool" where
  "mint_texts_ok P i \<longleftrightarrow> CHR 0x22 \<notin> set (miInResponseTo i) \<and> CHR 0x22 \<notin> set (miACSURL i) \<and> CHR 0x22 \<notin> set (miAssertionUUID i)
     \<and> (\<forall>t. CHR 0x22 \<notin> set (pl_fmt_utc P t))"

lemma saml_declared: "declares [((''xmlns'', ''saml''), samlNS), (([], ''ID''), x), (([], ''Version''), y), (([], ''IssueInstant''), z)] = {''saml''}"
  by (auto simp: declares_def declare_ns_def map_of_put split: if_splits)

lemma saml_plain_names:
  "list_all plain_name [''saml'', ''xmlns'', [], ''Assertion'', ''Issuer'', ''Subject'', ''NameID'', ''SubjectConfirmation'', ''SubjectConfirmationData'',
     ''Conditions'', ''AudienceRestriction'', ''Audience'', ''AttributeStatement'', ''Attribute'', ''AttributeValue'',
     ''ID'', ''Version'', ''IssueInstant'', ''Format'', ''Method'', ''InResponseTo'', ''NotOnOrAfter'', ''Recipient'', ''NotBefore'', ''Name'']"
  by code_simp

lemma closed_assertion:
  assumes "mint_texts_ok P i"
  shows "closed_element (mint_assertion_open P i) (mint_body_segs P i) (saml_close ''Assertion'')"
proof -
  have samlNS: "CHR 0x22 \<notin> set samlNS" by code_simp
  have uuid: "CHR 0x22 \<notin> set (NewAuthnRequestID (miAssertionUUID i))" using assms by (simp add: mint_texts_ok_def NewAuthnRequestID_def)
  note names = saml_plain_names [unfolded list.pred_inject]
  have tag: "uses_only {''saml''} [saml_open nm as]" if "tag_ok ''saml'' nm as" "\<forall>(p, k, v)\<in>set as. p = [] \<or> p = ''xmlns''" for nm as
    using that by (intro uses_only_open_tag) auto
  have "uses_only {''saml''} (mint_assertion_open P i # mint_body_segs P i)"
    unfolding mint_assertion_open_def mint_body_segs_def
    by (simp only: uses_only_Cons2, intro conjI uses_only_other tag)
      (use names samlNS uuid assms in \<open>simp_all add: tag_ok_def mint_texts_ok_def\<close>)
  moreover have "balanced 0 (map fst (mint_body_segs P i))" by (simp add: mint_body_segs_def open_tag_def close_tag_def)
  ultimately show ?thesis
    by (auto simp: closed_element_def mint_assertion_open_def open_tag_def close_tag_def saml_declared)
qed

section \<open>Searches in a minted assertion\<close>

abbreviation mint_doc :: "splib \<Rightarrow> mint_inputs \<Rightarrow> xmldoc" where
  "mint_doc P i \<equiv> doc_of (element (mint_assertion_open P i) (mint_body_segs P i) (saml_close ''Assertion''))"

lemmas mint_tokens = mint_assertion_open_def mint_body_segs_def element_def open_tag_def close_tag_def

lemma mint_index:
  "matchEnd (mint_doc P i) =
    [(0, 27), (20, 26), (21, 25), (22, 24), (13, 19), (14, 18), (15, 17), (4, 12), (8, 11), (9, 10), (5, 7), (1, 3)]"
  by (simp add: index_doc_sel mint_tokens)

lemma mint_searches:
  fixes P i
  defines "d \<equiv> mint_doc P i"
  shows "findDirectChild d (0, 27) samlNS ''Issuer'' = Some (1, 3)"
    and "findDirectChild d (0, 27) samlNS ''Subject'' = Some (4, 12)"
    and "findDirectChild d (0, 27) samlNS ''Conditions'' = Some (13, 19)"
    and "findDirectChild d (4, 12) samlNS ''NameID'' = Some (5, 7)"
    and "findDirectChild d (4, 12) samlNS ''SubjectConfirmation'' = Some (8, 11)"
    and "findDirectChild d (8, 11) samlNS ''SubjectConfirmationData'' = Some (9, 10)"
    and "findDirectChild d (13, 19) samlNS ''AudienceRestriction'' = Some (14, 18)"
    and "findAllDescendants d 14 18 samlNS ''Audience'' = [(15, 17)]"
    and "findAllDescendants d 0 27 samlNS ''AttributeStatement'' = [(20, 26)]"
    and "findAllDescendants d 20 26 samlNS ''Attribute'' = [(21, 25)]"
    and "findAllDescendants d 21 25 samlNS ''AttributeValue'' = [(22, 24)]"
proof -
  have "tokens d = map fst (element (mint_assertion_open P i) (mint_body_segs P i) (saml_close ''Assertion''))"
    by (simp add: d_def index_doc_sel)
  note toks = this [unfolded mint_tokens, simplified]
  note s = toks mint_index [of P i, folded d_def] findDirectChild_def findAllDescendants_def is_start_def se_name_def
    match_end_def numeral_eq_Suc Let_def
  show "findDirectChild d (0, 27) samlNS ''Issuer'' = Some (1, 3)" by (simp add: s)
  show "findDirectChild d (0, 27) samlNS ''Subject'' = Some (4, 12)" by (simp add: s)
  show "findDirectChild d (0, 27) samlNS ''Conditions'' = Some (13, 19)" by (simp add: s)
  show "findDirectChild d (4, 12) samlNS ''NameID'' = Some (5, 7)" by (simp add: s)
  show "findDirectChild d (4, 12) samlNS ''SubjectConfirmation'' = Some (8, 11)" by (simp add: s)
  show "findDirectChild d (8, 11) samlNS ''SubjectConfirmationData'' = Some (9, 10)" by (simp add: s)
  show "findDirectChild d (13, 19) samlNS ''AudienceRestriction'' = Some (14, 18)" by (simp add: s)
  show "findAllDescendants d 14 18 samlNS ''Audience'' = [(15, 17)]" by (simp add: s)
  show "findAllDescendants d 0 27 samlNS ''AttributeStatement'' = [(20, 26)]" by (simp add: s)
  show "findAllDescendants d 20 26 samlNS ''Attribute'' = [(21, 25)]" by (simp add: s)
  show "findAllDescendants d 21 25 samlNS ''AttributeValue'' = [(22, 24)]" by (simp add: s)
qed

lemma mint_contents:
  fixes P i
  defines "d \<equiv> mint_doc P i"
  shows "elementText d (1, 3) = fake_issuer" and "elementText d (5, 7) = miNameID i" and "elementText d (15, 17) = miSPEntityID i"
    and "elementText d (22, 24) = miDepartment i"
    and "se_attrs d 5 = [(([], ''Format''), ''urn:oasis:names:tc:SAML:1.1:nameid-format:emailAddress'')]"
    and "se_attrs d 9 = [(([], ''InResponseTo''), miInResponseTo i), (([], ''NotOnOrAfter''), pl_fmt_utc P (miNow i + minutes 10)),
      (([], ''Recipient''), miACSURL i)]"
    and "se_attrs d 13 = [(([], ''NotBefore''), pl_fmt_utc P (miNow i - minutes 1)), (([], ''NotOnOrAfter''), pl_fmt_utc P (miNow i + minutes 10))]"
    and "se_attrs d 21 = [(([], ''Name''), ''Department'')]"
proof -
  have "tokens d = map fst (element (mint_assertion_open P i) (mint_body_segs P i) (saml_close ''Assertion''))"
    by (simp add: d_def index_doc_sel)
  note toks = this [unfolded mint_tokens, simplified]
  show "elementText d (1, 3) = fake_issuer" "elementText d (5, 7) = miNameID i" "elementText d (15, 17) = miSPEntityID i"
    "elementText d (22, 24) = miDepartment i"
    by (simp_all add: toks elementText_def numeral_eq_Suc)
  show "se_attrs d 5 = [(([], ''Format''), ''urn:oasis:names:tc:SAML:1.1:nameid-format:emailAddress'')]"
    "se_attrs d 9 = [(([], ''InResponseTo''), miInResponseTo i), (([], ''NotOnOrAfter''), pl_fmt_utc P (miNow i + minutes 10)),
      (([], ''Recipient''), miACSURL i)]"
    "se_attrs d 13 = [(([], ''NotBefore''), pl_fmt_utc P (miNow i - minutes 1)), (([], ''NotOnOrAfter''), pl_fmt_utc P (miNow i + minutes 10))]"
    "se_attrs d 21 = [(([], ''Name''), ''Department'')]"
    by (simp_all add: toks se_attrs_def)
qed

section \<open>What the gateway makes of it\<close>

definition whole_second :: "instant \<Rightarrow> instant" where
  "whole_second t = seconds (t div seconds 1)"

definition clock_texts :: "samllib \<Rightarrow> splib \<Rightarrow> bool" where
  "clock_texts S P \<longleftrightarrow> (\<forall>t. parseSAMLTime S (pl_fmt_utc P t) = Some (whole_second t))"

definition minted_assertion :: "splib \<Rightarrow> mint_inputs \<Rightarrow> Assertion" where
  "minted_assertion P i =
     \<lparr>aAssertionID = NewAuthnRequestID (miAssertionUUID i), aNameID = TrimSpace (miNameID i),
      aNameIDFormat = ''urn:oasis:names:tc:SAML:1.1:nameid-format:emailAddress'', aIssuer = fake_issuer,
      aInResponseTo = miInResponseTo i, aAttributes = [(''Department'', [TrimSpace (miDepartment i)])],
      aNotBefore = Some (whole_second (miNow i - minutes 1)), aNotOnOrAfter = whole_second (miNow i + minutes 10)\<rparr>"

definition minted_verdict ::
    "splib \<Rightarrow> mint_inputs \<Rightarrow> string \<Rightarrow> string \<Rightarrow> string \<Rightarrow> instant \<Rightarrow> int \<Rightarrow> saml_error + Assertion" where
  "minted_verdict P i entity acsURL expectedRequestID now clockSkew =
     (if acsURL \<noteq> miACSURL i then Inl WrongDestination
      else if TrimSpace (miNameID i) = [] then Inl (Missing ''NameID'')
      else if now > whole_second (miNow i + minutes 10) + clockSkew then Inl ConfirmationExpired
      else if expectedRequestID \<noteq> [] \<and> expectedRequestID \<noteq> miInResponseTo i then Inl WrongRequest
      else if now + clockSkew < whole_second (miNow i - minutes 1) then Inl NotYetValid
      else if TrimSpace (miSPEntityID i) \<noteq> entity then Inl WrongAudience
      else Inr (minted_assertion P i))"

lemma signature_names:
  "\<forall>k < length (signature_segs rid dg sg cert). \<forall>nm as. fst (signature_segs rid dg sg cert ! k) = StartElement nm as \<longrightarrow> fst nm = dsNS"
proof -
  have "list_all (\<lambda>s. case fst s of StartElement nm as \<Rightarrow> fst nm = dsNS | _ \<Rightarrow> True) (signature_segs rid dg sg cert)"
    by (simp add: signature_tokens)
  then show ?thesis by (fastforce simp: list_all_length)
qed

lemma fake_issuer_trim: "TrimSpace fake_issuer = fake_issuer"
  by code_simp

lemma validate_minted:
  assumes "mint_texts_ok P i" and "clock_texts S P" and "sg = signature_segs rid dg sigb cert"
    and "d = doc_of (mint_signed P i sg)"
  shows "validate_assertion S \<lparr>vaDoc = d, vaAssertion = (4, 60), vaResponse = (0, 61)\<rparr> entity acsURL expectedRequestID now clockSkew
    = minted_verdict P i entity acsURL expectedRequestID now clockSkew"
proof -
  let ?L = "mint_doc P i"
  have ns: "samlNS \<noteq> dsNS" by code_simp
  have pre: "length (mint_before P i) = 4" by (simp add: mint_before_def)
  have len: "length sg = 29" by (simp add: assms(3) length_signature)
  have body: "length (mint_body_segs P i) = 26" by (simp add: mint_body_segs_def)
  have d: "d = doc_of (mint_before P i @ element (mint_assertion_open P i) (sg @ mint_body_segs P i) (saml_close ''Assertion'')
      @ [close_tag ''samlp'' ''Response''])" by (simp add: assms(4) mint_signed_def)
  have sg: "sg = element (ds_open ''Signature'' [(''xmlns'', ''ds'', dsNS)]) (signature_mid rid dg sigb cert) (ds_close ''Signature'')"
    "fst (ds_open ''Signature'' [(''xmlns'', ''ds'', dsNS)]) = StartElement (dsNS, ''Signature'') [((''xmlns'', ''ds''), dsNS)]"
    "fst (ds_close ''Signature'') = EndElement" "balanced 0 (map fst (signature_mid rid dg sigb cert))"
    by (simp_all add: assms(3) signature_tokens)
  have bal: "balanced 0 (map fst sg)" unfolding sg(1) by (rule balanced_element [OF sg(2-4)])
  note cl = closed_assertion [OF assms(1)]
  have P: "same_part ?L (raw_of 0 (element (mint_assertion_open P i) (mint_body_segs P i) (saml_close ''Assertion''))) d
      (raw_of 0 (mint_signed P i sg)) 33 1 27"
    using same_part_behind [OF cl bal, of "mint_before P i" "[close_tag ''samlp'' ''Response'']"] pre len body
    by (simp add: d mint_signed_def)
  have child: "findDirectChild d (4, 60) samlNS nm = map_option (\<lambda>(a, b). (a + 33, b + 33)) (findDirectChild ?L (0, 27) samlNS nm)" for nm
    using findDirectChild_behind [OF cl sg _ d, of samlNS nm] ns pre len body by simp
  have statements: "findAllDescendants d 4 60 samlNS nm = map (\<lambda>(a, b). (a + 33, b + 33)) (findAllDescendants ?L 0 27 samlNS nm)" for nm
    using findAllDescendants_behind [OF cl bal _ d, of nm samlNS] signature_names [of rid dg sigb cert] ns pre len body
    by (fastforce simp: assms(3) samlNS_def)
  have inner: "findDirectChild d (a + 33, b + 33) samlNS nm = map_option (\<lambda>(a, b). (a + 33, b + 33)) (findDirectChild ?L (a, b) samlNS nm)"
    "findAllDescendants d (a + 33) (b + 33) samlNS nm = map (\<lambda>(a, b). (a + 33, b + 33)) (findAllDescendants ?L a b samlNS nm)"
    "elementText d (a + 33, b + 33) = elementText ?L (a, b)" if "1 \<le> a" "b \<le> 27" for a b nm
    using findDirectChild_same [OF P that] findAllDescendants_same [OF P that] elementText_same [OF P that] by simp_all
  have atts: "se_attrs d (k + 33) = se_attrs ?L k" if "1 \<le> k" "k < 27" for k
    using same_part_tokens(3) [OF P that] .
  note L = mint_searches [of P i] mint_contents [of P i]
  have found: "findDirectChild d (4, 60) samlNS ''Issuer'' = Some (34, 36)" "findDirectChild d (4, 60) samlNS ''Subject'' = Some (37, 45)"
    "findDirectChild d (4, 60) samlNS ''Conditions'' = Some (46, 52)"
    "findAllDescendants d 4 60 samlNS ''AttributeStatement'' = [(53, 59)]"
    by (simp_all add: child statements L)
  have deeper: "findDirectChild d (37, 45) samlNS ''NameID'' = Some (38, 40)"
    "findDirectChild d (37, 45) samlNS ''SubjectConfirmation'' = Some (41, 44)"
    "findDirectChild d (41, 44) samlNS ''SubjectConfirmationData'' = Some (42, 43)"
    "findDirectChild d (46, 52) samlNS ''AudienceRestriction'' = Some (47, 51)"
    "findAllDescendants d 47 51 samlNS ''Audience'' = [(48, 50)]"
    "findAllDescendants d 53 59 samlNS ''Attribute'' = [(54, 58)]"
    "findAllDescendants d 54 58 samlNS ''AttributeValue'' = [(55, 57)]"
    using inner(1) [of 4 12 "''NameID''"] inner(1) [of 4 12 "''SubjectConfirmation''"] inner(1) [of 8 11 "''SubjectConfirmationData''"]
      inner(1) [of 13 19 "''AudienceRestriction''"] inner(2) [of 14 18 "''Audience''"] inner(2) [of 20 26 "''Attribute''"]
      inner(2) [of 21 25 "''AttributeValue''"] by (simp_all add: L)
  have texts: "elementText d (34, 36) = fake_issuer" "elementText d (38, 40) = miNameID i" "elementText d (48, 50) = miSPEntityID i"
    "elementText d (55, 57) = miDepartment i"
    using inner(3) [of 1 3] inner(3) [of 5 7] inner(3) [of 15 17] inner(3) [of 22 24] mint_contents(1-4) [of P i] by simp_all
  have attrs: "se_attrs d 38 = [(([], ''Format''), ''urn:oasis:names:tc:SAML:1.1:nameid-format:emailAddress'')]"
    "se_attrs d 42 = [(([], ''InResponseTo''), miInResponseTo i), (([], ''NotOnOrAfter''), pl_fmt_utc P (miNow i + minutes 10)),
      (([], ''Recipient''), miACSURL i)]"
    "se_attrs d 46 = [(([], ''NotBefore''), pl_fmt_utc P (miNow i - minutes 1)), (([], ''NotOnOrAfter''), pl_fmt_utc P (miNow i + minutes 10))]"
    "se_attrs d 54 = [(([], ''Name''), ''Department'')]"
    using atts [of 5] atts [of 9] atts [of 13] atts [of 21] by (simp_all add: L)
  have outer: "attr_value (se_attrs d 0) ''Destination'' = Some (miACSURL i)"
    "attr_or_empty (se_attrs d 4) ''ID'' = NewAuthnRequestID (miAssertionUUID i)"
    by (simp_all add: d se_attrs_def index_doc_sel element_def mint_before_def mint_response_open_def mint_assertion_open_def open_tag_def
        attr_value_def attr_or_empty_def)
  have times: "parseSAMLTime S (pl_fmt_utc P t) = Some (whole_second t)" for t
    using assms(2) by (simp add: clock_texts_def)
  have a38: "attr_or_empty (se_attrs d 38) ''Format'' = ''urn:oasis:names:tc:SAML:1.1:nameid-format:emailAddress''"
    by (simp add: attrs attr_value_def attr_or_empty_def)
  have a42: "attr_value (se_attrs d 42) ''Recipient'' = Some (miACSURL i)" "attr_or_empty (se_attrs d 42) ''InResponseTo'' = miInResponseTo i"
    "check_confirmation S (se_attrs d 42) now clockSkew
      = (if now > whole_second (miNow i + minutes 10) + clockSkew then Inl ConfirmationExpired else Inr ())"
    by (simp_all add: attrs attr_value_def attr_or_empty_def check_confirmation_def times require_def ensure_def)
  have a46: "check_not_before S (se_attrs d 46) now clockSkew = (if now + clockSkew < whole_second (miNow i - minutes 1) then Inl NotYetValid
      else Inr (Some (whole_second (miNow i - minutes 1))))"
    "check_not_after S (se_attrs d 46) now clockSkew = (if now > whole_second (miNow i + minutes 10) + clockSkew then Inl AssertionExpired
      else Inr (whole_second (miNow i + minutes 10)))"
    by (simp_all add: attrs attr_value_def check_not_before_def check_not_after_def times require_def ensure_def)
  have aud: "checkAudience d (46, 52) entity = (if TrimSpace (miSPEntityID i) = entity then Inr () else Inl WrongAudience)"
    by (simp add: checkAudience_def deeper require_def ensure_def text_of_def texts)
  have read: "read_attributes d (4, 60) = [(''Department'', [TrimSpace (miDepartment i)])]"
    by (simp add: read_attributes_def found deeper attribute_of_def attrs attr_or_empty_def attr_value_def append_values_def text_of_def texts Let_def)
  show ?thesis
    by (simp add: validate_assertion_def minted_verdict_def minted_assertion_def outer found deeper findSubjectConfirmationData_def a42 a46 aud read
        text_of_def texts a38 fake_issuer_trim require_def ensure_def andthen_def Let_def)
qed

text \<open>The decoder reads what is signed, the SignedInfo and the response minted from them.\<close>

definition reads_minting :: "samllib \<Rightarrow> splib \<Rightarrow> (string \<Rightarrow> string option) \<Rightarrow> mint_inputs \<Rightarrow> bool" where
  "reads_minting S P signer i \<longleftrightarrow>
     reads_signing S (mint_assertion_open P i) (mint_body_segs P i) (saml_close ''Assertion'') (NewAuthnRequestID (miAssertionUUID i))
     \<and> (\<forall>target csi sigb certDER.
          canonicalize (mint_doc P i) (raw_of 0 (element (mint_assertion_open P i) (mint_body_segs P i) (saml_close ''Assertion''))) (0, 27) []
            = Some target
          \<longrightarrow> (let si = signed_info_segs (NewAuthnRequestID (miAssertionUUID i)) (std_encode (sl_sha256 S target)) in
                canonicalize (doc_of si) (raw_of 0 si) (0, 16) [] = Some csi)
          \<longrightarrow> signer (sl_sha256 S csi) = Some sigb \<longrightarrow> miCertDER i = Some certDER
          \<longrightarrow> reads (sl_xml S) (mint_signed P i (signature_segs (NewAuthnRequestID (miAssertionUUID i))
                (std_encode (sl_sha256 S target)) (std_encode sigb) (std_encode certDER))))"

lemma search_past_end:
  "fin \<le> i \<Longrightarrow> all_descendants_loop n d i fin space local = []"
  "fin \<le> i \<Longrightarrow> direct_child_loop n d i fin space local = None"
  by (cases n; simp)+

lemma minted_layout:
  assumes "length sg = 29" and "balanced 0 (map fst sg)" and "d = doc_of (mint_signed P i sg)"
  shows "rootRange d = Some (0, 61)" and "se_name d 0 = (sampNS, ''Response'')"
    and "findAllDescendants d 0 61 samlNS ''Assertion'' = [(4, 60)]" and "findDirectChild d (0, 61) dsNS ''Signature'' = None"
proof -
  have names: "samlNS \<noteq> dsNS" by code_simp
  let ?a = "element (mint_assertion_open P i) (sg @ mint_body_segs P i) (saml_close ''Assertion'')"
  let ?close = "close_tag ''samlp'' ''Response''"
  have body: "length (mint_body_segs P i) = 26" "balanced 0 (map fst (mint_body_segs P i))"
    by (simp_all add: mint_body_segs_def open_tag_def close_tag_def)
  have mid: "balanced 0 (map fst (sg @ mint_body_segs P i))"
    using balanced_append [OF assms(2), of 0] body(2) by simp
  have op: "fst (mint_assertion_open P i) = StartElement (samlNS, ''Assertion'') [((''xmlns'', ''saml''), samlNS),
      (([], ''ID''), NewAuthnRequestID (miAssertionUUID i)), (([], ''Version''), ''2.0''), (([], ''IssueInstant''), pl_fmt_utc P (miNow i))]"
    "fst (saml_close ''Assertion'') = EndElement"
    by (simp_all add: mint_assertion_open_def open_tag_def close_tag_def)
  have bal: "balanced 0 (map fst ?a)" by (rule balanced_element [OF op mid])
  let ?iss = "[saml_open ''Issuer'' [], cdata fake_issuer, saml_close ''Issuer'']"
  have iss: "balanced 0 (map fst ?iss)" by (simp add: open_tag_def close_tag_def)
  obtain nm attrs where rop: "fst (mint_response_open P i) = StartElement nm attrs" "nm = (sampNS, ''Response'')"
    by (simp add: mint_response_open_def open_tag_def)
  have d: "d = index_doc ([] @ (StartElement nm attrs # map fst (?iss @ ?a) @ [EndElement]) @ [])"
    by (simp add: assms(3) mint_signed_def mint_before_def rop close_tag_def)
  have rbal: "balanced 0 (map fst (?iss @ ?a))" using balanced_append [OF iss, of 0] bal by simp
  have len: "length (map fst (?iss @ ?a)) = 60" by (simp add: range_element assms(1) body)
  have end0: "map_of (matchEnd d) 0 = Some 61" using match_end_element [OF rbal, of "[]" nm attrs "[]"] len by (simp add: d)
  have tok0: "tokens d ! 0 = StartElement nm attrs" "0 < length (tokens d)" by (simp_all add: d index_doc_sel)
  then show "se_name d 0 = (sampNS, ''Response'')" by (simp add: se_name_def rop)
  show "rootRange d = Some (0, 61)"
    using tok0 end0 by (simp add: rootRange_def upt_conv_Cons is_start_def match_end_def del: upt_Suc)
  have tok: "tokens d ! 1 = StartElement (samlNS, ''Issuer'') []" "tokens d ! 2 = CharData fake_issuer" "tokens d ! 3 = EndElement"
    "tokens d ! 4 = fst (mint_assertion_open P i)"
    by (simp_all add: d index_doc_sel open_tag_def close_tag_def element_def)
  have e1: "match_end d 1 = 3"
    using match_end_element [of "[CharData fake_issuer]" "[StartElement nm attrs]" "(samlNS, ''Issuer'')" "[]" "map fst ?a @ [EndElement]"]
    by (simp add: match_end_def d open_tag_def close_tag_def)
  have e4: "match_end d 4 = 60"
  proof -
    let ?A = "StartElement nm attrs # map fst ?iss"
    have four: "length ?A = 4" by simp
    note m = match_end_element [OF mid, of ?A "(samlNS, ''Assertion'')" "[((''xmlns'', ''saml''), samlNS), (([], ''ID''), NewAuthnRequestID (miAssertionUUID i)),
      (([], ''Version''), ''2.0''), (([], ''IssueInstant''), pl_fmt_utc P (miNow i))]" "[EndElement]", unfolded four]
    show ?thesis using m assms(1) body(1) op by (simp add: match_end_def d element_def)
  qed
  have starts: "is_start d 1" "\<not> is_start d 2" "\<not> is_start d 3" "is_start d 4" "se_name d 1 = (samlNS, ''Issuer'')" "se_name d 4 = (samlNS, ''Assertion'')"
    by (simp_all only: is_start_def se_name_def tok op xtoken.case not_False_eq_True)
  have "all_descendants_loop (3 + 58) d 1 61 samlNS ''Assertion'' = all_descendants_loop 58 d (1 + 3) 61 samlNS ''Assertion''"
  proof (rule all_descendants_skip)
    fix k assume k: "1 \<le> k" "k < 1 + (3 :: nat)" "is_start d k"
    then have "k = 1 \<or> k = 2 \<or> k = 3" by arith
    then have "k = 1" using k(3) starts(2,3) by (elim disjE) simp_all
    then show "\<not> (snd (se_name d k) = ''Assertion'' \<and> (samlNS = [] \<or> fst (se_name d k) = samlNS))" by (simp only: starts) simp
  qed simp
  moreover have "all_descendants_loop (Suc 57) d 4 61 samlNS ''Assertion'' = [(4, 60)]"
  proof -
    have "all_descendants_loop 57 d (60 + 1) 61 samlNS ''Assertion'' = []" by (rule search_past_end) simp
    moreover have "(61 \<le> (4 :: nat)) = False" by simp
    ultimately show ?thesis by (simp only: all_descendants_loop.simps(2) starts e4 Let_def if_False if_True not_True_eq_False snd_conv fst_conv simp_thms)
  qed
  ultimately show "findAllDescendants d 0 61 samlNS ''Assertion'' = [(4, 60)]" by (simp add: findAllDescendants_def)
  have "direct_child_loop (Suc 60) d 1 61 dsNS ''Signature'' = direct_child_loop 60 d (3 + 1) 61 dsNS ''Signature''"
    using direct_child_skip [of 1 61 d "''Signature''" dsNS 60] starts e1 by simp
  also have "\<dots> = direct_child_loop 59 d (60 + 1) 61 dsNS ''Signature''"
    using direct_child_skip [of 4 61 d "''Signature''" dsNS 59] starts e4 by simp
  also have "\<dots> = None" by (rule search_past_end) simp
  finally show "findDirectChild d (0, 61) dsNS ''Signature'' = None" by (simp add: findDirectChild_def)
qed

lemma minted_verifies_raw:
  assumes "mint_texts_ok P i" and "clock_texts S P" and "reads_minting S P signer i"
    and "\<forall>d sig. signer d = Some sig \<longrightarrow> sl_rsa_verify S pub d sig" and "runMint S P signer i = Minted response page"
  shows "ParseAndVerifyResponse S response (RSACert pub) entity acsURL expectedRequestID now clockSkew
      = minted_verdict P i entity acsURL expectedRequestID now clockSkew
    \<and> page = mint_page (miACSURL i) (std_encode response) \<and> response \<noteq> []"
proof -
  let ?rid = "NewAuthnRequestID (miAssertionUUID i)" and ?op = "mint_assertion_open P i" and ?body = "mint_body_segs P i" and ?cl = "saml_close ''Assertion''"
  obtain certDER out where c: "miCertDER i = Some certDER"
    and b: "BuildSignedElementXML S signer certDER ?rid (mint_open P i) (mint_body P i) ''</saml:Assertion>'' = Inr out"
    and r: "response = mint_response P i out" and page: "page = mint_page (miACSURL i) (std_encode response)"
    using assms(5) by (auto simp: runMint_def Let_def split: if_splits option.splits sum.splits)
  have rid: "CHR 0x22 \<notin> set ?rid" "?rid \<noteq> []" using assms(1) by (simp_all add: mint_texts_ok_def NewAuthnRequestID_def)
  have rs: "reads_signing S ?op ?body ?cl ?rid" using assms(3) by (simp add: reads_minting_def)
  have len: "length ?body + 1 = 27" by (simp add: mint_body_segs_def)
  note cl = closed_assertion [OF assms(1)]
  obtain target csi sigb where t: "canonicalize (doc_of (element ?op ?body ?cl)) (raw_of 0 (element ?op ?body ?cl)) (0, length ?body + 1) [] = Some target"
    and si: "let si = signed_info_segs ?rid (std_encode (sl_sha256 S target)) in canonicalize (doc_of si) (raw_of 0 si) (0, 16) [] = Some csi"
    and sig: "signer (sl_sha256 S csi) = Some sigb"
    and out: "out = source_of (element ?op (signature_segs ?rid (std_encode (sl_sha256 S target)) (std_encode sigb) (std_encode certDER) @ ?body) ?cl)"
    using BuildSigned_Inr [OF cl rid(1) rs b [folded mint_sources(1) [of P i], folded mint_sources(2) [of P i], folded mint_sources(3)]]
    by blast
  let ?sg = "signature_segs ?rid (std_encode (sl_sha256 S target)) (std_encode sigb) (std_encode certDER)"
  let ?d = "doc_of (mint_signed P i ?sg)" and ?raw = "raw_of 0 (mint_signed P i ?sg)"
  have response: "response = source_of (mint_signed P i ?sg)" unfolding r by (rule mint_response_source [OF out])
  have reads: "reads (sl_xml S) (mint_signed P i ?sg)"
    using assms(3) t si sig c unfolding len reads_minting_def by blast
  have bal: "balanced 0 (map fst ?sg)" by (simp add: signature_tokens)
  have "fst ?op = StartElement (samlNS, ''Assertion'') [((''xmlns'', ''saml''), samlNS), (([], ''ID''), ?rid), (([], ''Version''), ''2.0''),
      (([], ''IssueInstant''), pl_fmt_utc P (miNow i))]" by (simp add: mint_assertion_open_def open_tag_def)
  note op = this
  have "attr_or_empty [((''xmlns'', ''saml''), samlNS), (([], ''ID''), ?rid), (([], ''Version''), ''2.0''),
      (([], ''IssueInstant''), pl_fmt_utc P (miNow i))] ''ID'' = ?rid" by (simp add: attr_or_empty_def attr_value_def)
  note v = signature_verifies [OF cl op this rid(2,1) refl t refl si [unfolded Let_def] assms(4) [rule_format, OF sig] refl refl,
      of "mint_before P i" "std_encode certDER" "[close_tag ''samlp'' ''Response'']", folded mint_signed_def]
  have pos: "length (mint_before P i) = 4" "length ?sg = 29" "length ?body = 26"
    by (simp_all add: mint_before_def length_signature mint_body_segs_def)
  have "findDirectChild ?d (4, 60) dsNS ''Signature'' = Some (5, 33)"
    "verifyEnvelopedSignature S ?d ?raw (4, 60) (5, 33) (RSACert pub) = Inr ()"
    using v by (simp_all add: pos)
  then have "verify_document S ?d ?raw (RSACert pub) = Inr \<lparr>vaDoc = ?d, vaAssertion = (4, 60), vaResponse = (0, 61)\<rparr>"
    using minted_layout [OF length_signature bal refl, of P i]
    by (simp add: verify_document_def require_def ensure_def verify_if_signed_def andthen_def)
  then have "VerifySAMLResponseSignature S response (RSACert pub) = Inr \<lparr>vaDoc = ?d, vaAssertion = (4, 60), vaResponse = (0, 61)\<rparr>"
    using parseXMLDoc_reads [OF reads] captureRawTags_reads [OF reads] by (simp add: VerifySAMLResponseSignature_def response require_def)
  then have "ParseAndVerifyResponse S response (RSACert pub) entity acsURL expectedRequestID now clockSkew
      = minted_verdict P i entity acsURL expectedRequestID now clockSkew"
    using validate_minted [OF assms(1,2) refl refl] by (simp add: ParseAndVerifyResponse_def andthen_def)
  then show ?thesis using page by (simp add: r mint_response_def)
qed

text \<open>
  C14: What the gateway makes of a minted response.  For whatever entity, consumer service, request and time it is
  checked against, the response that runMint prints is refused for the first of these reasons that applies, in this
  order: another destination, an empty subject, the confirmation has expired, another request, it is not yet valid,
  another audience; and otherwise it is accepted with exactly the data it was minted with, valid from a minute before
  to ten minutes after the second it was minted in.
\<close>

theorem minted_response_verdict:
  assumes "mint_texts_ok P i" and "clock_texts S P" and "reads_minting S P signer i"
    and "\<forall>d sig. signer d = Some sig \<longrightarrow> sl_rsa_verify S pub d sig" and "runMint S P signer i = Minted response page"
  shows "ParseAndVerifyResponse S response (RSACert pub) entity acsURL expectedRequestID now clockSkew =
     (if acsURL \<noteq> miACSURL i then Inl WrongDestination
      else if TrimSpace (miNameID i) = [] then Inl (Missing ''NameID'')
      else if now > whole_second (miNow i + minutes 10) + clockSkew then Inl ConfirmationExpired
      else if expectedRequestID \<noteq> [] \<and> expectedRequestID \<noteq> miInResponseTo i then Inl WrongRequest
      else if now + clockSkew < whole_second (miNow i - minutes 1) then Inl NotYetValid
      else if TrimSpace (miSPEntityID i) \<noteq> entity then Inl WrongAudience
      else Inr \<lparr>aAssertionID = NewAuthnRequestID (miAssertionUUID i), aNameID = TrimSpace (miNameID i),
             aNameIDFormat = ''urn:oasis:names:tc:SAML:1.1:nameid-format:emailAddress'', aIssuer = fake_issuer,
             aInResponseTo = miInResponseTo i, aAttributes = [(''Department'', [TrimSpace (miDepartment i)])],
             aNotBefore = Some (whole_second (miNow i - minutes 1)), aNotOnOrAfter = whole_second (miNow i + minutes 10)\<rparr>)"
  using minted_verifies_raw [OF assms] by (simp add: minted_verdict_def minted_assertion_def)

text \<open>
  C17: A login against the development identity provider comes to its end.  After \<open>/login\<close> has redirected the
  browser at a tenant whose cached provider has the key of runMint, the response it mints for the tenant's entity and
  consumer service and for that request, posted with the value of the form field within ten minutes and within the
  validity of the assertion, logs the browser in as the minted subject and goes on to the \<open>returnTo\<close> of the login.
\<close>

theorem fakeidp_login_completes:
  assumes "mint_texts_ok P i" and "clock_texts S P" and "reads_minting S P signer i"
    and "\<forall>d sig. signer d = Some sig \<longrightarrow> sl_rsa_verify S pub d sig" and "runMint S P signer i = Minted response page"
    and "store_inv st" and "saml_login S P s st uuid now1 now2 t returnTo = (RedirectTo url, s1, st1)"
    and "map_of (ssSPs s1) t = Some sp" and "map_of (ssIdPCache s1) t = Some idp" and "idpSigningCertificates idp = [RSACert pub]"
    and "miACSURL i = spACSURL sp" and "TrimSpace (miSPEntityID i) = spEntityID sp" and "miInResponseTo i = NewAuthnRequestID uuid"
    and "TrimSpace (miNameID i) \<noteq> []" and "inTenant c = t" and "inForm c = Some (std_encode response)"
    and "inVerify c 0 \<le> whole_second (miNow i + minutes 10) + minutes 2" and "whole_second (miNow i - minutes 1) \<le> inVerify c 0 + minutes 2"
    and "inTake c \<le> now2 + minutes 10"
    and "\<forall>r\<in>set (used_saml_assertions st). \<not> (ua_tenant_id r = t \<and> ua_assertion_id r = NewAuthnRequestID (miAssertionUUID i))"
    and "\<forall>r\<in>set (users st). ur_id r \<noteq> inUUID c" and "inRandom c = Some rid" and "\<forall>r\<in>set (sessions st). sID r \<noteq> rid"
  shows "\<exists>sess ck st2. acs S P s1 st1 c = (AcsLoggedIn sess ck returnTo, s1, st2) \<and> sSubject sess = TrimSpace (miNameID i)"
proof -
  note m = minted_verifies_raw [OF assms(1-5)]
  have "ParseAndVerifyResponse S response (RSACert pub) (spEntityID sp) (spACSURL sp) [] (inVerify c 0) (minutes 2) = Inr (minted_assertion P i)"
    using m assms(11,12,14,17,18) by (simp add: minted_verdict_def)
  then have "try_certs S response sp (inVerify c) 0 (idpSigningCertificates idp) = Some (minted_assertion P i)"
    by (simp add: assms(10))
  moreover have "std_encode response \<noteq> []"
    using m std_decode_encode [of response] std_decode_encode [of "[]"] by (auto simp: std_encode_def)
  moreover have "aInResponseTo (minted_assertion P i) = NewAuthnRequestID uuid" "aAssertionID (minted_assertion P i) \<noteq> []"
    by (simp_all add: minted_assertion_def assms(13) NewAuthnRequestID_def)
  moreover have "aAssertionID (minted_assertion P i) = NewAuthnRequestID (miAssertionUUID i)" "aNameID (minted_assertion P i) = TrimSpace (miNameID i)"
    by (simp_all add: minted_assertion_def)
  moreover have "decodeBase64Lenient (std_encode response) = Some response" by (simp add: decodeBase64Lenient_def)
  ultimately show ?thesis
    using verified_response_completes [OF assms(6-9,15,16) _ _ _ _ assms(19) _ _ assms(21-23), of response "minted_assertion P i"] assms(20) by auto
qed

section \<open>The metadata read back\<close>

definition blank :: "nat \<Rightarrow> xtoken \<times> string" where
  "blank n = cdata (CHR 0x0A # replicate n CHR '' '')"

definition metadata_segs :: "string \<Rightarrow> string \<Rightarrow> string \<Rightarrow> segments" where
  "metadata_segs entityID certB64 ssoURL =
     [(OtherToken, ''<?xml version='' @ quoted ''1.0'' @ ''?>''), blank 0,
      open_tag ''md'' mdNS ''EntityDescriptor'' [(''xmlns'', ''md'', mdNS), (''xmlns'', ''ds'', dsNS), ([], ''entityID'', entityID)], blank 2,
      open_tag ''md'' mdNS ''IDPSSODescriptor'' [([], ''protocolSupportEnumeration'', sampNS)], blank 4,
      open_tag ''md'' mdNS ''KeyDescriptor'' [([], ''use'', ''signing'')], blank 6,
      ds_open ''KeyInfo'' [], ds_open ''X509Data'' [], ds_open ''X509Certificate'' [], cdata certB64, ds_close ''X509Certificate'',
      ds_close ''X509Data'', ds_close ''KeyInfo'', blank 4, close_tag ''md'' ''KeyDescriptor'', blank 4,
      open_tag ''md'' mdNS ''SingleSignOnService'' [([], ''Binding'', ''urn:oasis:names:tc:SAML:2.0:bindings:HTTP-Redirect''),
        ([], ''Location'', ssoURL)], close_tag ''md'' ''SingleSignOnService'', blank 2,
      close_tag ''md'' ''IDPSSODescriptor'', blank 0, close_tag ''md'' ''EntityDescriptor'', blank 0]"

lemma metadata_source: "source_of (metadata_segs entityID certB64 ssoURL) = fakeidp_metadata entityID certB64 ssoURL"
  by (simp add: metadata_segs_def fakeidp_metadata_def source_of_def open_tag_def close_tag_def quoted_def blank_def numeral_eq_Suc)

lemma metadata_read_back:
  assumes "reads (sl_xml S) (metadata_segs entityID (std_encode der) ssoURL)"
    and "sl_parse_cert S der = Some cert" and "entityID \<noteq> []" and "ssoURL \<noteq> []"
  shows "ParseIdPMetadata S (fakeidp_metadata entityID (std_encode der) ssoURL) =
    Inr \<lparr>idpEntityID = entityID, idpSSORedirectURL = ssoURL, idpSSOPostURL = [], idpSigningCertificates = [cert]\<rparr>"
proof -
  define d where "d = doc_of (metadata_segs entityID (std_encode der) ssoURL)"
  have "tokens d = map fst (metadata_segs entityID (std_encode der) ssoURL)" by (simp add: d_def index_doc_sel)
  note toks = this [unfolded metadata_segs_def open_tag_def close_tag_def blank_def, simplified]
  have ends: "matchEnd d = [(2, 23), (4, 21), (18, 19), (6, 16), (8, 14), (9, 13), (10, 12)]"
    by (simp add: d_def index_doc_sel metadata_segs_def open_tag_def close_tag_def blank_def)
  note s = toks ends is_start_def se_name_def se_attrs_def match_end_def numeral_eq_Suc Let_def
  have root: "rootRange d = Some (2, 23)" by (simp add: rootRange_def s)
  have idp: "findDirectChild d (2, 23) mdNS ''IDPSSODescriptor'' = Some (4, 21)" by (simp add: findDirectChild_def s)
  have found: "findAllDescendants d 4 21 mdNS ''SingleSignOnService'' = [(18, 19)]" "findAllDescendants d 4 21 mdNS ''KeyDescriptor'' = [(6, 16)]"
    by (simp_all add: findAllDescendants_def s)
  have cert: "findAllDescendants d 6 16 dsNS ''X509Certificate'' = [(10, 12)]" by (simp add: findAllDescendants_def s)
  have certText: "elementText d (10, 12) = std_encode der" by (simp add: elementText_def s)
  have atts: "se_name d 2 = (mdNS, ''EntityDescriptor'')" "attr_or_empty (se_attrs d 2) ''entityID'' = entityID"
    "attr_or_empty (se_attrs d 18) ''Binding'' = ''urn:oasis:names:tc:SAML:2.0:bindings:HTTP-Redirect''"
    "attr_or_empty (se_attrs d 18) ''Location'' = ssoURL" "attr_value (se_attrs d 6) ''use'' = Some ''signing''"
    by (simp_all add: attr_or_empty_def attr_value_def s)
  have "parseXMLDoc (sl_xml S) (fakeidp_metadata entityID (std_encode der) ssoURL) = Some d"
    using parseXMLDoc_reads [OF assms(1)] by (simp add: metadata_source d_def)
  then show ?thesis
    by (simp add: ParseIdPMetadata_def root idp found cert certText atts signing_certs_def sso_step_def
        assms(2-4) require_def ensure_def Let_def)
qed

text \<open>
  The metadata file of the development provider is what the gateway expects.  Read back by ParseIdPMetadata it
  gives the entity, the redirect address and, as the only signing certificate, the one that was written.
\<close>

theorem fakeidp_metadata_parses:
  assumes "reads (sl_xml S) (metadata_segs entityID (std_encode der) ssoURL)"
    and "sl_parse_cert S der = Some cert" and "entityID \<noteq> []" and "ssoURL \<noteq> []"
  shows "ParseIdPMetadata S (fakeidp_metadata entityID (std_encode der) ssoURL) =
    Inr \<lparr>idpEntityID = entityID, idpSSORedirectURL = ssoURL, idpSSOPostURL = [], idpSigningCertificates = [cert]\<rparr>"
  using assms by (rule metadata_read_back)

end
