(* ===== verification/IdpFiles.thy ===== *)
theory IdpFiles
  imports Keys FakeIdp
begin

text \<open>
  The commands of the development identity provider on the file system: \<open>runInit\<close> and the file side of
  \<open>runMint\<close> in \<open>cmd/fakeidp/main.go\<close>, and \<open>ensureFakeIDP\<close> in \<open>main.go\<close>.  A directory that cannot be made stops
  the program.  The properties: what one command writes is what the gateway and the other command read.
\<close>

section \<open>Commands\<close>

datatype init_result =
    InitDone | InitGenerate | InitCertificate | InitMkdir string | InitWrite string
  \<comment> \<open>the exit status is 1 in all cases but the first\<close>

definition idp_template :: "keylib \<Rightarrow> key_inputs \<Rightarrow> cert_template" where
  "idp_template K i =
     \<lparr>ctSerial = kiSerial i, ctCommonName = ''fake-idp.example.com'', ctNotBefore = kiBefore i - hours 1,
      ctNotAfter = kl_add_years K (kiAfter i) 5, ctDigitalSignature = False, ctBasicConstraintsValid = False\<rparr>"

definition runInit ::
    "keylib \<Rightarrow> files \<Rightarrow> key_inputs \<Rightarrow> string \<Rightarrow> string \<Rightarrow> string \<Rightarrow> string \<Rightarrow> init_result \<times> files" where
  "runInit K fs i entityID ssoURL out keyOut =
     (case kiGenerated i of
        None \<Rightarrow> (InitGenerate, fs)
      | Some priv \<Rightarrow>
          (case kl_create_cert K (idp_template K i) priv of
             None \<Rightarrow> (InitCertificate, fs)
           | Some der \<Rightarrow>
               if \<not> kiMkdir i (dirOf keyOut) then (InitMkdir (dirOf keyOut), fs)
               else
                 (case WriteFile (kiWrite i) fs keyOut (kl_pem_encode K ''RSA PRIVATE KEY'' (kl_marshal_pkcs1 K priv)) of
                    (False, fs1) \<Rightarrow> (InitWrite keyOut, fs1)
                  | (True, fs1) \<Rightarrow>
                      let metadata = fakeidp_metadata entityID (std_encode der) ssoURL
                      in if \<not> kiMkdir i (dirOf out) then (InitMkdir (dirOf out), fs1)
                         else (case WriteFile (kiWrite i) fs1 out metadata of
                                 (False, fs2) \<Rightarrow> (InitWrite out, fs2)
                               | (True, fs2) \<Rightarrow> (InitDone, fs2)))))"

text \<open>\<open>ensureFakeIDP\<close> does nothing when the metadata file is there; \<open>stat\<close> tells whether \<open>os.Stat\<close> finds a path.\<close>

definition ensureFakeIDP ::
    "keylib \<Rightarrow> (files \<Rightarrow> string \<Rightarrow> bool) \<Rightarrow> files \<Rightarrow> key_inputs \<Rightarrow> string \<Rightarrow> string \<Rightarrow> string \<Rightarrow> string \<Rightarrow> init_result \<times> files" where
  "ensureFakeIDP K stat fs i entityID ssoURL out keyOut =
     (if stat fs out then (InitDone, fs) else runInit K fs i entityID ssoURL out keyOut)"

definition file_exists :: "files \<Rightarrow> string \<Rightarrow> bool" where
  "file_exists fs p \<longleftrightarrow> map_of fs p \<noteq> None"

text \<open>
  The whole of \<open>runMint\<close>: the key file, a new certificate for the key, the response, and the page on the standard
  output or in a file.
\<close>

definition mint_command ::
    "keylib \<Rightarrow> samllib \<Rightarrow> splib \<Rightarrow> files \<Rightarrow> key_inputs \<Rightarrow> string \<Rightarrow> mint_inputs \<Rightarrow> string \<Rightarrow> mint_result \<times> files" where
  "mint_command K S P fs j keyPath i out =
     (if miSPEntityID i = [] \<or> miACSURL i = [] then (MintUsage, fs)
      else case ReadFile (kiReadable j) fs keyPath of
             None \<Rightarrow> (MintFailed, fs)
           | Some keyPEM \<Rightarrow>
               (case kl_pem_decode K keyPEM of
                  None \<Rightarrow> (MintFailed, fs)
                | Some block \<Rightarrow>
                    (case kl_pkcs1 K block of
                       None \<Rightarrow> (MintFailed, fs)
                     | Some priv \<Rightarrow>
                         (case runMint S P (pl_rsa_sign P priv) (i\<lparr>miCertDER := kl_create_cert K (idp_template K j) priv\<rparr>) of
                            Minted response page \<Rightarrow>
                              if out = [] then (Minted response page, fs)
                              else (case WriteFile (kiWrite j) fs out page of
                                      (ok, fs') \<Rightarrow> (if ok then Minted response page else MintFailed, fs'))
                          | r \<Rightarrow> (r, fs)))))"

section \<open>Facts\<close>

lemma runInit_Done:
  assumes "runInit K fs i entityID ssoURL out keyOut = (InitDone, fs')"
  shows "\<exists>priv der. kiGenerated i = Some priv \<and> kl_create_cert K (idp_template K i) priv = Some der
    \<and> fs' = put (put fs keyOut (kl_pem_encode K ''RSA PRIVATE KEY'' (kl_marshal_pkcs1 K priv)))
             out (fakeidp_metadata entityID (std_encode der) ssoURL)"
  using assms by (auto simp: runInit_def WriteFile_True Let_def split: option.splits prod.splits bool.splits if_splits)

lemma mint_command_Minted:
  assumes "mint_command K S P fs j keyPath i out = (Minted response page, fs')" and "keys_read_back K"
    and "map_of fs keyPath = Some (kl_pem_encode K ty (kl_marshal_pkcs1 K priv))"
  shows "runMint S P (pl_rsa_sign P priv) (i\<lparr>miCertDER := kl_create_cert K (idp_template K j) priv\<rparr>) = Minted response page"
  using assms by (auto simp: mint_command_def ReadFile_def keys_read_back_def split: if_splits option.splits mint_result.splits prod.splits)

section \<open>Properties\<close>

text \<open>
  C25: The files close the circle.  After a successful start of the development provider, the gateway finds in the
  metadata file the entity, the address and one certificate, and a response that the mint command makes with the
  key file is judged under that certificate by its contents alone: it is accepted at the consumer service and for the
  entity it was made for, from a minute before it was made until ten minutes after, give or take the clock skew.
\<close>

theorem bootstrapped_idp_is_trusted:
  assumes "keys_read_back K" and "out \<noteq> keyOut" and "entityID \<noteq> []" and "ssoURL \<noteq> []"
    and "ensureFakeIDP K file_exists fs i entityID ssoURL out keyOut = (InitDone, fs1)" and "map_of fs out = None"
    and "kiGenerated i = Some priv" and "kl_create_cert K (idp_template K i) priv = Some der"
    and "sl_parse_cert S der = Some (RSACert pub)" and "\<forall>d sig. pl_rsa_sign P priv d = Some sig \<longrightarrow> sl_rsa_verify S pub d sig"
    and "reads (sl_xml S) (metadata_segs entityID (std_encode der) ssoURL)"
    and "pl_read_file P = map_of fs1" and "map_of (ssIdPCache s) t = None" and "tSAMLIdPMetadataFile tenant = out"
    and "mint_command K S P fs1 j keyOut m page_file = (Minted response page, fs2)"
    and "mint_texts_ok P m" and "clock_texts S P"
    and "reads_minting S P (pl_rsa_sign P priv) (m\<lparr>miCertDER := kl_create_cert K (idp_template K j) priv\<rparr>)"
  shows "fst (idpFor S P s t tenant) = Some \<lparr>idpEntityID = entityID, idpSSORedirectURL = ssoURL, idpSSOPostURL = [],
            idpSigningCertificates = [RSACert pub]\<rparr>
    \<and> ParseAndVerifyResponse S response (RSACert pub) entity acsURL expectedRequestID now clockSkew
        = minted_verdict P m entity acsURL expectedRequestID now clockSkew"
proof -
  have "runInit K fs i entityID ssoURL out keyOut = (InitDone, fs1)"
    using assms(5,6) by (simp add: ensureFakeIDP_def file_exists_def)
  then have fs1: "fs1 = put (put fs keyOut (kl_pem_encode K ''RSA PRIVATE KEY'' (kl_marshal_pkcs1 K priv)))
             out (fakeidp_metadata entityID (std_encode der) ssoURL)"
    using runInit_Done assms(7,8) by fastforce
  have "fst (idpFor S P s t tenant) = Some \<lparr>idpEntityID = entityID, idpSSORedirectURL = ssoURL, idpSSOPostURL = [],
            idpSigningCertificates = [RSACert pub]\<rparr>"
    using metadata_read_back [OF assms(11,9,3,4)] assms(12-14) by (simp add: idpFor_def fs1 map_of_put)
  moreover have "map_of fs1 keyOut = Some (kl_pem_encode K ''RSA PRIVATE KEY'' (kl_marshal_pkcs1 K priv))"
    using assms(2) by (simp add: fs1 map_of_put)
  note mint = mint_command_Minted [OF assms(15,1) this]
  have "mint_texts_ok P (m\<lparr>miCertDER := c\<rparr>)" for c using assms(16) by (simp add: mint_texts_ok_def)
  note v = minted_verifies_raw [OF this assms(17,18,10) mint]
  have "minted_verdict P (m\<lparr>miCertDER := c\<rparr>) = minted_verdict P m" for c
    by (simp add: minted_verdict_def minted_assertion_def fun_eq_iff)
  ultimately show ?thesis using v by simp
qed

text \<open>
  The start of the provider can be repeated, but not repaired.  Once the metadata file exists, a further start
  changes nothing, also when the write that made the file had failed behind its opening and left a part of it.
\<close>

theorem cut_metadata_is_never_rewritten:
  assumes "kiGenerated i = Some priv" and "kl_create_cert K (idp_template K i) priv = Some der" and "map_of fs out = None"
    and "kiMkdir i (dirOf keyOut)" and "kiMkdir i (dirOf out)" and "kiWrite i keyOut = Written" and "out \<noteq> keyOut"
    and "kiWrite i out \<noteq> Refused" and "ensureFakeIDP K file_exists fs i entityID ssoURL out keyOut = (r, fs1)"
  shows "(r = InitDone \<longleftrightarrow> kiWrite i out = Written)
    \<and> ensureFakeIDP K file_exists fs1 j entityID ssoURL out keyOut = (InitDone, fs1)"
  using assms by (auto simp: ensureFakeIDP_def file_exists_def runInit_def WriteFile_def Let_def map_of_put split: write_outcome.splits)

end
