(* ===== verification/DemoApp.thy ===== *)
theory DemoApp
  imports GatewayLaws MockOidc IdpFiles
begin

text \<open>
  The demo entry point, \<open>main.go\<close>: the gateway with a page and the mock OpenID provider mounted on the same mux, the
  development identity provider started before it, and the mock backend (also \<open>cmd/mockbackend\<close>) behind it.  The
  properties: mounting them changes nothing of the gateway or of the provider, whatever order the requests come in;
  and the backend echoes the identity that the session says.
\<close>

section \<open>The mounted provider\<close>

text \<open>
  The requests of the provider beside the path: the query, the form, random bytes and a reading of the
  clock.  Its patterns have no method and are exact; a panic closes the connection.
\<close>

record provider_request =
  prQuery :: "string \<Rightarrow> string"
  prForm :: "(string \<Rightarrow> string) option"
  prRandom :: "string option"
  prNow :: instant

datatype provider_reply =
    PrMetadata ProviderMetadata
  | PrKeys JWKS
  | PrAnswer mock_reply
  | PrNotFound

definition mockoidc_serve ::
    "'k mocklib \<Rightarrow> 'k mock_provider \<Rightarrow> string \<Rightarrow> provider_request \<Rightarrow> provider_reply \<times> 'k mock_provider" where
  "mockoidc_serve M p path r =
     (if path = ''/.well-known/openid-configuration'' then (PrMetadata (mock_metadata p), p)
      else if path = ''/jwks.json'' then (PrKeys (mock_jwks M p), p)
      else if path = ''/authorize'' then (case mock_authorize M p (prQuery r) (prRandom r) (prNow r) of (a, p') \<Rightarrow> (PrAnswer a, p'))
      else if path = ''/token'' then (case mock_token M p (prForm r) (prNow r) (prRandom r) of (a, p') \<Rightarrow> (PrAnswer a, p'))
      else (PrNotFound, p))"

definition newMockOIDCHandler :: "'k option \<Rightarrow> string \<Rightarrow> string \<Rightarrow> string \<Rightarrow> 'k mock_provider option" where
  "newMockOIDCHandler generated issuer subject department =
     map_option (\<lambda>priv. \<lparr>mpIssuer = issuer, mpSubject = subject, mpDepartment = department, mpPriv = priv, mpCodes = []\<rparr>) generated"

section \<open>The demo\<close>

record ('u, 'k) demo =
  dmGateway :: "'u gateway"
  dmProvider :: "'k mock_provider"

datatype demo_error = IdpFailed init_result | GatewayFailed startup_error | ProviderKeyFailed

text \<open>\<open>runGateway\<close> of \<open>main.go\<close>, up to the point where it listens; the configuration is read from the given files.\<close>

definition runDemo :: "startup \<Rightarrow> string \<Rightarrow> 'k option \<Rightarrow> demo_error + ('u, 'k) demo" where
  "runDemo su configPath generated =
     (case Load (suReadFile su) (suConfig su) configPath of
        Inl e \<Rightarrow> Inl (GatewayFailed (ConfigFailed e))
      | Inr cfg \<Rightarrow>
          (case runGateway su configPath of
             Inl e \<Rightarrow> Inl (GatewayFailed e)
           | Inr g \<Rightarrow>
               (case newMockOIDCHandler generated (public_base cfg @ ''/mock-oidc'') ''bob@acme-corp.example'' ''Engineering'' of
                  None \<Rightarrow> Inl ProviderKeyFailed
                | Some p \<Rightarrow> Inr \<lparr>dmGateway = g, dmProvider = p\<rparr>)))"

definition main_demo ::
    "keylib \<Rightarrow> startup \<Rightarrow> files \<Rightarrow> key_inputs \<Rightarrow> 'k option \<Rightarrow> (demo_error + ('u, 'k) demo) \<times> files" where
  "main_demo K su fs i generated =
     (case ensureFakeIDP K file_exists fs i ''https://fake-idp.example.com/entity'' ''http://localhost:8443/__fakeidp_unused__''
             ''policies/fakeidp-metadata.xml'' ''data/fakeidp.key.pem'' of
        (InitDone, fs1) \<Rightarrow> (runDemo (su\<lparr>suReadFile := ReadFile (kiReadable i) fs1\<rparr>) ''config.json'' generated, fs1)
      | (e, fs1) \<Rightarrow> (Inl (IdpFailed e), fs1))"

datatype demo_route = PageR | ProviderR string | PageOther | GatewayR

text \<open>
  The two patterns that the demo adds: the page, for GET and HEAD on the root alone, and the subtree of the provider,
  without its prefix; the mux sends the prefix without a slash there.
\<close>

definition demo_mux :: "string \<Rightarrow> string \<Rightarrow> demo_route" where
  "demo_mux method path =
     (if path = ''/'' then (if method \<in> set [''GET'', ''HEAD''] then PageR else PageOther)
      else if HasPrefix path ''/mock-oidc/'' then ProviderR (TrimPrefix path ''/mock-oidc'')
      else if path = ''/mock-oidc'' then PageOther else GatewayR)"

record demo_request =
  dqGateway :: gw_request
  dqProvider :: provider_request

datatype 'u demo_reply =
    DemoPage string
  | DemoStatus nat string
  | DemoProvider provider_reply
  | DemoGateway "'u gw_reply"

definition demo_serve ::
    "'u gwlib \<Rightarrow> 'k mocklib \<Rightarrow> string \<Rightarrow> ('u, 'k) demo \<Rightarrow> demo_request \<Rightarrow> 'u demo_reply \<times> ('u, 'k) demo" where
  "demo_serve G M html d q =
     (let path = rqPath (gqHttp (dqGateway q))
      in case demo_mux (rqMethod (gqHttp (dqGateway q))) path of
           PageR \<Rightarrow> (DemoPage html, d)
         | PageOther \<Rightarrow> (if path = ''/'' then DemoStatus 405 ''Method Not Allowed'' else DemoStatus 301 ''/mock-oidc/'', d)
         | ProviderR p \<Rightarrow>
             (case mockoidc_serve M (dmProvider d) p (dqProvider q) of (a, p') \<Rightarrow> (DemoProvider a, d\<lparr>dmProvider := p'\<rparr>))
         | GatewayR \<Rightarrow> (case serve G (dmGateway d) (dqGateway q) of (a, g) \<Rightarrow> (DemoGateway a, d\<lparr>dmGateway := g\<rparr>)))"

section \<open>The mock backend\<close>

text \<open>The loop over the header map; the order in which it meets the keys does not matter.\<close>

definition echo_step :: "Header \<Rightarrow> (string \<times> string) list \<Rightarrow> string \<Rightarrow> (string \<times> string) list" where
  "echo_step h ctx k =
     (if HasPrefix k ''X-B2bfp-'' \<or> HasPrefix k ''X-B2BFP-'' then put ctx k (Join (header_values h k) '','') else ctx)"

definition mock_backend :: "Request \<Rightarrow> (string \<times> string) list" where
  "mock_backend r =
     foldl (echo_step (rqHeader r)) [(''path'', rqPath r), (''method'', rqMethod r)] (map fst (rqHeader r))"

section \<open>Runs\<close>

inductive demo_run ::
    "'u gwlib \<Rightarrow> 'k mocklib \<Rightarrow> string \<Rightarrow> ('u, 'k) demo \<Rightarrow> (demo_request \<times> 'u demo_reply) list \<Rightarrow> ('u, 'k) demo \<Rightarrow> bool"
  for G M html d0 where
  demo_start: "demo_run G M html d0 [] d0"
| demo_step: "demo_run G M html d0 evs d \<Longrightarrow> demo_serve G M html d q = (r, d') \<Longrightarrow> demo_run G M html d0 (evs @ [(q, r)]) d'"

inductive mock_run ::
    "'k mocklib \<Rightarrow> 'k mock_provider \<Rightarrow> ((string \<times> provider_request) \<times> provider_reply) list \<Rightarrow> 'k mock_provider \<Rightarrow> bool"
  for M p0 where
  mock_start: "mock_run M p0 [] p0"
| mock_step: "mock_run M p0 evs p \<Longrightarrow> mockoidc_serve M p path r = (a, p') \<Longrightarrow> mock_run M p0 (evs @ [((path, r), a)]) p'"

text \<open>What a run of the demo is for the gateway, and for the provider.\<close>

fun gateway_event :: "demo_request \<times> 'u demo_reply \<Rightarrow> (gw_request \<times> 'u gw_reply) list" where
  "gateway_event (q, DemoGateway r) = [(dqGateway q, r)]"
| "gateway_event _ = []"

fun provider_event :: "demo_request \<times> 'u demo_reply \<Rightarrow> ((string \<times> provider_request) \<times> provider_reply) list" where
  "provider_event (q, DemoProvider a) = [((TrimPrefix (rqPath (gqHttp (dqGateway q))) ''/mock-oidc'', dqProvider q), a)]"
| "provider_event _ = []"

definition gateway_events :: "(demo_request \<times> 'u demo_reply) list \<Rightarrow> (gw_request \<times> 'u gw_reply) list" where
  "gateway_events evs = concat (map gateway_event evs)"

definition provider_events ::
    "(demo_request \<times> 'u demo_reply) list \<Rightarrow> ((string \<times> provider_request) \<times> provider_reply) list" where
  "provider_events evs = concat (map provider_event evs)"

lemma events_Nil [simp]: "gateway_events [] = []" "provider_events [] = []"
  by (simp_all add: gateway_events_def provider_events_def)

lemma events_snoc [simp]:
  "gateway_events (evs @ [ev]) = gateway_events evs @ gateway_event ev"
  "provider_events (evs @ [ev]) = provider_events evs @ provider_event ev"
  by (simp_all add: gateway_events_def provider_events_def)

text \<open>One request of the demo is a request of the gateway, or one of the provider, or none of both.\<close>

lemma demo_serve_cases:
  assumes "demo_serve G M html d q = (r, d')"
  obtains (gateway) a where "r = DemoGateway a" "demo_mux (rqMethod (gqHttp (dqGateway q))) (rqPath (gqHttp (dqGateway q))) = GatewayR"
      "serve G (dmGateway d) (dqGateway q) = (a, dmGateway d')" "dmProvider d' = dmProvider d"
    | (provider) a where "r = DemoProvider a" "dmGateway d' = dmGateway d"
      "mockoidc_serve M (dmProvider d) (TrimPrefix (rqPath (gqHttp (dqGateway q))) ''/mock-oidc'') (dqProvider q) = (a, dmProvider d')"
    | (neither) "gateway_event (q, r) = []" "provider_event (q, r) = []" "d' = d"
  using assms
  by (auto simp: demo_serve_def demo_mux_def Let_def split: if_splits prod.splits demo_route.splits)

lemma demo_run_parts:
  assumes "demo_run G M html d0 evs d"
  shows "gw_run G (dmGateway d0) (gateway_events evs) (dmGateway d) \<and> mock_run M (dmProvider d0) (provider_events evs) (dmProvider d)"
  using assms
proof (induction rule: demo_run.induct)
  case demo_start
  show ?case by (simp add: gw_run.gw_start mock_run.mock_start)
next
  case (demo_step evs d q r d')
  show ?case
  proof (cases rule: demo_serve_cases [OF demo_step.hyps(2), case_names gateway provider neither])
    case (gateway a)
    then show ?thesis using demo_step.IH by (auto intro: gw_run.gw_serve)
  next
    case (provider a)
    then show ?thesis using demo_step.IH by (auto intro: mock_run.mock_step)
  next
    case neither
    then show ?thesis using demo_step.IH by simp
  qed
qed

lemma gateway_eventsD: "(g, r) \<in> set (gateway_events evs) \<Longrightarrow> \<exists>q. dqGateway q = g \<and> (q, DemoGateway r) \<in> set evs"
proof -
  have "(g, r) \<in> set (gateway_event ev) \<Longrightarrow> \<exists>q. dqGateway q = g \<and> (q, DemoGateway r) = ev" for ev
    by (cases ev rule: gateway_event.cases) auto
  then show "(g, r) \<in> set (gateway_events evs) \<Longrightarrow> \<exists>q. dqGateway q = g \<and> (q, DemoGateway r) \<in> set evs"
    by (auto simp: gateway_events_def)
qed

lemma Split_HasPrefix: "HasPrefix p ''/mock-oidc'' \<Longrightarrow> mux m p = None"
proof -
  assume "HasPrefix p ''/mock-oidc''"
  then obtain rest where p: "p = ''/mock-oidc'' @ rest" by (auto simp: HasPrefix_iff)
  have "\<exists>a as. Split p CHR ''/'' = [] # (''mock-oidc'' @ a) # as"
    unfolding p by (cases "Split rest CHR ''/''") (simp_all split: list.splits)
  then show "mux m p = None" by (auto simp: mux_def p HasPrefix_def login_route_def split: list.splits)
qed

text \<open>The patterns the demo adds hide none of the gateway's.\<close>

lemma demo_mux_adds: "demo_mux m p \<noteq> GatewayR \<Longrightarrow> mux m' p = None"
proof -
  assume "demo_mux m p \<noteq> GatewayR"
  moreover have "HasPrefix p (''/mock-oidc'' @ ''/'') \<Longrightarrow> HasPrefix p ''/mock-oidc''" by (auto simp: HasPrefix_iff)
  moreover have "HasPrefix ''/mock-oidc'' ''/mock-oidc''" by (simp add: HasPrefix_def)
  ultimately consider "p = ''/''" | "HasPrefix p ''/mock-oidc''"
    by (auto simp: demo_mux_def HasPrefix_append split: if_splits)
  then show "mux m' p = None"
  proof cases
    case 1
    then show ?thesis by (simp add: mux_def HasPrefix_def login_route_def)
  qed (rule Split_HasPrefix)
qed

lemma gateway_run_lifts:
  assumes "gw_run G g0 evs g" and "\<forall>q\<in>fst ` set evs. demo_mux (rqMethod (gqHttp q)) (rqPath (gqHttp q)) = GatewayR"
  shows "demo_run G M html \<lparr>dmGateway = g0, dmProvider = p\<rparr>
    (map (\<lambda>(q, r). (\<lparr>dqGateway = q, dqProvider = b\<rparr>, DemoGateway r)) evs) \<lparr>dmGateway = g, dmProvider = p\<rparr>"
  using assms
proof (induction rule: gw_run.induct)
  case gw_start
  show ?case by (simp add: demo_run.demo_start)
next
  case (gw_serve evs g q r g')
  have "demo_serve G M html \<lparr>dmGateway = g, dmProvider = p\<rparr> \<lparr>dqGateway = q, dqProvider = b\<rparr> = (DemoGateway r, \<lparr>dmGateway = g', dmProvider = p\<rparr>)"
    using gw_serve by (simp add: demo_serve_def)
  then show ?case using gw_serve by (auto intro: demo_run.demo_step)
qed

section \<open>What the backend echoes\<close>

lemma map_of_echo:
  "map_of (foldl (echo_step h) ctx ks) k =
     (if k \<in> set ks \<and> (HasPrefix k ''X-B2bfp-'' \<or> HasPrefix k ''X-B2BFP-'') then Some (Join (header_values h k) '','') else map_of ctx k)"
  by (induction ks arbitrary: ctx) (auto simp: echo_step_def map_of_put)

lemma mock_backend_lookup:
  assumes "HasPrefix k ''X-B2bfp-''"
  shows "map_of (mock_backend r) k = map_option (\<lambda>vs. Join vs '','') (map_of (rqHeader r) k)"
proof -
  have "k \<noteq> ''path''" "k \<noteq> ''method''" using assms by (auto simp: HasPrefix_def)
  then have "map_of (mock_backend r) k = (if k \<in> set (map fst (rqHeader r)) then Some (Join (header_values (rqHeader r) k) '','') else None)"
    using assms by (simp add: mock_backend_def map_of_echo)
  then show ?thesis by (auto simp: header_values_def map_of_eq_None_iff image_image split: option.splits)
qed

lemma reserved_prefix: "HasPrefix k ''X-B2bfp-'' \<Longrightarrow> reserved k"
proof -
  have "ToLower ''X-B2bfp-'' = ''x-b2bfp-''" by code_simp
  then show "HasPrefix k ''X-B2bfp-'' \<Longrightarrow> reserved k"
    by (auto simp: HasPrefix_iff reserved_def ToLower_def)
qed

section \<open>Properties\<close>


text \<open>
  C24: The backend echoes the identity of a login.  In a run of the demo that started with no sessions, what the mock
  backend prints of the identity headers of a request that reaches it are those of a session that an earlier request
  was issued and whose cookie the request carries, at the login endpoint of its tenant; only the headers that the
  client listed in a Connection header are missing.
\<close>

theorem demo_backend_echoes_session:
  assumes "demo_run G M html \<lparr>dmGateway = new_gateway cfg env policies st, dmProvider = p\<rparr> evs d" and "sessions st = []"
    and "demo_serve G M html d q = (DemoGateway (GwBackend u r'), d')" and "canonical_keys (rqHeader (gqHttp (dqGateway q)))"
  shows "\<exists>q0 sess ck to. (q0, DemoGateway (GwLogin sess ck to)) \<in> set evs
    \<and> mux (rqMethod (gqHttp (dqGateway q0))) (rqPath (gqHttp (dqGateway q0)))
        \<in> {Some (SamlAcsR (sTenantID sess)), Some (OidcCallbackR (sTenantID sess))}
    \<and> request_Cookie (gqHttp (dqGateway q)) sessionCookieName = Some (ckValue ck)
    \<and> (\<forall>k. HasPrefix k ''X-B2bfp-'' \<longrightarrow> map_of (mock_backend r') k =
         (if k \<in> CanonicalMIMEHeaderKey ` set (connection_tokens (rqHeader (gqHttp (dqGateway q)))) then None
          else map_option (\<lambda>vs. Join vs '','') (gateway_header (stored sess) k)))"
proof -
  have run: "gw_run G (new_gateway cfg env policies st) (gateway_events evs) (dmGateway d)" using demo_run_parts [OF assms(1)] by simp
  have "serve G (dmGateway d) (dqGateway q) = (GwBackend u r', dmGateway d')"
    by (rule demo_serve_cases [OF assms(3)]) auto
  then obtain g0 sess ck to where ev: "(g0, GwLogin sess ck to) \<in> set (gateway_events evs)"
    and m: "mux (rqMethod (gqHttp g0)) (rqPath (gqHttp g0)) \<in> {Some (SamlAcsR (sTenantID sess)), Some (OidcCallbackR (sTenantID sess))}"
    and c: "request_Cookie (gqHttp (dqGateway q)) sessionCookieName = Some (ckValue ck)"
    and h: "\<forall>k. reserved k \<longrightarrow> map_of (rqHeader r') k =
         (if k \<in> CanonicalMIMEHeaderKey ` set (connection_tokens (rqHeader (gqHttp (dqGateway q)))) then None else gateway_header (stored sess) k)"
    using backend_after_login [OF run assms(2) _ assms(4)] by blast
  obtain q0 where "dqGateway q0 = g0" "(q0, DemoGateway (GwLogin sess ck to)) \<in> set evs" using gateway_eventsD [OF ev] by blast
  moreover have "map_of (mock_backend r') k =
         (if k \<in> CanonicalMIMEHeaderKey ` set (connection_tokens (rqHeader (gqHttp (dqGateway q)))) then None
          else map_option (\<lambda>vs. Join vs '','') (gateway_header (stored sess) k))" if "HasPrefix k ''X-B2bfp-''" for k
    using h reserved_prefix [OF that] by (simp add: mock_backend_lookup [OF that])
  ultimately show ?thesis using m c by blast
qed

end
