(* ===== verification/SamlSample.thy ===== *)
theory SamlSample
  imports SamlLaws XmlText
begin

text \<open>
  Concrete SAML documents: a login that goes through, and a forged one that does.  A document is a
  list of tokens with their source text, so that the decoder of a sample library is a lookup.  Its
  hash has no collisions, and its only valid signature is the one over a given text.
\<close>

section \<open>Sample documents\<close>

definition sample_xml :: "segments list \<Rightarrow> xmllib" where
  "sample_xml docs = \<lparr>decode_tokens = (\<lambda>b. map_option (map fst) (find (\<lambda>d. source_of d = b) docs)),
     decode_raw = (\<lambda>b. map_option (offsets 0) (find (\<lambda>d. source_of d = b) docs))\<rparr>"

definition signed_info :: "string \<Rightarrow> segments" where
  "signed_info rid =
     open_tag ''ds'' dsNS ''SignedInfo'' []
     # leaf ''ds'' dsNS ''SignatureMethod'' [([], ''Algorithm'', rsa_sha256_uri)] []
     @ open_tag ''ds'' dsNS ''Reference'' [([], ''URI'', CHR ''#'' # rid)]
     # leaf ''ds'' dsNS ''DigestMethod'' [([], ''Algorithm'', ''http://www.w3.org/2001/04/xmlenc#sha256'')] []
     @ leaf ''ds'' dsNS ''DigestValue'' [] ''ZA==''
     @ [close_tag ''ds'' ''Reference'', close_tag ''ds'' ''SignedInfo'']"

text \<open>A signature with \<open>extra\<close> behind its value, a place nothing signs.\<close>

definition signature :: "string \<Rightarrow> segments \<Rightarrow> segments" where
  "signature rid extra =
     open_tag ''ds'' dsNS ''Signature'' [] # signed_info rid
     @ leaf ''ds'' dsNS ''SignatureValue'' [] ''cw==''
     @ extra @ [close_tag ''ds'' ''Signature'']"

definition response :: "segments \<Rightarrow> segments" where
  "response content =
     open_tag ''samlp'' sampNS ''Response'' [(''xmlns'', ''samlp'', sampNS), (''xmlns'', ''ds'', dsNS), ([], ''ID'', ''_r'')]
     # content @ [close_tag ''samlp'' ''Response'']"

definition assertion :: "string \<Rightarrow> string \<Rightarrow> segments \<Rightarrow> segments" where
  "assertion nameID irt sig =
     open_tag ''saml'' samlNS ''Assertion'' [(''xmlns'', ''saml'', samlNS), ([], ''ID'', ''_a'')]
     # sig
     @ open_tag ''saml'' samlNS ''Subject'' []
     # leaf ''saml'' samlNS ''NameID'' [] nameID
     @ open_tag ''saml'' samlNS ''SubjectConfirmation'' []
     # leaf ''saml'' samlNS ''SubjectConfirmationData'' (if irt = [] then [] else [([], ''InResponseTo'', irt)]) []
     @ [close_tag ''saml'' ''SubjectConfirmation'', close_tag ''saml'' ''Subject'',
        open_tag ''saml'' samlNS ''Conditions'' [([], ''NotOnOrAfter'', ''T'')],
        open_tag ''saml'' samlNS ''AudienceRestriction'' []]
     @ leaf ''saml'' samlNS ''Audience'' [] ''https://gw/saml/acme/metadata''
     @ [close_tag ''saml'' ''AudienceRestriction'', close_tag ''saml'' ''Conditions'', close_tag ''saml'' ''Assertion'']"

lemma reads_sample: "find (\<lambda>d. source_of d = b) docs = Some d \<Longrightarrow> source_of d = b \<and> reads (sample_xml docs) d"
  by (auto simp: reads_def sample_xml_def dest: find_SomeD)

lemma captureRawTags_sample:
  "find (\<lambda>d. source_of d = b) docs = Some d \<Longrightarrow> captureRawTags (sample_xml docs) b = Some (raw_of 0 d)"
  using captureRawTags_reads reads_sample by blast

lemma parseXMLDoc_sample:
  "find (\<lambda>d. source_of d = b) docs = Some d \<Longrightarrow> parseXMLDoc (sample_xml docs) b = Some (index_doc (map fst d))"
  using parseXMLDoc_reads reads_sample by blast

definition short_hash :: "string \<Rightarrow> string \<Rightarrow> string" where
  "short_hash target x = (if x = target then ''d'' else CHR ''0'' # x)"

lemma inj_short_hash: "inj (short_hash target)"
  by (auto simp: inj_def short_hash_def)

definition sample_lib :: "segments list \<Rightarrow> string \<Rightarrow> string \<Rightarrow> instant \<Rightarrow> samllib" where
  "sample_lib docs target msg expiry =
     \<lparr>sl_xml = sample_xml docs, sl_sha256 = short_hash target,
      sl_rsa_verify = (\<lambda>k d sg. k = ''idp-key'' \<and> sg = ''s'' \<and> d = short_hash target msg),
      sl_time_parse = (\<lambda>layout t. if t = ''T'' then Some expiry else None),
      sl_parse_cert = (\<lambda>der. if der = ''c'' then Some (RSACert ''idp-key'') else None)\<rparr>"

text \<open>On a sample document the verification is the part behind the two scans.\<close>

lemma ParseAndVerify_sample:
  assumes "find (\<lambda>d. source_of d = b) docs = Some d"
  shows "ParseAndVerifyResponse (sample_lib docs target msg expiry) b cert ent url rid now skew =
    andthen (verify_document (sample_lib docs target msg expiry) (index_doc (map fst d)) (raw_of 0 d) cert)
      (\<lambda>v. validate_assertion (sample_lib docs target msg expiry) v ent url rid now skew)"
proof -
  have "sl_xml (sample_lib docs target msg expiry) = sample_xml docs" by (simp add: sample_lib_def)
  then show ?thesis
    by (simp add: ParseAndVerifyResponse_def VerifySAMLResponseSignature_def parseXMLDoc_sample [OF assms]
        captureRawTags_sample [OF assms] require_def)
qed

text \<open>The parts of an enveloped signature in the document, in the order the code looks for them.\<close>

definition signature_laid_out :: "xmldoc \<Rightarrow> nat \<times> nat \<Rightarrow> nat \<times> nat \<Rightarrow> nat \<times> nat \<Rightarrow> bool" where
  "signature_laid_out doc parent sig si =
     (attr_or_empty (se_attrs doc (fst parent)) ''ID'' \<noteq> []
      \<and> findDirectChild doc sig dsNS ''SignedInfo'' = Some si
      \<and> (case findDirectChild doc si dsNS ''Reference'' of None \<Rightarrow> False | Some ref \<Rightarrow>
           TrimPrefix (attr_or_empty (se_attrs doc (fst ref)) ''URI'') ''#'' = attr_or_empty (se_attrs doc (fst parent)) ''ID''
           \<and> (case findDirectChild doc ref dsNS ''DigestMethod'' of None \<Rightarrow> False
               | Some dm \<Rightarrow> digestAlgByURI (attr_or_empty (se_attrs doc (fst dm)) ''Algorithm''))
           \<and> (case findDirectChild doc ref dsNS ''DigestValue'' of None \<Rightarrow> False
               | Some dv \<Rightarrow> std_decode (TrimSpace (elementText doc dv)) = Some ''d''))
      \<and> (case findDirectChild doc si dsNS ''SignatureMethod'' of None \<Rightarrow> False
          | Some sm \<Rightarrow> sigAlgByURI (attr_or_empty (se_attrs doc (fst sm)) ''Algorithm''))
      \<and> (case findDirectChild doc sig dsNS ''SignatureValue'' of None \<Rightarrow> False
          | Some sv \<Rightarrow> std_decode (TrimSpace (elementText doc sv)) = Some ''s''))"

text \<open>A document with root \<open>rt\<close>, the assertion \<open>a\<close> and one signature, on \<open>e\<close>, which is one of the two.\<close>

definition sample_shape ::
    "xmldoc \<Rightarrow> nat \<times> nat \<Rightarrow> nat \<times> nat \<Rightarrow> nat \<times> nat \<Rightarrow> nat \<times> nat \<Rightarrow> nat \<times> nat \<Rightarrow> bool" where
  "sample_shape doc rt a e sig si =
     (rootRange doc = Some rt \<and> se_name doc (fst rt) = (sampNS, ''Response'')
      \<and> findAllDescendants doc (fst rt) (snd rt) samlNS ''Assertion'' = [a]
      \<and> findDirectChild doc rt dsNS ''Signature'' = (if e = rt then Some sig else None)
      \<and> findDirectChild doc a dsNS ''Signature'' = (if e = rt then None else Some sig)
      \<and> (e = rt \<or> e = a) \<and> signature_laid_out doc e sig si)"

lemma sample_signature_verifies:
  assumes "signature_laid_out doc parent sig si"
    and "canonicalize doc raw parent [fst sig] = Some target" and "canonicalize doc raw si [] = Some msg"
  shows "verifyEnvelopedSignature (sample_lib docs target msg expiry) doc raw parent sig (RSACert ''idp-key'') = Inr ()"
  using assms
  by (auto simp: verifyEnvelopedSignature_def signature_laid_out_def sample_lib_def Let_def digest.same_iff short_hash_def
      simp del: split_paired_Ex split: option.splits)

lemma sample_verifies:
  assumes "sample_shape doc rt a e sig si"
    and "canonicalize doc raw e [fst sig] = Some target" and "canonicalize doc raw si [] = Some msg"
  shows "verify_document (sample_lib docs target msg expiry) doc raw (RSACert ''idp-key'')
    = Inr \<lparr>vaDoc = doc, vaAssertion = a, vaResponse = rt\<rparr>"
proof -
  have "verifyEnvelopedSignature (sample_lib docs target msg expiry) doc raw e sig (RSACert ''idp-key'') = Inr ()"
    using assms by (intro sample_signature_verifies) (auto simp: sample_shape_def)
  then show ?thesis using assms(1)
    by (cases "e = rt") (simp_all add: sample_shape_def verify_document_def require_def ensure_def verify_if_signed_def
        andthen_def Let_def)
qed

lemma validate_assertion_time:
  assumes "sl_time_parse S = sl_time_parse S'"
  shows "validate_assertion S = validate_assertion S'"
proof -
  have p: "parseSAMLTime S = parseSAMLTime S'" by (intro ext) (simp only: parseSAMLTime_def assms)
  have "check_confirmation S = check_confirmation S'" "check_not_before S = check_not_before S'"
    "check_not_after S = check_not_after S'"
    by (intro ext, simp only: check_confirmation_def check_not_before_def check_not_after_def p)+
  then show ?thesis by (intro ext) (simp only: validate_assertion_def)
qed

lemma sample_parses:
  assumes "sample_shape (index_doc (map fst d)) rt a e sig si"
    and "canonicalize (index_doc (map fst d)) (raw_of 0 d) e [fst sig] = Some target"
    and "canonicalize (index_doc (map fst d)) (raw_of 0 d) si [] = Some msg"
    and "validate_assertion (sample_lib [] [] [] expiry) \<lparr>vaDoc = index_doc (map fst d), vaAssertion = a, vaResponse = rt\<rparr>
      ent url rid now skew = r"
  shows "ParseAndVerifyResponse (sample_lib [d] target msg expiry) (source_of d) (RSACert ''idp-key'') ent url rid now skew = r"
proof -
  have "validate_assertion (sample_lib [d] target msg expiry) = validate_assertion (sample_lib [] [] [] expiry)"
    by (rule validate_assertion_time) (simp add: sample_lib_def)
  then show ?thesis
    using assms(4) sample_verifies [OF assms(1-3)] ParseAndVerify_sample [of "source_of d" "[d]" d]
    by (simp add: andthen_def)
qed

section \<open>Logins\<close>

text \<open>
  A response with a signed assertion, to a request \<open>irt\<close> or, if that is empty, to none: the assertion is
  at (1, 34), its signature at (2, 17).  The assertion is valid for ten minutes.
\<close>

definition login_doc :: "string \<Rightarrow> segments" where
  "login_doc irt = response (assertion ''carol@acme'' irt (signature ''_a'' []))"

definition login_target :: "string \<Rightarrow> string" where
  "login_target irt = the (canonicalize (index_doc (map fst (login_doc irt))) (raw_of 0 (login_doc irt)) (1, 34) [2])"

definition login_signed :: "string \<Rightarrow> string" where
  "login_signed irt = the (canonicalize (index_doc (map fst (login_doc irt))) (raw_of 0 (login_doc irt)) (3, 13) [])"

definition login_lib :: "string \<Rightarrow> samllib" where
  "login_lib irt = sample_lib [login_doc irt] (login_target irt) (login_signed irt) (seconds 600)"

definition login_claims :: "string \<Rightarrow> Assertion" where
  "login_claims irt = \<lparr>aAssertionID = ''_a'', aNameID = ''carol@acme'', aNameIDFormat = [], aIssuer = [],
     aInResponseTo = irt, aAttributes = [], aNotBefore = None, aNotOnOrAfter = seconds 600\<rparr>"

lemma login_canon:
  assumes "irt = ''_u1'' \<or> irt = []"
  shows "canonicalize (index_doc (map fst (login_doc irt))) (raw_of 0 (login_doc irt)) (1, 34) [2] = Some (login_target irt)"
proof -
  have "canonicalize (index_doc (map fst (login_doc ''_u1''))) (raw_of 0 (login_doc ''_u1'')) (1, 34) [2] \<noteq> None"
    by code_simp
  moreover have "canonicalize (index_doc (map fst (login_doc []))) (raw_of 0 (login_doc [])) (1, 34) [2] \<noteq> None"
    by code_simp
  ultimately show ?thesis using assms unfolding login_target_def by (metis option.collapse)
qed

lemma login_canon_signed:
  assumes "irt = ''_u1'' \<or> irt = []"
  shows "canonicalize (index_doc (map fst (login_doc irt))) (raw_of 0 (login_doc irt)) (3, 13) [] = Some (login_signed irt)"
proof -
  have "canonicalize (index_doc (map fst (login_doc ''_u1''))) (raw_of 0 (login_doc ''_u1'')) (3, 13) [] \<noteq> None"
    by code_simp
  moreover have "canonicalize (index_doc (map fst (login_doc []))) (raw_of 0 (login_doc [])) (3, 13) [] \<noteq> None"
    by code_simp
  ultimately show ?thesis using assms unfolding login_signed_def by (metis option.collapse)
qed

lemma login_shape:
  assumes "irt = ''_u1'' \<or> irt = []"
  shows "sample_shape (index_doc (map fst (login_doc irt))) (0, 35) (1, 34) (1, 34) (2, 17) (3, 13)"
proof -
  have "sample_shape (index_doc (map fst (login_doc ''_u1''))) (0, 35) (1, 34) (1, 34) (2, 17) (3, 13)" by code_simp
  moreover have "sample_shape (index_doc (map fst (login_doc []))) (0, 35) (1, 34) (1, 34) (2, 17) (3, 13)" by code_simp
  ultimately show ?thesis using assms by blast
qed

lemma login_parses_if:
  assumes "irt = ''_u1'' \<or> irt = []"
    and "validate_assertion (sample_lib [] [] [] (seconds 600))
      \<lparr>vaDoc = index_doc (map fst (login_doc irt)), vaAssertion = (1, 34), vaResponse = (0, 35)\<rparr>
      ''https://gw/saml/acme/metadata'' ''https://gw/saml/acme/acs'' [] now (minutes 2) = Inr (login_claims irt)"
  shows "ParseAndVerifyResponse (login_lib irt) (source_of (login_doc irt)) (RSACert ''idp-key'')
    ''https://gw/saml/acme/metadata'' ''https://gw/saml/acme/acs'' [] now (minutes 2) = Inr (login_claims irt)"
  unfolding login_lib_def
  by (rule sample_parses [OF login_shape [OF assms(1)] _ login_canon_signed [OF assms(1)] assms(2)])
     (simp only: fst_conv login_canon [OF assms(1)])

lemma login_parses:
  "ParseAndVerifyResponse (login_lib ''_u1'') (source_of (login_doc ''_u1'')) (RSACert ''idp-key'')
    ''https://gw/saml/acme/metadata'' ''https://gw/saml/acme/acs'' [] (seconds 1) (minutes 2) = Inr (login_claims ''_u1'')"
  by (rule login_parses_if, simp) code_simp

lemma unsolicited_parses:
  "ParseAndVerifyResponse (login_lib []) (source_of (login_doc [])) (RSACert ''idp-key'')
    ''https://gw/saml/acme/metadata'' ''https://gw/saml/acme/acs'' [] (seconds 1) (minutes 2) = Inr (login_claims [])"
  by (rule login_parses_if, simp) code_simp

lemma unsolicited_parses_late:
  "ParseAndVerifyResponse (login_lib []) (source_of (login_doc [])) (RSACert ''idp-key'')
    ''https://gw/saml/acme/metadata'' ''https://gw/saml/acme/acs'' [] (seconds 610) (minutes 2) = Inr (login_claims [])"
  by (rule login_parses_if, simp) code_simp

subsection \<open>The tenant\<close>

definition acme_idp :: IdPMetadata where
  "acme_idp = \<lparr>idpEntityID = ''https://idp'', idpSSORedirectURL = ''https://idp/sso'', idpSSOPostURL = [],
     idpSigningCertificates = [OtherCert, RSACert ''idp-key'']\<rparr>"

definition acme_sp :: SP where
  "acme_sp = \<lparr>spEntityID = ''https://gw/saml/acme/metadata'', spACSURL = ''https://gw/saml/acme/acs'',
     spPrivateKey = ''key'', spCertDER = ''cert''\<rparr>"

definition saml_tenant_acme :: Tenant where
  "saml_tenant_acme = \<lparr>tID = ''acme'', tName = ''Acme'', tSCIMBearerToken = [], tSAMLIdPMetadataFile = ''idp.xml'',
     tOIDCIssuer = [], tOIDCClientID = [], tOIDCClientSecret = [], tBackendURL = []\<rparr>"

definition saml_acme :: saml_server where
  "saml_acme = \<lparr>ssTenants = [(''acme'', saml_tenant_acme)], ssKeyDir = ''keys'', ssPublicBaseURL = Some (\<lambda>_. ''https://gw''),
     ssSPs = [(''acme'', acme_sp)], ssIdPCache = [(''acme'', acme_idp)]\<rparr>"

definition toy_splib :: splib where
  "toy_splib = \<lparr>pl_deflate = Some, pl_inflate = Some, pl_rsa_sign = (\<lambda>k d. Some d), pl_fmt_utc = (\<lambda>t. ''T''),
     pl_key_pair = (\<lambda>k c e. None), pl_read_file = (\<lambda>f. None)\<rparr>"

definition acme_post :: "string \<Rightarrow> acs_inputs" where
  "acme_post b64 = \<lparr>inTenant = ''acme'', inForm = Some b64, inVerify = (\<lambda>_. seconds 1), inMark = seconds 1, inTake = seconds 1,
     inUser = seconds 1, inSession = seconds 1, inUUID = ''u-1'', inRandom = Some ''sid-1''\<rparr>"

lemma saml_acme_ok: "sps_ok saml_acme"
  by (simp add: sps_ok_def saml_acme_def acme_sp_def saml_entity_def saml_base_def)

lemma encode_nonempty: "s \<noteq> [] \<Longrightarrow> std_encode s \<noteq> []"
  using std_decode_encode [of s] std_decode_encode [of "[]"] by (auto simp: std_encode_def)

lemma source_nonempty: "source_of (response segs) \<noteq> []"
  by (simp add: source_of_def response_def open_tag_def)

text \<open>Posting a document that verifies under the second certificate reaches \<open>acs_accept\<close>.\<close>

lemma try_certs_second:
  assumes "ParseAndVerifyResponse S raw (RSACert ''idp-key'') ''https://gw/saml/acme/metadata''
      ''https://gw/saml/acme/acs'' [] now (minutes 2) = Inr a"
  shows "try_certs S raw acme_sp (\<lambda>_. now) 0 [OtherCert, RSACert ''idp-key''] = Some a"
proof (cases "ParseAndVerifyResponse S raw OtherCert ''https://gw/saml/acme/metadata'' ''https://gw/saml/acme/acs'' []
    now (minutes 2)")
  case (Inl e)
  then show ?thesis using assms(1) by (simp add: acme_sp_def)
next
  case (Inr a')
  then have "a' = a" using ParseAndVerify_unique [OF Inr assms(1)] by simp
  then show ?thesis using Inr by (simp add: acme_sp_def)
qed

lemma acs_acme:
  assumes "ParseAndVerifyResponse S raw (RSACert ''idp-key'') ''https://gw/saml/acme/metadata''
      ''https://gw/saml/acme/acs'' [] (seconds 1) (minutes 2) = Inr a" and "raw \<noteq> []"
  shows "acs S toy_splib saml_acme st (acme_post (std_encode raw)) =
    (case acs_accept saml_acme st (acme_post (std_encode raw)) a of (res, st') \<Rightarrow> (res, saml_acme, st'))"
  using encode_nonempty [OF assms(2)] try_certs_second [OF assms(1)]
  by (simp add: acs_def saml_tenant_def saml_acme_def saml_tenant_acme_def spFor_def idpFor_def acme_post_def
        decodeBase64Lenient_def acme_idp_def del: try_certs.simps)

definition pending_store :: Store where
  "pending_store = empty_store\<lparr>saml_requests := [\<lparr>sr_request_id = ''_u1'', sr_tenant_id = ''acme'', sr_relay_state = ''/home'',
     sr_created_at = 0, sr_expires_at = minutes 10\<rparr>]\<rparr>"

lemma login_started:
  "\<exists>url. saml_login (login_lib ''_u1'') toy_splib saml_acme empty_store ''u1'' 0 0 ''acme'' ''/home'' = (RedirectTo url, saml_acme, pending_store)"
  by (simp add: saml_login_def saml_tenant_def saml_acme_def saml_tenant_acme_def spFor_def idpFor_def BuildRedirectURL_def
      acme_idp_def toy_splib_def require_def ensure_def Let_def PutSAMLRequest_def insert_row_def empty_store_def
      NewAuthnRequestID_def pending_store_def)

abbreviation login_post :: acs_inputs where
  "login_post \<equiv> acme_post (std_encode (source_of (login_doc ''_u1'')))"

lemma login_succeeds:
  "\<exists>sess ck st'. acs (login_lib ''_u1'') toy_splib saml_acme pending_store login_post = (AcsLoggedIn sess ck ''/home'', saml_acme, st')"
proof -
  have "source_of (login_doc ''_u1'') \<noteq> []" using source_nonempty by (simp add: login_doc_def)
  moreover have "\<exists>sess ck st'. acs_accept saml_acme pending_store login_post (login_claims ''_u1'') = (AcsLoggedIn sess ck ''/home'', st')"
    by (rule acs_accept_completes [of _ _ _ _ "''sid-1''"])
       (simp_all add: login_claims_def pending_store_def empty_store_def acme_post_def TakeSAMLRequest_def seconds_def minutes_def)
  ultimately show ?thesis using acs_acme [OF login_parses, of pending_store] by auto
qed

theorem saml_login_sound_witness:
  "\<exists>sess ck st'. acs (login_lib ''_u1'') toy_splib saml_acme pending_store login_post = (AcsLoggedIn sess ck ''/home'', saml_acme, st')
    \<and> sTenantID sess = ''acme'' \<and> sAuthMethod sess = ''saml'' \<and> sExpiresAt sess = seconds 1 + hours 8 \<and> ckValue ck = sID sess"
proof -
  obtain sess ck st' where a: "acs (login_lib ''_u1'') toy_splib saml_acme pending_store login_post = (AcsLoggedIn sess ck ''/home'', saml_acme, st')"
    using login_succeeds by blast
  show ?thesis
    using saml_login_sound [OF saml_acme_ok a] a by (elim exE conjE, intro exI conjI) (simp_all add: acme_post_def)
qed

theorem saml_response_single_use_witness:
  "\<exists>r r' s' st'. acs (login_lib ''_u1'') toy_splib saml_acme pending_store login_post = (r, s', st')
    \<and> acs_trace (login_lib ''_u1'') toy_splib saml_acme pending_store [(login_post, r), (login_post, r')]
    \<and> logged_in r \<and> \<not> logged_in r'"
proof -
  obtain sess ck st' where a: "acs (login_lib ''_u1'') toy_splib saml_acme pending_store login_post = (AcsLoggedIn sess ck ''/home'', saml_acme, st')"
    using login_succeeds by blast
  obtain r' s'' st'' where b: "acs (login_lib ''_u1'') toy_splib saml_acme st' login_post = (r', s'', st'')" by (metis prod_cases3)
  have t: "acs_trace (login_lib ''_u1'') toy_splib saml_acme pending_store [(login_post, AcsLoggedIn sess ck ''/home''), (login_post, r')]"
    by (rule acs_trace.call [OF a], rule acs_trace.call [OF b], rule acs_trace.stop)
  have "logins_with ''acme'' (std_encode (source_of (login_doc ''_u1''))) [(login_post, AcsLoggedIn sess ck ''/home''), (login_post, r')] \<le> 1"
    by (rule saml_response_single_use [OF t _ login_parses])
       (simp_all add: decodeBase64Lenient_def login_claims_def seconds_def zero_time_def acme_post_def)
  then have "\<not> logged_in r'" by (auto simp: logins_with_def logged_in_def acme_post_def split: if_splits)
  then show ?thesis using a t by (auto simp: logged_in_def)
qed

theorem saml_login_completes_witness:
  "\<exists>url sess ck st2. saml_login (login_lib ''_u1'') toy_splib saml_acme empty_store ''u1'' 0 0 ''acme'' ''/home'' = (RedirectTo url, saml_acme, pending_store)
    \<and> acs (login_lib ''_u1'') toy_splib saml_acme pending_store login_post = (AcsLoggedIn sess ck ''/home'', saml_acme, st2)"
proof -
  obtain url where u: "saml_login (login_lib ''_u1'') toy_splib saml_acme empty_store ''u1'' 0 0 ''acme'' ''/home'' = (RedirectTo url, saml_acme, pending_store)"
    using login_started by blast
  have "source_of (login_doc ''_u1'') \<noteq> []" using source_nonempty by (simp add: login_doc_def)
  then have "std_encode (source_of (login_doc ''_u1'')) \<noteq> []" by (rule encode_nonempty)
  moreover have "try_certs (login_lib ''_u1'') (source_of (login_doc ''_u1'')) acme_sp (\<lambda>_. seconds 1) 0 (idpSigningCertificates acme_idp) = Some (login_claims ''_u1'')"
    by (simp only: acme_idp_def IdPMetadata.simps) (rule try_certs_second [OF login_parses])
  ultimately show ?thesis
    using saml_login_completes [OF store_inv_empty u, of acme_sp acme_idp login_post _ "source_of (login_doc ''_u1'')" "login_claims ''_u1''" "''sid-1''"] u
    by (simp add: saml_acme_def acme_post_def decodeBase64Lenient_def login_claims_def NewAuthnRequestID_def seconds_def minutes_def
        empty_store_def)
qed

text \<open>The same unsolicited response, ten seconds after it expired.\<close>

definition late_post :: acs_inputs where
  "late_post = \<lparr>inTenant = ''acme'', inForm = Some (std_encode (source_of (login_doc []))), inVerify = (\<lambda>_. seconds 610),
     inMark = seconds 610, inTake = seconds 610, inUser = seconds 610, inSession = seconds 610, inUUID = ''u-2'',
     inRandom = Some ''sid-2''\<rparr>"

theorem idp_initiated_replay_witness:
  "\<exists>sess ck st1 sess' ck' st2.
    acs (login_lib []) toy_splib saml_acme empty_store (acme_post (std_encode (source_of (login_doc [])))) = (AcsLoggedIn sess ck [], saml_acme, st1)
    \<and> acs (login_lib []) toy_splib saml_acme st1 late_post = (AcsLoggedIn sess' ck' [], saml_acme, st2)"
proof -
  let ?post = "acme_post (std_encode (source_of (login_doc [])))"
  note p = unsolicited_parses
  have ne: "source_of (login_doc []) \<noteq> []" using source_nonempty by (simp add: login_doc_def)
  define st1 where "st1 = snd (acs_accept saml_acme empty_store ?post (login_claims []))"
  have st1: "users st1 = [user_row_of (blank_user\<lparr>uTenantID := ''acme'', uUserName := ''carol@acme'', uEmail := ''carol@acme'',
       uActive := True, uID := ''u-1'', uCreatedAt := seconds 1, uUpdatedAt := seconds 1, uVersion := 1\<rparr>)]"
    "map sID (sessions st1) = [''sid-1'']" "saml_requests st1 = []"
    by (simp_all add: st1_def acs_accept_def acme_post_def login_claims_def zero_time_def seconds_def MarkAssertionUsed_def
        TakeSAMLRequest_def empty_store_def insert_row_def acs_session_def jitProvisionUser_def FindUserByUserName_def
        CreateUser_def CreateSession_def Let_def blank_user_def mapAssertionAttributes_def)
  have "\<exists>sess ck st'. acs_accept saml_acme empty_store ?post (login_claims []) = (AcsLoggedIn sess ck [], st')"
    by (rule acs_accept_completes [of _ _ _ _ "''sid-1''"])
       (simp_all add: login_claims_def empty_store_def acme_post_def TakeSAMLRequest_def)
  then obtain sess ck where a: "acs_accept saml_acme empty_store ?post (login_claims []) = (AcsLoggedIn sess ck [], st1)"
    by (auto simp: st1_def)
  then have l: "acs (login_lib []) toy_splib saml_acme empty_store ?post = (AcsLoggedIn sess ck [], saml_acme, st1)"
    using acs_acme [OF p ne, of empty_store] by simp
  have "try_certs (login_lib []) (source_of (login_doc [])) acme_sp (\<lambda>_. seconds 610) 0 (idpSigningCertificates acme_idp)
      = Some (login_claims [])"
    using try_certs_second [OF unsolicited_parses_late] by (simp add: acme_idp_def del: try_certs.simps)
  moreover have f: "inForm ?post = Some (std_encode (source_of (login_doc [])))"
    "decodeBase64Lenient (std_encode (source_of (login_doc []))) = Some (source_of (login_doc []))"
    by (simp_all add: acme_post_def decodeBase64Lenient_def)
  ultimately have "\<exists>sess' ck' st2. acs (login_lib []) toy_splib saml_acme st1 late_post = (AcsLoggedIn sess' ck' [], saml_acme, st2)"
    using st1 encode_nonempty [OF ne]
    by (intro idp_initiated_replay [OF store_inv_empty l f, where sp = acme_sp and idp = acme_idp and a = "login_claims []"
            and rid = "''sid-2''"])
       (auto simp: acme_post_def late_post_def decodeBase64Lenient_def saml_acme_def saml_tenant_def saml_tenant_acme_def
          login_claims_def zero_time_def seconds_def user_row_of_def simp del: try_certs.simps)
  then show ?thesis using l by blast
qed

section \<open>A forged login\<close>

text \<open>
  A response of the identity provider that carries no assertion, as it sends it for a failed login,
  signed as a whole; and the same with an assertion of the attacker's own inside the signature.
\<close>

definition refusal :: segments where
  "refusal = response (signature ''_r'' [])"

definition forged :: segments where
  "forged = response (signature ''_r'' (assertion ''admin@acme'' [] []))"

definition refusal_target :: string where
  "refusal_target = the (canonicalize (index_doc (map fst refusal)) (raw_of 0 refusal) (0, 17) [1])"

definition refusal_signed :: string where
  "refusal_signed = the (canonicalize (index_doc (map fst refusal)) (raw_of 0 refusal) (2, 12) [])"

definition forged_lib :: samllib where
  "forged_lib = sample_lib [forged] refusal_target refusal_signed (seconds 600)"

lemma refusal_canon:
  "canonicalize (index_doc (map fst refusal)) (raw_of 0 refusal) (0, 17) [1] = Some refusal_target"
  "canonicalize (index_doc (map fst refusal)) (raw_of 0 refusal) (2, 12) [] = Some refusal_signed"
proof -
  have "canonicalize (index_doc (map fst refusal)) (raw_of 0 refusal) (0, 17) [1] \<noteq> None" by code_simp
  then show "canonicalize (index_doc (map fst refusal)) (raw_of 0 refusal) (0, 17) [1] = Some refusal_target"
    unfolding refusal_target_def by (rule option.collapse [symmetric])
  have "canonicalize (index_doc (map fst refusal)) (raw_of 0 refusal) (2, 12) [] \<noteq> None" by code_simp
  then show "canonicalize (index_doc (map fst refusal)) (raw_of 0 refusal) (2, 12) [] = Some refusal_signed"
    unfolding refusal_signed_def by (rule option.collapse [symmetric])
qed

lemma refusal_layout: "signature_laid_out (index_doc (map fst refusal)) (0, 17) (1, 16) (2, 12)"
  by code_simp

text \<open>Both parts that are signed read the same in the forged document.\<close>

lemma forged_canon:
  "canonicalize (index_doc (map fst forged)) (raw_of 0 forged) (0, 35) [1] = Some refusal_target"
  "canonicalize (index_doc (map fst forged)) (raw_of 0 forged) (2, 12) [] = Some refusal_signed"
proof -
  have "canonicalize (index_doc (map fst forged)) (raw_of 0 forged) (0, 35) [1]
      = canonicalize (index_doc (map fst refusal)) (raw_of 0 refusal) (0, 17) [1]" by code_simp
  then show "canonicalize (index_doc (map fst forged)) (raw_of 0 forged) (0, 35) [1] = Some refusal_target"
    using refusal_canon(1) by metis
  have "canonicalize (index_doc (map fst forged)) (raw_of 0 forged) (2, 12) []
      = canonicalize (index_doc (map fst refusal)) (raw_of 0 refusal) (2, 12) []" by code_simp
  then show "canonicalize (index_doc (map fst forged)) (raw_of 0 forged) (2, 12) [] = Some refusal_signed"
    using refusal_canon(2) by metis
qed

lemma forged_shape: "sample_shape (index_doc (map fst forged)) (0, 35) (16, 33) (0, 35) (1, 34) (2, 12)"
  by code_simp

definition forged_claims :: Assertion where
  "forged_claims = (login_claims [])\<lparr>aNameID := ''admin@acme''\<rparr>"

lemma forged_parses:
  "ParseAndVerifyResponse forged_lib (source_of forged) (RSACert ''idp-key'')
    ''https://gw/saml/acme/metadata'' ''https://gw/saml/acme/acs'' [] (seconds 1) (minutes 2) = Inr forged_claims"
proof -
  have v: "validate_assertion (sample_lib [] [] [] (seconds 600))
      \<lparr>vaDoc = index_doc (map fst forged), vaAssertion = (16, 33), vaResponse = (0, 35)\<rparr>
      ''https://gw/saml/acme/metadata'' ''https://gw/saml/acme/acs'' [] (seconds 1) (minutes 2) = Inr forged_claims"
    by code_simp
  show ?thesis unfolding forged_lib_def
    by (rule sample_parses [OF forged_shape _ forged_canon(2) v]) (simp only: fst_conv forged_canon(1))
qed

text \<open>
  C19: The signature of a whole response protects nothing that stands inside the signature element
  itself.  With a hash without collisions and an identity provider that has signed one text only,
  the signed part of a response without any assertion, a response forged from it logs the attacker
  in under a name of his choice.
\<close>

theorem forged_assertion_logs_in:
  "inj (sl_sha256 forged_lib)
   \<and> sl_rsa_verify forged_lib = (\<lambda>k d sg. k = ''idp-key'' \<and> sg = ''s'' \<and> d = sl_sha256 forged_lib refusal_signed)
   \<and> verifyEnvelopedSignature forged_lib (index_doc (map fst refusal)) (raw_of 0 refusal) (0, 17) (1, 16) (RSACert ''idp-key'') = Inr ()
   \<and> findAllDescendants (index_doc (map fst refusal)) 0 17 samlNS ''Assertion'' = []
   \<and> (\<exists>sess ck st'. acs forged_lib toy_splib saml_acme empty_store (acme_post (std_encode (source_of forged)))
          = (AcsLoggedIn sess ck [], saml_acme, st') \<and> sSubject sess = ''admin@acme'')"
proof (intro conjI)
  show "inj (sl_sha256 forged_lib)" by (simp add: forged_lib_def sample_lib_def inj_short_hash)
  show "sl_rsa_verify forged_lib = (\<lambda>k d sg. k = ''idp-key'' \<and> sg = ''s'' \<and> d = sl_sha256 forged_lib refusal_signed)"
    by (simp add: forged_lib_def sample_lib_def)
  show "verifyEnvelopedSignature forged_lib (index_doc (map fst refusal)) (raw_of 0 refusal) (0, 17) (1, 16) (RSACert ''idp-key'') = Inr ()"
    unfolding forged_lib_def
    by (rule sample_signature_verifies [OF refusal_layout _ refusal_canon(2)]) (simp only: fst_conv refusal_canon(1))
  show "findAllDescendants (index_doc (map fst refusal)) 0 17 samlNS ''Assertion'' = []" by code_simp
  have ne: "source_of forged \<noteq> []" using source_nonempty by (simp add: forged_def)
  have "\<exists>sess ck st'. acs_accept saml_acme empty_store (acme_post (std_encode (source_of forged))) forged_claims
      = (AcsLoggedIn sess ck [], st')"
    by (rule acs_accept_completes [of _ _ _ _ "''sid-1''"])
       (simp_all add: forged_claims_def login_claims_def empty_store_def acme_post_def TakeSAMLRequest_def)
  then obtain sess ck st' where a: "acs_accept saml_acme empty_store (acme_post (std_encode (source_of forged))) forged_claims
      = (AcsLoggedIn sess ck [], st')" by blast
  then have "sSubject sess = ''admin@acme''"
    using acs_accept_LoggedIn [OF a] acs_session_LoggedIn by (fastforce simp: forged_claims_def)
  then show "\<exists>sess ck st'. acs forged_lib toy_splib saml_acme empty_store (acme_post (std_encode (source_of forged)))
      = (AcsLoggedIn sess ck [], saml_acme, st') \<and> sSubject sess = ''admin@acme''"
    using acs_acme [OF forged_parses ne, of empty_store] a by simp
qed

section \<open>A deactivated user\<close>

definition leaver :: User where
  "leaver = blank_user\<lparr>uTenantID := ''acme'', uUserName := ''u-77'', uEmail := ''c@acme'', uActive := False, uAttributes := []\<rparr>"

theorem deactivated_user_logs_in_witness:
  "\<exists>u st sess ck st'. CreateUser empty_store ''u1'' 7 leaver = (Inr u, st) \<and> \<not> uActive u
    \<and> acs_session saml_acme st (acme_post []) (forged_claims\<lparr>aNameID := ''u-77''\<rparr>) ''/home'' = (AcsLoggedIn sess ck ''/home'', st')
    \<and> sUserID sess = ''u1''"
proof -
  obtain u st where c: "CreateUser empty_store ''u1'' 7 leaver = (Inr u, st)" "\<not> uActive u" "sessions st = []"
    by (simp add: CreateUser_def empty_store_def insert_row_def leaver_def blank_user_def Let_def)
  obtain u' where f: "FindUserByUserName st (inTenant (acme_post [])) (aNameID (forged_claims\<lparr>aNameID := ''u-77''\<rparr>)) = Inr u'" "\<not> uActive u'" "uID u' = ''u1''"
    using c(1) by (auto simp: CreateUser_def empty_store_def insert_row_def leaver_def blank_user_def Let_def FindUserByUserName_def
        scanUser_def user_row_of_def boolInt_def acme_post_def)
  have r: "inRandom (acme_post []) = Some ''sid-1''" by (simp add: acme_post_def)
  show ?thesis using deactivated_user_logs_in [OF f(1,2) r, of saml_acme "''/home''"] c f(3) by auto
qed

end
