(* ===== verification/GatewaySample.thy ===== *)
theory GatewaySample
  imports GatewayLaws SamlSample
begin

text \<open>
  A sample gateway with one tenant, a run of it in which a user logs in and then calls the API, and the
  witnesses of the properties of the whole gateway.
\<close>

section \<open>Routes\<close>

theorem mapper_longest_prefix_witness:
  "mapper [(''/api/'', ''general''), (''/api/db/'', ''DB'')] spoof_request = Some ''DB''
    \<and> mapper [(''/api/db/'', ''DB''), (''/api/'', ''general'')] spoof_request = Some ''DB''"
proof -
  let ?rs = "[(''/api/'', ''general''), (''/api/db/'', ''DB'')]" and ?rs' = "[(''/api/db/'', ''DB''), (''/api/'', ''general'')]"
  have "mapper ?rs spoof_request = Some ''DB''" by code_simp
  moreover have "distinct (map fst ?rs)" "distinct (map fst ?rs')" by simp_all
  moreover have "set ?rs' = set ?rs" by auto
  ultimately show ?thesis using mapper_longest_prefix [of ?rs ?rs' spoof_request] by presburger
qed

section \<open>A run\<close>

definition get_allow :: Policy where
  "get_allow = \<lparr>pID = ''allow-reads'', pEffect = ''Allow'', pResource = ''DB'',
     pCondition = Abac.leaf ''request.Method'' ''eq'' (AStr ''GET''), pReason = []\<rparr>"

definition acme_config :: Config where
  "acme_config = \<lparr>ListenAddr = '':8443'', DatabasePath = ''gw.db'', PublicBaseURL = ''https://gw/'', PolicyFile = ''p'',
     EnvironmentFile = [], SAMLKeyDir = [], TrustForwardedForCfg = False, ResourceRoutes = [(''/api/db/'', ''DB'')],
     Tenants = osTenants oidc_acme\<rparr>"

definition acme_gwlib :: "string gwlib" where
  "acme_gwlib = \<lparr>glGo = plain_lib, glSaml = login_lib [], glSp = toy_splib, glOidc = toy_oidc (rawurl_encode ''n''), glURL = Some\<rparr>"

definition acme_gateway :: "Store \<Rightarrow> string gateway" where
  "acme_gateway = new_gateway acme_config no_hours [get_allow]"

definition gw_get :: "string \<Rightarrow> (string \<times> string) list \<Rightarrow> Request" where
  "gw_get path cookies = \<lparr>rqMethod = ''GET'', rqPath = path, rqHost = ''gw'', rqRemoteAddr = ''10.0.0.5:4000'',
     rqHeader = [(''Accept'', [''*''])], rqCookies = cookies\<rparr>"

definition gw_req :: "Request \<Rightarrow> gw_request" where
  "gw_req r = \<lparr>gqHttp = r, gqScim = acme_request [], gqAcs = acme_post [], gqOidcLogin = acme_start,
     gqCallback = acme_return, gqReturnTo = ''/home'', gqUUID = ''u-2'', gqNow = seconds 2, gqNow2 = seconds 2, gqNow3 = seconds 2\<rparr>"

definition login_return :: gw_request where
  "login_return = gw_req (gw_get ''/oidc/acme/callback'' [])"

definition api_call :: gw_request where
  "api_call = gw_req (gw_get ''/api/db/q'' [(''b2bfp_session'', ''sid-1'')])"

lemma gw_req_parts:
  "gqHttp (gw_req r) = r" "gqNow (gw_req r) = seconds 2" "gqNow2 (gw_req r) = seconds 2" "gqNow3 (gw_req r) = seconds 2"
  by (simp_all add: gw_req_def)

lemma gw_get_parts: "rqMethod (gw_get path cookies) = ''GET''" "rqPath (gw_get path cookies) = path"
  by (simp_all add: gw_get_def)

definition acme_session :: Session where
  "acme_session = \<lparr>sID = ''sid-1'', sTenantID = ''acme'', sUserID = ''u-1'', sSubject = ''u-77'',
     sAttributes = [(''Email'', AStr ''carol@acme''), (''Groups'', AStrs [])], sAuthMethod = ''oidc'',
     sCreatedAt = seconds 1, sExpiresAt = seconds 1 + hours 8\<rparr>"

definition acme_cookie :: Cookie where
  "acme_cookie = \<lparr>ckValue = ''sid-1'', ckSecure = True, ckExpires = seconds 1 + hours 8\<rparr>"

definition acme_store :: Store where
  "acme_store = empty_store\<lparr>users := [\<lparr>ur_id = ''u-1'', ur_tenant_id = ''acme'', ur_external_id = None,
       ur_user_name = ''carol@acme'', ur_given_name = None, ur_family_name = None, ur_display_name = None,
       ur_email = Some ''carol@acme'', ur_department = None, ur_active = 1, ur_attributes = [], ur_version = 1,
       ur_created_at = seconds 1, ur_updated_at = seconds 1\<rparr>],
     sessions := [acme_session\<lparr>sAttributes := [(''Email'', AStr ''carol@acme''), (''Groups'', ANil)]\<rparr>]\<rparr>"

lemma acme_callback_session:
  "callback_session (oidc_acme\<lparr>osDiscovery := dc\<rparr>) empty_store acme_return (toy_claims (rawurl_encode ''n'')) ''/home''
    = (OidcLoggedIn acme_session acme_cookie ''/home'', acme_store)"
  by code_simp

lemma acme_mux:
  "mux (rqMethod (gqHttp login_return)) (rqPath (gqHttp login_return)) = Some (OidcCallbackR ''acme'')"
  "mux (rqMethod (gqHttp api_call)) (rqPath (gqHttp api_call)) = Some ApiR"
  unfolding login_return_def api_call_def gw_req_parts gw_get_parts by code_simp+

lemma acme_gw_parts:
  "gwOidc (acme_gateway st) = oidc_acme" "gwStore (acme_gateway st) = st"
  "gwMiddleware (acme_gateway st) = new_middleware acme_config no_hours [get_allow]"
  "gwTenants (acme_gateway st) = osTenants oidc_acme" "gwProxies (acme_gateway st) = []"
proof -
  have "public_base acme_config = ''https://gw''" by code_simp
  then show "gwOidc (acme_gateway st) = oidc_acme" "gwStore (acme_gateway st) = st"
    "gwMiddleware (acme_gateway st) = new_middleware acme_config no_hours [get_allow]"
    "gwTenants (acme_gateway st) = osTenants oidc_acme" "gwProxies (acme_gateway st) = []"
    by (simp_all add: acme_gateway_def new_gateway_def acme_config_def oidc_acme_def Let_def)
qed

lemma acme_login_served:
  "\<exists>g. serve acme_gwlib (acme_gateway acme_pending_store) login_return = (GwLogin acme_session acme_cookie ''/home'', g)
    \<and> gwStore g = acme_store \<and> gwMiddleware g = new_middleware acme_config no_hours [get_allow]
    \<and> gwTenants g = osTenants oidc_acme \<and> gwProxies g = []"
proof -
  have same: "acme_return\<lparr>ciTenant := ''acme''\<rparr> = acme_return" by (simp add: acme_return_def)
  have "gqCallback login_return = acme_return" "glOidc acme_gwlib = toy_oidc (rawurl_encode ''n'')"
    by (simp_all add: login_return_def gw_req_def acme_gwlib_def)
  moreover have "redirectAfterLogin ''/home'' = ''/home''" by (simp add: redirectAfterLogin_def)
  moreover obtain dc where "callback (toy_oidc (rawurl_encode ''n'')) oidc_acme acme_pending_store acme_return
      = (OidcLoggedIn acme_session acme_cookie ''/home'', oidc_acme\<lparr>osDiscovery := dc\<rparr>, acme_store)"
    using acme_callback unfolding acme_callback_session by auto
  ultimately show ?thesis using same by (simp add: serve_def acme_mux acme_gw_parts)
qed

lemma acme_api_served:
  assumes "gwStore g = acme_store" "gwMiddleware g = new_middleware acme_config no_hours [get_allow]"
    "gwTenants g = osTenants oidc_acme" "gwProxies g = []"
  shows "\<exists>r' g'. serve acme_gwlib g api_call = (GwBackend ''http://b'' r', g')"
proof -
  let ?h = "api_Handler plain_lib Some (new_middleware acme_config no_hours [get_allow]) (osTenants oidc_acme) acme_store []
      (gqNow api_call) (gqNow2 api_call) (gqNow3 api_call) (gqHttp api_call)"
  have "(case fst ?h of Outgoing u r \<Rightarrow> u = ''http://b'' | ProxyReply c m \<Rightarrow> False)"
    unfolding api_call_def gw_req_parts by code_simp
  then obtain r' where "fst ?h = Outgoing ''http://b'' r'" by (auto split: proxy_result.splits)
  then obtain st' ps where "?h = (Outgoing ''http://b'' r', st', ps)" by (metis prod.collapse)
  then show ?thesis using assms by (simp add: serve_def acme_mux acme_gwlib_def)
qed

lemma acme_run:
  obtains g r' g' where
    "gw_run acme_gwlib (acme_gateway acme_pending_store) [(login_return, GwLogin acme_session acme_cookie ''/home'')] g"
    "serve acme_gwlib g api_call = (GwBackend ''http://b'' r', g')"
proof -
  obtain g where s: "serve acme_gwlib (acme_gateway acme_pending_store) login_return = (GwLogin acme_session acme_cookie ''/home'', g)"
    and g: "gwStore g = acme_store" "gwMiddleware g = new_middleware acme_config no_hours [get_allow]"
      "gwTenants g = osTenants oidc_acme" "gwProxies g = []" using acme_login_served by blast
  have "gw_run acme_gwlib (acme_gateway acme_pending_store) [(login_return, GwLogin acme_session acme_cookie ''/home'')] g"
    using gw_run.gw_serve [OF gw_run.gw_start s] by (simp only: append_Nil)
  moreover obtain r' g' where "serve acme_gwlib g api_call = (GwBackend ''http://b'' r', g')"
    using acme_api_served [OF g] by (elim exE)
  ultimately show thesis by (rule that)
qed


theorem api_needs_login_witness:
  "\<exists>g r' g'. gw_run acme_gwlib (acme_gateway acme_pending_store) [(login_return, GwLogin acme_session acme_cookie ''/home'')] g
    \<and> serve acme_gwlib g api_call = (GwBackend ''http://b'' r', g')
    \<and> request_Cookie (gqHttp api_call) sessionCookieName = Some (ckValue acme_cookie)
    \<and> gqNow api_call \<le> sExpiresAt acme_session"
proof -
  obtain g r' g' where run: "gw_run acme_gwlib (acme_gateway acme_pending_store)
      [(login_return, GwLogin acme_session acme_cookie ''/home'')] g"
    "serve acme_gwlib g api_call = (GwBackend ''http://b'' r', g')" by (rule acme_run)
  have s: "sessions acme_pending_store = []"
    by (simp add: acme_pending_store_def PutOIDCRequest_def empty_store_def insert_row_def)
  have c: "canonical_keys (rqHeader (gqHttp api_call))" by code_simp
  obtain q0 sess ck to where "(q0, GwLogin sess ck to :: string gw_reply) \<in> set [(login_return, GwLogin acme_session acme_cookie ''/home'')]"
    "request_Cookie (gqHttp api_call) sessionCookieName = Some (ckValue ck)" "gqNow api_call \<le> sExpiresAt sess"
    using api_needs_login [OF run(1) [unfolded acme_gateway_def] s run(2) c] by blast
  then have "sess = acme_session" "ck = acme_cookie" by simp_all
  then show ?thesis using run \<open>request_Cookie _ _ = _\<close> \<open>_ \<le> _\<close> by blast
qed

end
