(* ===== verification/DemoSample.thy ===== *)
theory DemoSample
  imports DemoApp GatewaySample
begin

text \<open>
  The run of \<open>GatewaySample\<close> inside the demo: a login, a page, a token request for an unknown code and a call of the API
  whose identity headers the backend echoes.
\<close>

definition plain_provider_request :: provider_request where
  "plain_provider_request = \<lparr>prQuery = (\<lambda>k. []), prForm = None, prRandom = None, prNow = 0\<rparr>"

abbreviation in_demo :: "gw_request \<Rightarrow> demo_request" where
  "in_demo q \<equiv> \<lparr>dqGateway = q, dqProvider = plain_provider_request\<rparr>"

definition page_request :: gw_request where
  "page_request = gw_req (gw_get ''/'' [])"

definition token_request :: gw_request where
  "token_request = gw_req (gw_get ''/mock-oidc/token'' [])"

definition acme_demo :: "(string, unit) demo" where
  "acme_demo = \<lparr>dmGateway = acme_gateway acme_pending_store, dmProvider = sample_provider\<rparr>"

lemma acme_demo_routes:
  "demo_mux (rqMethod (gqHttp login_return)) (rqPath (gqHttp login_return)) = GatewayR"
  "demo_mux (rqMethod (gqHttp api_call)) (rqPath (gqHttp api_call)) = GatewayR"
  "demo_mux (rqMethod (gqHttp page_request)) (rqPath (gqHttp page_request)) = PageR"
  "demo_mux (rqMethod (gqHttp token_request)) (rqPath (gqHttp token_request)) = ProviderR ''/token''"
  unfolding login_return_def api_call_def page_request_def token_request_def gw_req_parts gw_get_parts by code_simp+

lemma acme_demo_run:
  assumes "gw_run acme_gwlib (acme_gateway acme_pending_store) [(login_return, GwLogin acme_session acme_cookie ''/home'')] g"
  shows "demo_run acme_gwlib sample_mocklib ''<html>'' acme_demo
    [(in_demo login_return, DemoGateway (GwLogin acme_session acme_cookie ''/home'')), (in_demo page_request, DemoPage ''<html>''),
     (in_demo token_request, DemoProvider (PrAnswer (MockError 400 ''bad form'')))]
    \<lparr>dmGateway = g, dmProvider = sample_provider\<rparr>"
proof -
  let ?d = "\<lparr>dmGateway = g, dmProvider = sample_provider\<rparr>"
  have "\<forall>q\<in>fst ` set [(login_return, GwLogin acme_session acme_cookie ''/home'' :: string gw_reply)].
      demo_mux (rqMethod (gqHttp q)) (rqPath (gqHttp q)) = GatewayR" by (simp add: acme_demo_routes)
  note start = gateway_run_lifts [OF assms this, of sample_mocklib "''<html>''" sample_provider plain_provider_request]
  have page: "demo_serve acme_gwlib sample_mocklib ''<html>'' ?d (in_demo page_request) = (DemoPage ''<html>'', ?d)"
    by (simp add: demo_serve_def acme_demo_routes Let_def)
  have "mockoidc_serve sample_mocklib sample_provider ''/token'' plain_provider_request
      = (PrAnswer (MockError 400 ''bad form''), sample_provider)"
    by (simp add: mockoidc_serve_def plain_provider_request_def mock_token_def)
  then have tok: "demo_serve acme_gwlib sample_mocklib ''<html>'' ?d (in_demo token_request)
      = (DemoProvider (PrAnswer (MockError 400 ''bad form'')), ?d)"
    by (simp add: demo_serve_def acme_demo_routes Let_def)
  show ?thesis
    using demo_run.demo_step [OF demo_run.demo_step [OF start page] tok] by (simp add: acme_demo_def)
qed


theorem demo_backend_echoes_session_witness:
  "\<exists>d r' d'. demo_serve acme_gwlib sample_mocklib ''<html>'' d (in_demo api_call) = (DemoGateway (GwBackend ''http://b'' r'), d')
    \<and> map_of (mock_backend r') ''X-B2bfp-Subject'' = Some ''u-77'' \<and> map_of (mock_backend r') ''X-B2bfp-Admin'' = None"
proof -
  obtain g r' g' where run: "gw_run acme_gwlib (acme_gateway acme_pending_store)
      [(login_return, GwLogin acme_session acme_cookie ''/home'')] g"
    "serve acme_gwlib g api_call = (GwBackend ''http://b'' r', g')" by (rule acme_run)
  let ?d = "\<lparr>dmGateway = g, dmProvider = sample_provider\<rparr>"
  have s: "sessions acme_pending_store = []"
    by (simp add: acme_pending_store_def PutOIDCRequest_def empty_store_def insert_row_def)
  have c: "canonical_keys (rqHeader (gqHttp (dqGateway (in_demo api_call))))" by code_simp
  have serve: "demo_serve acme_gwlib sample_mocklib ''<html>'' ?d (in_demo api_call)
      = (DemoGateway (GwBackend ''http://b'' r'), \<lparr>dmGateway = g', dmProvider = sample_provider\<rparr>)"
    by (simp add: demo_serve_def acme_demo_routes run(2))
  have tok: "connection_tokens (rqHeader (gqHttp (dqGateway (in_demo api_call)))) = []" by code_simp
  note echo = demo_backend_echoes_session [OF acme_demo_run [OF run(1), unfolded acme_demo_def acme_gateway_def] s serve c, unfolded tok]
  have "HasPrefix ''X-B2bfp-Subject'' ''X-B2bfp-''" "HasPrefix ''X-B2bfp-Admin'' ''X-B2bfp-''" by (simp_all add: HasPrefix_def)
  then have "map_of (mock_backend r') ''X-B2bfp-Subject'' = map_option (\<lambda>vs. Join vs '','') (gateway_header (stored acme_session) ''X-B2bfp-Subject'')"
    "map_of (mock_backend r') ''X-B2bfp-Admin'' = map_option (\<lambda>vs. Join vs '','') (gateway_header (stored acme_session) ''X-B2bfp-Admin'')"
    using echo by auto
  moreover have "sSubject (stored acme_session) = ''u-77''" by (simp add: stored_def acme_session_def)
  ultimately show ?thesis using serve by (auto simp: gateway_header_def)
qed

end
