(* ===== verification/Caches.thy ===== *)
theory Caches
  imports Keys Proxy SamlLaws
begin

text \<open>
  The caches that the servers fill on demand and never empty: the service providers and the metadata of the identity
  providers (\<open>internal/saml/sp.go\<close>) and the reverse proxies (\<open>internal/proxy/proxy.go\<close>).  They share one
  interface, the locale \<open>pinned_cache\<close>: what was answered once is answered until the process ends, whatever the
  files and the configuration say in the meantime, and a failure is not remembered.
\<close>

locale pinned_cache =
  fixes lookup :: "'s \<Rightarrow> string \<Rightarrow> 'v option"
    and ask :: "'x \<Rightarrow> 's \<Rightarrow> string \<Rightarrow> 'v option \<times> 's"
  assumes hit: "lookup s k = Some v \<Longrightarrow> ask x s k = (Some v, s)"
    and miss: "lookup s k = None \<Longrightarrow> ask x s k = (r, s') \<Longrightarrow>
          lookup s' = (case r of None \<Rightarrow> lookup s | Some v \<Rightarrow> (lookup s)(k \<mapsto> v))"
begin

definition asks :: "'s \<Rightarrow> ('x \<times> string) list \<Rightarrow> 's" where
  "asks s qs = foldl (\<lambda>s q. snd (ask (fst q) s (snd q))) s qs"

lemma ask_keeps:
  assumes "lookup s k = Some v"
  shows "lookup (snd (ask x s k')) k = Some v"
proof (cases "lookup s k'")
  case None
  obtain r s' where "ask x s k' = (r, s')" by (cases "ask x s k'")
  then show ?thesis using miss [OF None] assms None by (auto split: option.splits)
qed (simp add: hit assms)

lemma asks_keep: "lookup s k = Some v \<Longrightarrow> lookup (asks s qs) k = Some v"
  by (induction qs arbitrary: s) (simp_all add: asks_def ask_keeps)

lemma answer_is_cached:
  assumes "ask x s k = (Some v, s')"
  shows "lookup s' k = Some v"
proof (cases "lookup s k")
  case None
  then show ?thesis using miss [OF None assms] by simp
next
  case (Some w)
  then show ?thesis using hit [OF Some, of x] assms by simp
qed

text \<open>An answer is pinned.\<close>

lemma pinned: "ask x s k = (Some v, s') \<Longrightarrow> fst (ask y (asks s' qs) k) = Some v"
  using hit [OF asks_keep [OF answer_is_cached]] by simp

text \<open>A failure leaves no trace.\<close>

lemma failure_forgotten:
  assumes "ask x s k = (None, s')"
  shows "lookup s' = lookup s"
proof (cases "lookup s k")
  case None
  then show ?thesis using miss [OF None assms] by simp
next
  case (Some w)
  then show ?thesis using hit [OF Some, of x] assms by simp
qed

end

section \<open>The caches of the gateway\<close>

interpretation idp_cache: pinned_cache
  "\<lambda>s. map_of (ssIdPCache s)" "\<lambda>(S, P, tenant) s t. idpFor S P s t tenant"
  by unfold_locales (auto simp: idpFor_def map_of_put fun_eq_iff split: option.splits sum.splits)

interpretation sp_cache: pinned_cache "\<lambda>s. map_of (ssSPs s)" "\<lambda>P s t. spFor P s t"
  by unfold_locales (auto simp: spFor_def Let_def map_of_put fun_eq_iff split: option.splits)

interpretation proxy_cache: pinned_cache map_of "\<lambda>(url_parse, backendURL) ps t. proxyFor url_parse ps t backendURL"
  by unfold_locales (auto simp: proxyFor_def map_of_put fun_eq_iff split: option.splits)

section \<open>Properties\<close>


end
