(* ===== verification/FakeIdpSample.thy ===== *)
theory FakeIdpSample
  imports IdpFiles SamlSample
begin

text \<open>
  A minted response in full: a decoder that knows the three documents of one call of runMint, a clock whose texts
  count seconds in binary, and a signature scheme that copies the digest; with it the witnesses of the properties of
  \<open>FakeIdp\<close> and \<open>Sign\<close>.
\<close>

section \<open>A clock\<close>

fun bin :: "nat \<Rightarrow> string" where
  "bin n = (if n = 0 then [] else (if n mod 2 = 1 then CHR ''1'' else CHR ''0'') # bin (n div 2))"

declare bin.simps [simp del]

fun unbin :: "string \<Rightarrow> nat" where
  "unbin [] = 0"
| "unbin (c # cs) = (if c = CHR ''1'' then 1 else 0) + 2 * unbin cs"

definition clock_text :: "instant \<Rightarrow> string" where
  "clock_text t = (let n = t div seconds 1 in (if n < 0 then CHR ''-'' else CHR ''+'') # bin (nat \<bar>n\<bar>))"

definition clock_read :: "string \<Rightarrow> instant option" where
  "clock_read s = (case s of [] \<Rightarrow> None | c # cs \<Rightarrow> Some (seconds ((if c = CHR ''-'' then - 1 else 1) * int (unbin cs))))"

lemma unbin_bin: "unbin (bin n) = n"
proof (induction n rule: bin.induct)
  case (1 n)
  show ?case
  proof (cases "n = 0")
    case False
    then have "unbin (bin n) = (if n mod 2 = 1 then 1 else 0) + 2 * unbin (bin (n div 2))" by (subst bin.simps) simp
    then show ?thesis using 1 False by simp presburger
  qed (simp add: bin.simps)
qed

lemma set_bin: "set (bin n) \<subseteq> {CHR ''0'', CHR ''1''}"
proof (induction n rule: bin.induct)
  case (1 n)
  then show ?case by (subst bin.simps) auto
qed

lemma clock_text_chars: "set (clock_text t) \<subseteq> {CHR ''0'', CHR ''1'', CHR ''+'', CHR ''-''}"
  using set_bin [of "nat \<bar>t div seconds 1\<bar>"] by (auto simp: clock_text_def Let_def)

lemma clock_text_trim: "TrimSpace (clock_text t) = clock_text t"
proof -
  have "\<forall>c\<in>set (clock_text t). \<not> is_space c"
    using clock_text_chars [of t] by (fastforce simp: is_space_def code_of_def)
  then have "dropWhile is_space (clock_text t) = clock_text t" "dropWhile is_space (rev (clock_text t)) = rev (clock_text t)"
    by (auto simp: dropWhile_eq_self_iff hd_rev)
  then show ?thesis by (simp add: TrimSpace_def)
qed

lemma clock_read_text: "clock_read (clock_text t) = Some (whole_second t)"
  by (auto simp: clock_read_def clock_text_def whole_second_def unbin_bin Let_def)

section \<open>One response\<close>

text \<open>The files after a first start of the provider, with one certificate for every key.\<close>

definition demo_keylib :: keylib where
  "demo_keylib = plain_keylib\<lparr>kl_create_cert := (\<lambda>c k. Some ''c'')\<rparr>"

definition demo_files :: files where
  "demo_files = [(''idp.pem'', ''Pk1''), (''idp.xml'', fakeidp_metadata ''https://idp'' (std_encode ''c'') ''https://idp/sso'')]"

definition demo_splib :: splib where
  "demo_splib = toy_splib\<lparr>pl_fmt_utc := clock_text, pl_rsa_sign := (\<lambda>k d. Some d), pl_read_file := map_of demo_files\<rparr>"

definition demo_mint :: mint_inputs where
  "demo_mint = \<lparr>miSPEntityID = ''https://gw/saml/acme/metadata'', miACSURL = ''https://gw/saml/acme/acs'', miInResponseTo = ''_u1'',
     miNameID = ''bob@acme'', miDepartment = ''Engineering'', miCertDER = Some ''c'', miAssertionUUID = ''a'', miResponseUUID = ''r'', miNow = 0\<rparr>"

definition demo_element :: segments where
  "demo_element = element (mint_assertion_open demo_splib demo_mint) (mint_body_segs demo_splib demo_mint) (close_tag ''saml'' ''Assertion'')"

definition demo_target :: string where
  "demo_target = the (canonicalize (index_doc (map fst demo_element)) (raw_of 0 demo_element) (0, 27) [])"

definition demo_info :: segments where
  "demo_info = signed_info_segs ''_a'' (std_encode ''d'')"

definition demo_csi :: string where
  "demo_csi = the (canonicalize (index_doc (map fst demo_info)) (raw_of 0 demo_info) (0, 16) [])"

definition demo_signature :: segments where
  "demo_signature = signature_segs ''_a'' (std_encode ''d'') (std_encode (short_hash demo_target demo_csi)) (std_encode ''c'')"

definition demo_metadata :: segments where
  "demo_metadata = metadata_segs ''https://idp'' (std_encode ''c'') ''https://idp/sso''"

definition demo_lib :: samllib where
  "demo_lib = \<lparr>sl_xml = sample_xml [demo_element, demo_info, mint_signed demo_splib demo_mint demo_signature, demo_metadata],
     sl_sha256 = short_hash demo_target, sl_rsa_verify = (\<lambda>k d sg. k = ''idp-key'' \<and> sg = d),
     sl_time_parse = (\<lambda>layout s. clock_read s), sl_parse_cert = (\<lambda>der. if der = ''c'' then Some (RSACert ''idp-key'') else None)\<rparr>"

lemma demo_texts: "mint_texts_ok demo_splib demo_mint"
  using clock_text_chars by (fastforce simp: mint_texts_ok_def demo_splib_def demo_mint_def)

lemma demo_clock: "clock_texts demo_lib demo_splib"
  by (simp add: clock_texts_def parseSAMLTime_def demo_lib_def demo_splib_def clock_text_trim clock_read_text)

lemma demo_canon: "canonicalize (index_doc (map fst demo_element)) (raw_of 0 demo_element) (0, 27) [] = Some demo_target"
proof -
  have "canonicalize (index_doc (map fst demo_element)) (raw_of 0 demo_element) (0, 27) [] \<noteq> None" by code_simp
  then show ?thesis by (auto simp: demo_target_def)
qed

lemma demo_canon_info: "canonicalize (index_doc (map fst demo_info)) (raw_of 0 demo_info) (0, 16) [] = Some demo_csi"
proof -
  have "canonicalize (index_doc (map fst demo_info)) (raw_of 0 demo_info) (0, 16) [] \<noteq> None" by code_simp
  then show ?thesis by (auto simp: demo_csi_def)
qed

lemma demo_reads:
  "reads (sl_xml demo_lib) demo_element" "reads (sl_xml demo_lib) demo_info" "reads (sl_xml demo_lib) (mint_signed demo_splib demo_mint demo_signature)"
  "reads (sl_xml demo_lib) demo_metadata"
proof -
  let ?docs = "[demo_element, demo_info, mint_signed demo_splib demo_mint demo_signature, demo_metadata]"
  have x: "sl_xml demo_lib = sample_xml ?docs" by (simp add: demo_lib_def)
  have starts: "take 6 (source_of demo_element) = ''<saml:''" "take 6 (source_of demo_info) = ''<ds:Si''"
    "take 6 (source_of (mint_signed demo_splib demo_mint demo_signature)) = ''<samlp''" "take 6 (source_of demo_metadata) = ''<?xml ''"
    by (simp_all add: source_of_Cons demo_element_def demo_info_def mint_signed_def mint_before_def element_def signed_info_segs_def
        mint_assertion_open_def mint_response_open_def open_tag_def demo_metadata_def metadata_segs_def)
  have differ: "take 6 x \<noteq> take 6 y \<Longrightarrow> x \<noteq> y" for x y :: string by auto
  have "source_of demo_element \<noteq> source_of demo_info"
    "source_of demo_element \<noteq> source_of (mint_signed demo_splib demo_mint demo_signature)"
    "source_of demo_info \<noteq> source_of (mint_signed demo_splib demo_mint demo_signature)"
    "source_of demo_element \<noteq> source_of demo_metadata" "source_of demo_info \<noteq> source_of demo_metadata"
    "source_of (mint_signed demo_splib demo_mint demo_signature) \<noteq> source_of demo_metadata"
    by (rule differ, simp add: starts)+
  then have "find (\<lambda>d. source_of d = source_of demo_element) ?docs = Some demo_element"
    "find (\<lambda>d. source_of d = source_of demo_info) ?docs = Some demo_info"
    "find (\<lambda>d. source_of d = source_of (mint_signed demo_splib demo_mint demo_signature)) ?docs = Some (mint_signed demo_splib demo_mint demo_signature)"
    "find (\<lambda>d. source_of d = source_of demo_metadata) ?docs = Some demo_metadata"
    by simp_all
  then show "reads (sl_xml demo_lib) demo_element" "reads (sl_xml demo_lib) demo_info"
    "reads (sl_xml demo_lib) (mint_signed demo_splib demo_mint demo_signature)" "reads (sl_xml demo_lib) demo_metadata"
    unfolding x using reads_sample by blast+
qed

lemma demo_hash: "sl_sha256 demo_lib demo_target = ''d''" "sl_sha256 demo_lib = short_hash demo_target"
  by (simp_all add: demo_lib_def short_hash_def)

lemma demo_rid: "NewAuthnRequestID (miAssertionUUID demo_mint) = ''_a''"
  by (simp add: demo_mint_def NewAuthnRequestID_def)

lemma demo_reads_signing:
  "reads_signing demo_lib (mint_assertion_open demo_splib demo_mint) (mint_body_segs demo_splib demo_mint) (close_tag ''saml'' ''Assertion'') ''_a''"
proof -
  have "length (mint_body_segs demo_splib demo_mint) + 1 = 27" by (simp add: mint_body_segs_def)
  then show ?thesis
    using demo_reads(1,2) demo_canon by (auto simp: reads_signing_def demo_hash(1) simp flip: demo_element_def demo_info_def)
qed

lemma demo_reads_minting: "reads_minting demo_lib demo_splib Some demo_mint"
  unfolding reads_minting_def demo_rid Let_def
proof (intro conjI allI impI)
  show "reads_signing demo_lib (mint_assertion_open demo_splib demo_mint) (mint_body_segs demo_splib demo_mint) (close_tag ''saml'' ''Assertion'') ''_a''"
    by (rule demo_reads_signing)
next
  fix target csi sigb certDER
  assume t: "canonicalize (index_doc (map fst (element (mint_assertion_open demo_splib demo_mint) (mint_body_segs demo_splib demo_mint)
        (close_tag ''saml'' ''Assertion''))))
      (raw_of 0 (element (mint_assertion_open demo_splib demo_mint) (mint_body_segs demo_splib demo_mint) (close_tag ''saml'' ''Assertion''))) (0, 27) []
      = Some target"
    and c: "canonicalize (index_doc (map fst (signed_info_segs ''_a'' (std_encode (sl_sha256 demo_lib target)))))
      (raw_of 0 (signed_info_segs ''_a'' (std_encode (sl_sha256 demo_lib target)))) (0, 16) [] = Some csi"
    and s: "Some (sl_sha256 demo_lib csi) = Some sigb" "miCertDER demo_mint = Some certDER"
  have target: "target = demo_target" using t demo_canon by (simp flip: demo_element_def)
  have "csi = demo_csi" using c demo_canon_info by (simp add: target demo_hash(1) flip: demo_info_def)
  then have "sigb = short_hash demo_target demo_csi" "certDER = ''c''" using s by (simp_all add: demo_hash(2) demo_mint_def)
  then show "reads (sl_xml demo_lib) (mint_signed demo_splib demo_mint
      (signature_segs ''_a'' (std_encode (sl_sha256 demo_lib target)) (std_encode sigb) (std_encode certDER)))"
    using demo_reads(3) by (simp only: demo_signature_def target demo_hash(1))
qed

lemma demo_signed:
  "BuildSignedElementXML demo_lib Some ''c'' ''_a'' (mint_open demo_splib demo_mint) (mint_body demo_splib demo_mint) ''</saml:Assertion>''
    = Inr (source_of (element (mint_assertion_open demo_splib demo_mint) (demo_signature @ mint_body_segs demo_splib demo_mint)
        (close_tag ''saml'' ''Assertion'')))"
proof -
  have len: "length (mint_body_segs demo_splib demo_mint) + 1 = 27" by (simp add: mint_body_segs_def)
  have info: "demo_info = signed_info_segs ''_a'' (std_encode (sl_sha256 demo_lib demo_target))" by (simp add: demo_info_def demo_hash(1))
  have signer: "Some (sl_sha256 demo_lib demo_csi) = Some (short_hash demo_target demo_csi)" by (simp add: demo_hash(2))
  have rid: "CHR 0x22 \<notin> set ''_a''" by simp
  have canon: "canonicalize (index_doc (map fst (element (mint_assertion_open demo_splib demo_mint) (mint_body_segs demo_splib demo_mint)
        (close_tag ''saml'' ''Assertion''))))
      (raw_of 0 (element (mint_assertion_open demo_splib demo_mint) (mint_body_segs demo_splib demo_mint) (close_tag ''saml'' ''Assertion'')))
      (0, length (mint_body_segs demo_splib demo_mint) + 1) [] = Some demo_target"
    unfolding len using demo_canon by (simp only: demo_element_def)
  show ?thesis
    using BuildSigned_completes [OF closed_assertion [OF demo_texts] rid demo_reads_signing canon info demo_canon_info, of Some "short_hash demo_target demo_csi" "''c''"]
      signer by (simp only: demo_signature_def demo_hash(1) mint_sources)
qed

definition demo_response :: string where
  "demo_response = source_of (mint_signed demo_splib demo_mint demo_signature)"

lemma demo_minted:
  "runMint demo_lib demo_splib Some demo_mint = Minted demo_response (mint_page ''https://gw/saml/acme/acs'' (std_encode demo_response))"
proof -
  have "mint_response demo_splib demo_mint (source_of (element (mint_assertion_open demo_splib demo_mint)
      (demo_signature @ mint_body_segs demo_splib demo_mint) (close_tag ''saml'' ''Assertion''))) = demo_response"
    unfolding demo_response_def by (rule mint_response_source [OF refl])
  moreover have "miSPEntityID demo_mint \<noteq> []" "miACSURL demo_mint = ''https://gw/saml/acme/acs''" "miCertDER demo_mint = Some ''c''"
    by (simp_all add: demo_mint_def)
  ultimately show ?thesis using demo_signed by (simp add: runMint_def demo_rid Let_def)
qed

lemma demo_key: "\<forall>d sig. Some d = Some sig \<longrightarrow> sl_rsa_verify demo_lib ''idp-key'' d sig"
  by (simp add: demo_lib_def)

theorem minted_response_verdict_witness:
  "\<exists>a. ParseAndVerifyResponse demo_lib demo_response (RSACert ''idp-key'') ''https://gw/saml/acme/metadata'' ''https://gw/saml/acme/acs'' ''_u1''
      (seconds 1) (minutes 2) = Inr a \<and> aNameID a = ''bob@acme''
    \<and> ParseAndVerifyResponse demo_lib demo_response (RSACert ''idp-key'') ''https://gw/saml/acme/metadata'' ''https://gw/saml/acme/acs'' ''_u2''
      (seconds 1) (minutes 2) = Inl WrongRequest
    \<and> ParseAndVerifyResponse demo_lib demo_response (RSACert ''idp-key'') ''https://gw/saml/globex/metadata'' ''https://gw/saml/acme/acs'' []
      (seconds 1) (minutes 2) = Inl WrongAudience"
proof -
  note v = minted_response_verdict [OF demo_texts demo_clock demo_reads_minting demo_key demo_minted]
  have "TrimSpace ''bob@acme'' = ''bob@acme''" "TrimSpace ''https://gw/saml/acme/metadata'' = ''https://gw/saml/acme/metadata''" by code_simp+
  moreover have "whole_second (minutes 10) = seconds 600" "whole_second (- minutes 1) = seconds (- 60)"
    by (simp_all add: whole_second_def minutes_def seconds_def)
  ultimately show ?thesis unfolding v by (simp add: demo_mint_def seconds_def minutes_def)
qed

theorem fakeidp_login_completes_witness:
  "\<exists>url s1 st1 sess ck st2. saml_login demo_lib demo_splib (saml_acme\<lparr>ssIdPCache := [(''acme'', acme_idp\<lparr>idpSigningCertificates := [RSACert ''idp-key'']\<rparr>)]\<rparr>)
      empty_store ''u1'' 0 0 ''acme'' ''/home'' = (RedirectTo url, s1, st1)
    \<and> acs demo_lib demo_splib s1 st1 (acme_post (std_encode demo_response)) = (AcsLoggedIn sess ck ''/home'', s1, st2) \<and> sSubject sess = ''bob@acme''"
proof -
  let ?idp = "acme_idp\<lparr>idpSigningCertificates := [RSACert ''idp-key'']\<rparr>"
  let ?s = "saml_acme\<lparr>ssIdPCache := [(''acme'', ?idp)]\<rparr>"
  obtain url where l: "saml_login demo_lib demo_splib ?s empty_store ''u1'' 0 0 ''acme'' ''/home'' = (RedirectTo url, ?s, pending_store)"
    by (simp add: saml_login_def saml_tenant_def saml_acme_def saml_tenant_acme_def spFor_def idpFor_def BuildRedirectURL_def
        acme_idp_def toy_splib_def demo_splib_def require_def ensure_def Let_def PutSAMLRequest_def insert_row_def empty_store_def
        NewAuthnRequestID_def pending_store_def)
  have trim: "TrimSpace ''bob@acme'' = ''bob@acme''" "TrimSpace ''https://gw/saml/acme/metadata'' = ''https://gw/saml/acme/metadata''" by code_simp+
  have "\<exists>sess ck st2. acs demo_lib demo_splib ?s pending_store (acme_post (std_encode demo_response)) = (AcsLoggedIn sess ck ''/home'', ?s, st2)
      \<and> sSubject sess = TrimSpace (miNameID demo_mint)"
    by (rule fakeidp_login_completes [OF demo_texts demo_clock demo_reads_minting demo_key demo_minted store_inv_empty l, of acme_sp ?idp _ "''sid-1''"])
      (simp_all add: saml_acme_def acme_post_def acme_sp_def demo_mint_def NewAuthnRequestID_def trim empty_store_def whole_second_def seconds_def minutes_def)
  then show ?thesis using l trim by (auto simp: demo_mint_def)
qed

theorem signed_element_verifies_witness:
  "\<exists>out sg. BuildSignedElementXML demo_lib Some ''c'' ''_a'' (mint_open demo_splib demo_mint) (mint_body demo_splib demo_mint) ''</saml:Assertion>'' = Inr out
    \<and> length sg = 29
    \<and> (let full = mint_before demo_splib demo_mint @ element (mint_assertion_open demo_splib demo_mint) (sg @ mint_body_segs demo_splib demo_mint)
                    (close_tag ''saml'' ''Assertion'') @ [close_tag ''samlp'' ''Response'']
       in verifyEnvelopedSignature demo_lib (index_doc (map fst full)) (raw_of 0 full) (4, 60) (5, 33) (RSACert ''idp-key'') = Inr ())"
proof -
  have op: "fst (mint_assertion_open demo_splib demo_mint) = StartElement (samlNS, ''Assertion'') [((''xmlns'', ''saml''), samlNS), (([], ''ID''), ''_a''),
      (([], ''Version''), ''2.0''), (([], ''IssueInstant''), pl_fmt_utc demo_splib (miNow demo_mint))]"
    by (simp add: mint_assertion_open_def open_tag_def demo_rid)
  have rid: "CHR 0x22 \<notin> set ''_a''" "''_a'' \<noteq> []" by simp_all
  have "attr_or_empty [((''xmlns'', ''saml''), samlNS), (([], ''ID''), ''_a''), (([], ''Version''), ''2.0''),
      (([], ''IssueInstant''), pl_fmt_utc demo_splib (miNow demo_mint))] ''ID'' = ''_a''" by (simp add: attr_or_empty_def attr_value_def)
  from signed_element_verifies [OF closed_assertion [OF demo_texts] op this rid(2,1) demo_reads_signing demo_key
      demo_signed [folded mint_sources(1) [of demo_splib demo_mint], folded mint_sources(2) [of demo_splib demo_mint], folded mint_sources(3)]]
  obtain sg where sg: "length sg = 29" and
    v: "\<And>pre post. let full = pre @ element (mint_assertion_open demo_splib demo_mint) (sg @ mint_body_segs demo_splib demo_mint) (close_tag ''saml'' ''Assertion'') @ post;
        parent = (length pre, length pre + length sg + length (mint_body_segs demo_splib demo_mint) + 1); sig = (length pre + 1, length pre + length sg)
      in findDirectChild (index_doc (map fst full)) parent dsNS ''Signature'' = Some sig
        \<and> verifyEnvelopedSignature demo_lib (index_doc (map fst full)) (raw_of 0 full) parent sig (RSACert ''idp-key'') = Inr ()"
    by blast
  have "length (mint_before demo_splib demo_mint) = 4" "length (mint_body_segs demo_splib demo_mint) = 26"
    by (simp_all add: mint_before_def mint_body_segs_def)
  then show ?thesis
    using v [of "mint_before demo_splib demo_mint" "[close_tag ''samlp'' ''Response'']"] sg demo_signed by (auto simp: Let_def)
qed

theorem fakeidp_metadata_parses_witness:
  "ParseIdPMetadata demo_lib (fakeidp_metadata ''https://idp'' (std_encode ''c'') ''https://idp/sso'')
   = Inr \<lparr>idpEntityID = ''https://idp'', idpSSORedirectURL = ''https://idp/sso'', idpSSOPostURL = [], idpSigningCertificates = [RSACert ''idp-key'']\<rparr>"
  by (rule fakeidp_metadata_parses [OF demo_reads(4) [unfolded demo_metadata_def]]) (simp_all add: demo_lib_def)

section \<open>The commands\<close>

abbreviation demo_start :: "files \<Rightarrow> string \<Rightarrow> init_result \<times> files" where
  "demo_start fs k \<equiv> ensureFakeIDP demo_keylib file_exists fs (key_sample k) ''https://idp'' ''https://idp/sso'' ''idp.xml'' ''idp.pem''"

lemma demo_started: "demo_start [] ''k1'' = (InitDone, demo_files)"
  by (simp add: ensureFakeIDP_def file_exists_def runInit_def demo_keylib_def plain_keylib_def key_sample_def WriteFile_def demo_files_def)

lemma demo_read_back: "keys_read_back demo_keylib"
  by (simp add: keys_read_back_def demo_keylib_def plain_keylib_def)

theorem bootstrapped_idp_is_trusted_witness:
  "\<exists>fs1 response page fs2 a. demo_start [] ''k1'' = (InitDone, fs1)
    \<and> mint_command demo_keylib demo_lib demo_splib fs1 (key_sample ''k2'') ''idp.pem'' demo_mint [] = (Minted response page, fs2)
    \<and> map_option idpSigningCertificates (fst (idpFor demo_lib demo_splib fresh_server ''acme'' (saml_tenant_acme\<lparr>tSAMLIdPMetadataFile := ''idp.xml''\<rparr>)))
        = Some [RSACert ''idp-key'']
    \<and> ParseAndVerifyResponse demo_lib response (RSACert ''idp-key'') ''https://gw/saml/acme/metadata'' ''https://gw/saml/acme/acs'' ''_u1'' (seconds 1) (minutes 2)
        = Inr a \<and> aNameID a = ''bob@acme''"
proof -
  have same: "demo_mint\<lparr>miCertDER := kl_create_cert demo_keylib tmpl k\<rparr> = demo_mint" "pl_rsa_sign demo_splib k = Some" for tmpl k
    by (simp_all add: demo_keylib_def demo_mint_def demo_splib_def fun_eq_iff)
  have m: "mint_command demo_keylib demo_lib demo_splib demo_files (key_sample ''k2'') ''idp.pem'' demo_mint []
      = (Minted demo_response (mint_page ''https://gw/saml/acme/acs'' (std_encode demo_response)), demo_files)"
  proof -
    have "miSPEntityID demo_mint \<noteq> []" "miACSURL demo_mint \<noteq> []" "ReadFile (kiReadable (key_sample ''k2'')) demo_files ''idp.pem'' = Some ''Pk1''"
      "kl_pem_decode demo_keylib ''Pk1'' = Some ''k1''" "kl_pkcs1 demo_keylib ''k1'' = Some ''k1''"
      by (simp_all add: demo_mint_def ReadFile_def key_sample_def demo_files_def demo_keylib_def plain_keylib_def)
    then show ?thesis by (simp add: mint_command_def same demo_minted)
  qed
  note b = bootstrapped_idp_is_trusted [OF demo_read_back _ _ _ demo_started _ _ _ _ _ demo_reads(4) [unfolded demo_metadata_def] _ _ _ m demo_texts demo_clock,
      unfolded same, of "''k1''" "''idp-key''" fresh_server "''acme''" "saml_tenant_acme\<lparr>tSAMLIdPMetadataFile := ''idp.xml''\<rparr>"]
  have trim: "TrimSpace ''bob@acme'' = ''bob@acme''" "TrimSpace ''https://gw/saml/acme/metadata'' = ''https://gw/saml/acme/metadata''" by code_simp+
  have second: "whole_second (minutes 10) = seconds 600" "whole_second (- minutes 1) = seconds (- 60)"
    by (simp_all add: whole_second_def minutes_def seconds_def)
  have v: "minted_verdict demo_splib demo_mint ''https://gw/saml/acme/metadata'' ''https://gw/saml/acme/acs'' ''_u1'' (seconds 1) (minutes 2)
      = Inr (minted_assertion demo_splib demo_mint)" and "aNameID (minted_assertion demo_splib demo_mint) = ''bob@acme''"
    by (simp_all add: minted_verdict_def minted_assertion_def demo_mint_def trim second) (simp_all add: seconds_def minutes_def)
  then show ?thesis
    using b demo_reads_minting demo_key m demo_started
    by (simp add: key_sample_def demo_keylib_def demo_splib_def demo_lib_def fresh_server_def)
qed

theorem cut_metadata_is_never_rewritten_witness:
  "\<exists>fs1. ensureFakeIDP demo_keylib file_exists [] ((key_sample ''k1'')\<lparr>kiWrite := (\<lambda>p. if p = ''idp.xml'' then Cut 7 else Written)\<rparr>)
      ''https://idp'' ''https://idp/sso'' ''idp.xml'' ''idp.pem'' = (InitWrite ''idp.xml'', fs1)
    \<and> map_of fs1 ''idp.xml'' = Some ''<?xml v'' \<and> demo_start fs1 ''k2'' = (InitDone, fs1)"
proof -
  let ?i = "(key_sample ''k1'')\<lparr>kiWrite := (\<lambda>p. if p = ''idp.xml'' then Cut 7 else Written)\<rparr>"
  obtain fs1 where e: "ensureFakeIDP demo_keylib file_exists [] ?i ''https://idp'' ''https://idp/sso'' ''idp.xml'' ''idp.pem'' = (InitWrite ''idp.xml'', fs1)"
    "map_of fs1 ''idp.xml'' = Some ''<?xml v''"
    by (simp add: ensureFakeIDP_def file_exists_def runInit_def demo_keylib_def plain_keylib_def key_sample_def WriteFile_def fakeidp_metadata_def)
  have "demo_start fs1 ''k2'' = (InitDone, fs1)"
    by (rule cut_metadata_is_never_rewritten [OF _ _ _ _ _ _ _ _ e(1), THEN conjunct2, of "''k1''" "''c''"])
       (simp_all add: key_sample_def demo_keylib_def)
  then show ?thesis using e by blast
qed

end
