(* ===== verification/CacheSample.thy ===== *)
theory CacheSample
  imports Caches FakeIdpSample
begin

text \<open>
  A certificate that is still trusted after its file is gone: the metadata of \<open>FakeIdpSample\<close> are read once, then the
  files are those of \<open>toy_splib\<close>, which has none.
\<close>

definition cold_server :: saml_server where
  "cold_server = saml_acme\<lparr>ssIdPCache := []\<rparr>"

abbreviation file_tenant :: Tenant where
  "file_tenant \<equiv> saml_tenant_acme\<lparr>tSAMLIdPMetadataFile := ''idp.xml''\<rparr>"


end
