(* ===== verification/Spec2Isabelle.thy ===== *)
theory Spec2Isabelle
  imports Abac Directory Proxy ScimPrint ScimServer Interleaving DemoSample CacheSample
begin

text \<open>
  A verification development of the B2B federation gateway.

  \<^bold>\<open>The program.\<close>  One gateway serves many tenants.  A tenant's identity provider pushes users and groups over SCIM; its
  users log in over SAML or OIDC and get a session cookie; a request below \<open>/api/\<close> is let through to the tenant's
  backend when its cookie names a live session and the policies grant the resource of its path, and it carries the
  identity of the session in \<open>X-B2BFP-*\<close> headers.  All handlers share one SQLite database.

  \<^bold>\<open>Theories and sources.\<close>  Names are those of the code; a theory \<open>XLaws\<close> holds the properties of \<open>X\<close>, a theory \<open>XSample\<close>
  concrete runs, which are the witnesses.
  \<^item> \<open>Prelude\<close>, \<open>Values\<close>, \<open>Net\<close>, \<open>Encoding\<close>, \<open>Http\<close>: what the code uses of Go's library.  Strings of bytes, \<open>any\<close> values,
    float64 as the rationals they denote, instants in nanoseconds, CIDR matching on 8-bit words, base64 and percent
    encoding, header maps with canonical keys.
  \<^item> \<open>Abac\<close>: \<open>internal/abac\<close>.  A \<open>Condition\<close> is the record of the code with its \<open>all\<close>, \<open>any\<close> and \<open>not\<close> parts; \<open>Evaluate\<close> is the
    loop over the policies.
  \<^item> \<open>Store\<close>, \<open>StoreLaws\<close>, \<open>Directory\<close>, \<open>Interleaving\<close>: \<open>internal/store\<close>.  The database is a record of tables, a table the
    list of its rows; an operation returns its result, or the error, and the new database.  \<open>StoreLaws\<close> has the
    step relation of all operations, the interface \<open>single_use\<close> of pending requests and its two
    interpretations; \<open>Directory\<close> the interface of users and groups; \<open>Interleaving\<close> the same operations statement by
    statement, as threads under a schedule.
  \<^item> \<open>Config\<close>, \<open>Authz\<close>, \<open>Proxy\<close>: \<open>internal/config\<close>, \<open>internal/authz\<close> and \<open>internal/proxy\<close>, with what
    \<open>httputil.ReverseProxy\<close> does to headers.
  \<^item> \<open>ScimFilter\<close>, \<open>ScimGrammar\<close>, \<open>ScimPrint\<close>, \<open>ScimPatch\<close>, \<open>ScimServer\<close>: \<open>internal/scim\<close>, from the tokens of a filter to
    the handlers.
  \<^item> \<open>XmlDoc\<close>, \<open>Canon\<close>, \<open>XmlDsig\<close>, \<open>Sign\<close>: \<open>xmldoc.go\<close>, \<open>canon.go\<close>, \<open>xmldsig.go\<close> with \<open>response.go\<close>, and \<open>sign.go\<close> of
    \<open>internal/saml\<close>.  A document is the token stream with the index that the code builds.  \<open>XmlText\<close> and \<open>CanonLaws\<close> relate a
    source text to its tokens and show what a part of a document keeps in other surroundings.
  \<^item> \<open>SamlSp\<close>, \<open>SamlLaws\<close>, \<open>Keys\<close>: \<open>metadata.go\<close>, \<open>request.go\<close>, \<open>sp.go\<close> and \<open>keys.go\<close>, the last over an explicit file system.
    \<open>Login\<close> is the interface of just-in-time provisioning that both login servers interpret, \<open>Caches\<close> that of the caches
    that are filled on demand and never emptied.
  \<^item> \<open>Oidc\<close>, \<open>OidcLaws\<close>: \<open>internal/oidc\<close>.
  \<^item> \<open>Gateway\<close>, \<open>GatewayLaws\<close>: \<open>cmd/gateway\<close>.  \<open>serve\<close> is one request through the mux and its handler over the state
    all handlers share, \<open>gw_run\<close> a sequence of them.
  \<^item> \<open>MockOidc\<close>, \<open>FakeIdp\<close>, \<open>IdpFiles\<close>, \<open>DemoApp\<close>: \<open>cmd/mockoidc\<close>, \<open>cmd/fakeidp\<close>, \<open>cmd/mockbackend\<close> and the demo
    entry point \<open>main.go\<close>, which mounts them around the gateway.

  \<^bold>\<open>What the lemmas show.\<close>
  \<^item> Access: a request is forwarded exactly when its session is live and a policy allows it and none denies it; a backend
    is reached in a run only after a login of the same tenant, and sees the identity of that login.
  \<^item> Logins: a session is issued only for a response or token that verifies for this tenant, and responses, requests
    and states are used once; honest logins come to their end, also against the two development providers.
  \<^item> Signatures: what is signed verifies wherever it stands.  The converse fails: an assertion that nobody signed can be
    hidden in a signature (\<open>SamlSample\<close>).
  \<^item> Data: the keys of the tables hold in every reachable database and under every interleaving of statements;
    tenants do not see each other's users; filters print and parse back; patches refine operations on sets.
  \<^item> Concurrency: single use of an assertion survives any interleaving, that of pending requests and the updates of
    users do not.
  \<^item> Files: the key pair of a service provider survives restarts of the gateway; the files one command writes are those
    that the other programs read.
  \<^item> Caches: what a server has once read of an identity provider holds until the process ends.
  \<^item> Composition: the demo has exactly the runs of the gateway on the gateway's routes.

  \<^bold>\<open>Bounds and fuel.\<close>  \<open>maxFilterDepth\<close> (128) and \<open>maxCanonDepth\<close> (256) are the code's own limits on nesting, and the
  recursions count the levels that are left, so that a deeper input is the code's error.  The loops of the filter parser
  have the length of the input as fuel, and \<open>ScimGrammar\<close> shows that it never runs out; the searches over a document have
  the width of the range as fuel, of which every step uses at least one, and \<open>CanonLaws\<close> shows that more changes nothing.
  Version numbers and unbounded counters of the code are integers; exponents of keys, times of tokens and addresses
  are kept at their width, where wrap-around is visible.

  \<^bold>\<open>Parameters.\<close>  SHA-256, RSA, X.509, PEM, DEFLATE, regular expressions, time layouts and zones, JSON and XML decoders, the
  network, the clock and random values are arguments.  What a property needs of them (a signature verifies under its
  public key, a decoder reads a text as its tokens) is a hypothesis with a witness.

  \<^bold>\<open>Not modelled.\<close>  Listening, time-outs, log lines, the parsing of command lines, the transport to a backend, I/O failures
  of SQLite, the wording of errors of other layers, and the redirects of the mux for paths that are not clean.  Letters,
  white space and case are those of ASCII where Go uses Unicode; strings may hold any bytes.  A request is one step of
  the gateway; where statements of several requests can alternate, \<open>Interleaving\<close> has them one by one.
\<close>

end
